(* ===== verification/Prelude.thy ===== *)
theory Prelude
  imports Complex_Main "HOL-Library.Char_ord" "HOL-Library.List_Lexorder"
begin

text \<open>
  What the components of the development share.

  \<^item> A raised exception is a value: an operation that may raise returns \<open>'e + 'a\<close>, \<open>Inl\<close> for the
    exception.  \<open>rbind\<close>, \<open>rguard\<close> and \<open>mapM\<close> sequence such operations the way statements that
    may raise follow each other in the source.
  \<^item> \<open>json\<close> is what \<open>json.loads\<close> returns: Python's \<open>None\<close>, booleans, unbounded integers, finite
    floats (by value), strings, lists and dictionaries in insertion order.
  \<^item> \<open>load_json\<close>, \<open>require_unique\<close> and the key check \<open>exact_keys\<close> are the helpers of
    \<open>src/tools/hfxdev/model.py\<close> and their repetitions in the modules that import it.

  Strings are \<open>char\<close> lists; their order is the lexicographic order by character code, which is how
  Python sorts strings.
\<close>

named_theorems result_simps \<open>when an operation that may raise returns normally\<close>

section \<open>Operations that may raise\<close>

definition rbind :: "'e + 'a \<Rightarrow> ('a \<Rightarrow> 'e + 'b) \<Rightarrow> 'e + 'b" where
  "rbind x f = (case x of Inl e \<Rightarrow> Inl e | Inr v \<Rightarrow> f v)"

definition rguard :: "bool \<Rightarrow> 'e \<Rightarrow> 'e + unit" where
  "rguard ok e = (if ok then Inr () else Inl e)"

fun mapM :: "('a \<Rightarrow> 'e + 'b) \<Rightarrow> 'a list \<Rightarrow> 'e + 'b list" where
  "mapM body [] = Inr []"
| "mapM body (item # rest) = rbind (body item) (\<lambda>y. rbind (mapM body rest) (\<lambda>out. Inr (y # out)))"

fun foldM :: "('s \<Rightarrow> 'a \<Rightarrow> 'e + 's) \<Rightarrow> 's \<Rightarrow> 'a list \<Rightarrow> 'e + 's" where
  "foldM body acc [] = Inr acc"
| "foldM body acc (item # rest) = rbind (body acc item) (\<lambda>acc'. foldM body acc' rest)"

text \<open>A loop whose body only checks.\<close>

fun each :: "('a \<Rightarrow> 'e + unit) \<Rightarrow> 'a list \<Rightarrow> 'e + unit" where
  "each body [] = Inr ()"
| "each body (item # rest) = rbind (body item) (\<lambda>_. each body rest)"

definition is_ok :: "'e + 'a \<Rightarrow> bool" where
  "is_ok r = (case r of Inl _ \<Rightarrow> False | Inr _ \<Rightarrow> True)"

lemma rbind_simps [simp]:
  "rbind (Inl e) f = Inl e"
  "rbind (Inr v) f = f v"
  by (simp_all add: rbind_def)

lemma rbind_Inr_iff [result_simps]:
  "rbind x f = Inr y \<longleftrightarrow> (\<exists>v. x = Inr v \<and> f v = Inr y)"
  by (cases x) auto

lemma rbind_Inl_iff:
  "rbind x f = Inl e \<longleftrightarrow> x = Inl e \<or> (\<exists>v. x = Inr v \<and> f v = Inl e)"
  by (cases x) auto

lemma rguard_Inr_iff [result_simps]: "rguard b e = Inr u \<longleftrightarrow> b"
  by (simp add: rguard_def)

lemma rguard_Inl_iff: "rguard b e = Inl e' \<longleftrightarrow> \<not> b \<and> e' = e"
  by (auto simp: rguard_def)

lemma rguard_simps [simp]: "rguard True e = Inr ()" "rguard False e = Inl e"
  by (simp_all add: rguard_def)

lemma rbind_assoc: "rbind (rbind r f) g = rbind r (\<lambda>x. rbind (f x) g)"
  by (cases r) simp_all

lemma is_ok_simps [simp]: "is_ok (Inl e) = False" "is_ok (Inr v) = True"
  by (simp_all add: is_ok_def)

lemma is_ok_iff: "is_ok r \<longleftrightarrow> (\<exists>v. r = Inr v)"
  by (cases r) auto

lemma rbind_cong [fundef_cong]:
  "x = x' \<Longrightarrow> (\<And>v. x' = Inr v \<Longrightarrow> f v = f' v) \<Longrightarrow> rbind x f = rbind x' f'"
  by (cases x') auto

lemma mapM_cong [fundef_cong]:
  "xs = ys \<Longrightarrow> (\<And>x. x \<in> set ys \<Longrightarrow> f x = g x) \<Longrightarrow> mapM f xs = mapM g ys"
  by (induction ys arbitrary: xs) auto

lemma mapM_Inr_iff [result_simps]:
  "mapM f xs = Inr ys \<longleftrightarrow> list_all2 (\<lambda>x y. f x = Inr y) xs ys"
proof (induction xs arbitrary: ys)
  case Nil
  show ?case by auto
next
  case (Cons x xs)
  then show ?case by (cases ys) (auto simp: rbind_Inr_iff)
qed

lemma mapM_Inl_iff:
  "mapM f xs = Inl e \<longleftrightarrow>
     (\<exists>us x vs ys. xs = us @ x # vs \<and> mapM f us = Inr ys \<and> f x = Inl e)"
proof (induction xs)
  case Nil
  show ?case by simp
next
  case (Cons x xs)
  show ?case
  proof (cases "f x")
    case (Inl d)
    then show ?thesis
      by (auto simp: Cons_eq_append_conv) (metis mapM.simps(1))+
  next
    case (Inr y)
    then show ?thesis
      by (auto simp: rbind_Inl_iff Cons Cons_eq_append_conv rbind_Inr_iff)
         (metis (no_types) mapM.simps(2) rbind_simps(2))+
  qed
qed

lemma mapM_length: "mapM f xs = Inr ys \<Longrightarrow> length ys = length xs"
  by (auto simp: mapM_Inr_iff dest: list_all2_lengthD)

lemma mapM_eq_map: "(\<And>x. x \<in> set xs \<Longrightarrow> f x = Inr (g x)) \<Longrightarrow> mapM f xs = Inr (map g xs)"
  by (induction xs) auto

lemma mapM_in_set:
  assumes "mapM f xs = Inr ys" and "y \<in> set ys"
  obtains x where "x \<in> set xs" and "f x = Inr y"
  using assms by (force simp: mapM_Inr_iff list_all2_conv_all_nth in_set_conv_nth)

lemma each_cong [fundef_cong]:
  "xs = ys \<Longrightarrow> (\<And>x. x \<in> set ys \<Longrightarrow> f x = g x) \<Longrightarrow> each f xs = each g ys"
  by (induction ys arbitrary: xs) auto

lemma each_Inr_iff [result_simps]: "each f xs = Inr u \<longleftrightarrow> (\<forall>x \<in> set xs. f x = Inr ())"
  by (induction xs) (auto simp: rbind_Inr_iff)

lemma each_Inl: "each f xs = Inl e \<Longrightarrow> \<exists>x \<in> set xs. f x = Inl e"
  by (induction xs) (auto simp: rbind_Inl_iff)

lemma foldM_append:
  "foldM f s (xs @ ys) = rbind (foldM f s xs) (\<lambda>s'. foldM f s' ys)"
  by (induction xs arbitrary: s) (auto simp: rbind_def split: sum.splits)

lemma foldM_cong:
  "(\<And>s x. x \<in> set xs \<Longrightarrow> f s x = g s x) \<Longrightarrow> foldM f s xs = foldM g s xs"
  by (induction xs arbitrary: s) (auto intro: arg_cong2 [where f = rbind])

lemma foldM_invariant:
  assumes "foldM f s xs = Inr t" and "P s"
    and "\<And>s x t. x \<in> set xs \<Longrightarrow> P s \<Longrightarrow> f s x = Inr t \<Longrightarrow> P t"
  shows "P t"
  using assms
proof (induction xs arbitrary: s)
  case Nil
  then show ?case by simp
next
  case (Cons x xs)
  from Cons.prems(1) obtain u where u: "f s x = Inr u" "foldM f u xs = Inr t"
    by (auto simp: rbind_Inr_iff)
  then have "P u" using Cons.prems(2,3) by auto
  then show ?case using Cons.IH [OF u(2)] Cons.prems(3) by auto
qed

section \<open>Decoded JSON documents\<close>

datatype json =
    JNull
  | JBool bool
  | JInt int
  | JFloat rat
  | JStr string
  | JArr "json list"
  | JObj "(string \<times> json) list"

definition obj_keys :: "(string \<times> json) list \<Rightarrow> string list" where
  "obj_keys kvs = map fst kvs"

text \<open>\<open>json.loads\<close> builds dictionaries, so no key occurs twice at any depth of a decoded document.\<close>

fun wf_json :: "json \<Rightarrow> bool" where
  "wf_json (JArr xs) = list_all wf_json xs"
| "wf_json (JObj kvs) = (distinct (map fst kvs) \<and> list_all (\<lambda>(k, v). wf_json v) kvs)"
| "wf_json _ = True"

text \<open>The parts of a document are smaller than it is.\<close>

lemma json_size_arr: "x \<in> set xs \<Longrightarrow> size x < size (JArr xs)"
  by (induction xs) auto

lemma json_size_obj: "(k, v) \<in> set kvs \<Longrightarrow> size v < size (JObj kvs)"
  by (induction kvs) auto

lemma json_size_item: "map_of kvs k = Some v \<Longrightarrow> size v < size (JObj kvs)"
  by (rule json_size_obj) (rule map_of_SomeD)

text \<open>Python's \<open>==\<close> between a decoded document and an integer literal: \<open>True == 1\<close> and \<open>2.0 == 2\<close>.\<close>

definition json_eq_int :: "json \<Rightarrow> int \<Rightarrow> bool" where
  "json_eq_int j n = (case j of JInt m \<Rightarrow> m = n | JFloat q \<Rightarrow> q = of_int n
     | JBool b \<Rightarrow> n = (if b then 1 else 0) | _ \<Rightarrow> False)"

fun json_strs :: "json list \<Rightarrow> string list option" where
  "json_strs [] = Some []"
| "json_strs (JStr s # xs) = map_option (\<lambda>ss. s # ss) (json_strs xs)"
| "json_strs (_ # xs) = None"

lemma json_strs_Some: "json_strs xs = Some ss \<longleftrightarrow> xs = map JStr ss"
  by (induction xs arbitrary: ss rule: json_strs.induct) auto

section \<open>Shared validation helpers\<close>

text \<open>
  \<open>ModelError\<close> carries its message.  The other constructors are the exceptions of the Python
  runtime that a loader lets through: a missing key, an attribute or an operation on a value of
  the wrong type, a value a library function refuses.
\<close>

datatype model_error =
    ModelError string
  | KeyError string
  | TypeError
  | AttributeError
  | ValueError

definition py_sorted :: "string list \<Rightarrow> string list" where
  "py_sorted xs = sort xs"

fun join :: "string \<Rightarrow> string list \<Rightarrow> string" where
  "join sep [] = []"
| "join sep [x] = x"
| "join sep (x # y # zs) = x @ sep @ join sep (y # zs)"

definition require_unique :: "string list \<Rightarrow> string \<Rightarrow> model_error + unit" where
  "require_unique values label =
     (let duplicates = py_sorted (remdups (filter (\<lambda>v. count_list values v > 1) values))
      in if duplicates \<noteq> []
         then Inl (ModelError (''duplicate '' @ label @ '': '' @ join '', '' duplicates))
         else Inr ())"

lemma distinct_iff_count_list: "distinct xs \<longleftrightarrow> (\<forall>x \<in> set xs. count_list xs x \<le> 1)"
  by (induction xs) (auto simp: count_list_0_iff)

lemma require_unique_Inr [result_simps]: "require_unique vs l = Inr u \<longleftrightarrow> distinct vs"
proof -
  have "py_sorted (remdups (filter (\<lambda>v. count_list vs v > 1) vs)) = [] \<longleftrightarrow>
      (\<forall>x \<in> set vs. \<not> count_list vs x > 1)"
    by (auto simp: py_sorted_def filter_empty_conv set_empty [symmetric])
  then show ?thesis
    by (auto simp: require_unique_def Let_def distinct_iff_count_list not_less)
qed

text \<open>
  \<open>path.read_text\<close> and \<open>json.loads\<close> behind \<open>load_json\<close>: the document of a readable file that
  parses, as the parameter \<open>files\<close> gives it.
\<close>

definition load_json :: "(string \<Rightarrow> json option) \<Rightarrow> string \<Rightarrow> model_error + (string \<times> json) list" where
  "load_json files path =
     (case files path of
        None \<Rightarrow> Inl (ModelError (path @ '': unreadable or not JSON''))
      | Some (JObj kvs) \<Rightarrow> Inr kvs
      | Some _ \<Rightarrow> Inl (ModelError (path @ '': top-level value must be an object'')))"

text \<open>
  The sorted keys a dictionary lacks of an expected set, and those it has beyond it, which the
  modules' checks \<open>_exact_keys\<close>, \<open>_exact\<close> and \<open>_require_exact_keys\<close> compute.
\<close>

definition missing_keys :: "(string \<times> json) list \<Rightarrow> string list \<Rightarrow> string list" where
  "missing_keys kvs expected = py_sorted (filter (\<lambda>k. k \<notin> set (obj_keys kvs)) (remdups expected))"

definition unknown_keys :: "(string \<times> json) list \<Rightarrow> string list \<Rightarrow> string list" where
  "unknown_keys kvs expected = py_sorted (filter (\<lambda>k. k \<notin> set expected) (remdups (obj_keys kvs)))"

lemma py_sorted_Nil [simp]: "py_sorted xs = [] \<longleftrightarrow> xs = []"
  by (simp add: py_sorted_def set_empty [symmetric] del: set_empty)

lemma set_py_sorted [simp]: "set (py_sorted xs) = set xs"
  by (simp add: py_sorted_def)

lemma exact_keys_iff:
  "missing_keys kvs ks = [] \<and> unknown_keys kvs ks = [] \<longleftrightarrow> set (map fst kvs) = set ks"
  by (auto simp: missing_keys_def unknown_keys_def obj_keys_def filter_empty_conv)

text \<open>\<open>value[key]\<close> on a dictionary.\<close>

definition item :: "(string \<times> json) list \<Rightarrow> string \<Rightarrow> model_error + json" where
  "item kvs k = (case map_of kvs k of None \<Rightarrow> Inl (KeyError k) | Some v \<Rightarrow> Inr v)"

lemma item_Inr [result_simps]: "item kvs k = Inr v \<longleftrightarrow> map_of kvs k = Some v"
  by (auto simp: item_def split: option.splits)

lemma item_present: "k \<in> fst ` set kvs \<Longrightarrow> \<exists>v. item kvs k = Inr v"
  by (auto simp: item_Inr) (metis map_of_eq_None_iff not_None_eq fst_conv image_eqI)

section \<open>Text helpers\<close>

text \<open>Decimal rendering (\<open>str(n)\<close>, \<open>f"{n}"\<close>) and \<open>str.strip\<close> on the characters of the model.\<close>

definition digit_char :: "nat \<Rightarrow> char" where
  "digit_char d = char_of (48 + d)"

fun str_nat :: "nat \<Rightarrow> string" where
  "str_nat n = (if n < 10 then [digit_char n] else str_nat (n div 10) @ [digit_char (n mod 10)])"

declare str_nat.simps [simp del]

definition str_int :: "int \<Rightarrow> string" where
  "str_int n = (if n < 0 then CHR ''-'' # str_nat (nat (- n)) else str_nat (nat n))"

definition py_isspace :: "char \<Rightarrow> bool" where
  "py_isspace c \<longleftrightarrow> of_char c \<in> {9, 10, 11, 12, 13, 28, 29, 30, 31, 32, 133, 160 :: nat}"

definition py_strip :: "string \<Rightarrow> string" where
  "py_strip s = rev (dropWhile py_isspace (rev (dropWhile py_isspace s)))"

fun split_on :: "char \<Rightarrow> string \<Rightarrow> string list" where
  "split_on c [] = [[]]"
| "split_on c (x # xs) = (if x = c then [] # split_on c xs
     else case split_on c xs of [] \<Rightarrow> [[x]] | y # ys \<Rightarrow> (x # y) # ys)"

fun prefix_of :: "string \<Rightarrow> string \<Rightarrow> bool" where
  "prefix_of [] s = True"
| "prefix_of (p # ps) [] = False"
| "prefix_of (p # ps) (c # cs) \<longleftrightarrow> p = c \<and> prefix_of ps cs"

definition suffix_of :: "string \<Rightarrow> string \<Rightarrow> bool" where
  "suffix_of p s = prefix_of (rev p) (rev s)"

text \<open>
  \<open>PurePosixPath\<close>: the root (two leading slashes are kept, more count as one), the components below it,
  without empty ones and single dots, and the text of the path.
\<close>

definition posix_root :: "string \<Rightarrow> string" where
  "posix_root s = (if \<not> prefix_of ''/'' s then []
     else if prefix_of ''//'' s \<and> \<not> prefix_of ''///'' s then ''//'' else ''/'')"

definition posix_parts :: "string \<Rightarrow> string list" where
  "posix_parts s = filter (\<lambda>p. p \<noteq> [] \<and> p \<noteq> ''.'') (split_on (CHR ''/'') s)"

definition posix_text :: "string \<Rightarrow> string" where
  "posix_text s = (if posix_root s = [] \<and> posix_parts s = [] then ''.''
     else posix_root s @ join ''/'' (posix_parts s))"

text \<open>\<open>enumerate(xs)\<close> in a loop that collects results.\<close>

definition mapM_index :: "(nat \<Rightarrow> 'a \<Rightarrow> 'e + 'b) \<Rightarrow> 'a list \<Rightarrow> 'e + 'b list" where
  "mapM_index f xs = mapM (\<lambda>(i, x). f i x) (enumerate 0 xs)"

lemma mapM_index_Inr [result_simps]:
  "mapM_index f xs = Inr ys \<longleftrightarrow> length ys = length xs \<and> (\<forall>i < length xs. f i (xs ! i) = Inr (ys ! i))"
  by (auto simp: mapM_index_def mapM_Inr_iff list_all2_conv_all_nth nth_enumerate_eq)

section \<open>Decoded values in checks\<close>

fun is_bool :: "json \<Rightarrow> bool" where
  "is_bool (JBool _) = True"
| "is_bool _ = False"

text \<open>\<open>value in {...}\<close> for a set of strings: a list or a dictionary is not hashable.\<close>

fun in_strings :: "json \<Rightarrow> string list \<Rightarrow> model_error + bool" where
  "in_strings (JStr s) allowed = Inr (s \<in> set allowed)"
| "in_strings (JArr _) allowed = Inl TypeError"
| "in_strings (JObj _) allowed = Inl TypeError"
| "in_strings _ allowed = Inr False"

lemma in_strings_True: "in_strings v allowed = Inr True \<longleftrightarrow> (\<exists>s. v = JStr s \<and> s \<in> set allowed)"
  by (cases v) auto

text \<open>An \<open>int\<close> that is no \<open>bool\<close>, between two bounds.\<close>

definition bounded_int :: "json \<Rightarrow> int \<Rightarrow> int \<Rightarrow> bool" where
  "bounded_int v lo hi = (case v of JInt n \<Rightarrow> lo \<le> n \<and> n \<le> hi | _ \<Rightarrow> False)"

lemma bounded_int_iff: "bounded_int v lo hi \<longleftrightarrow> (\<exists>n. v = JInt n \<and> lo \<le> n \<and> n \<le> hi)"
  by (cases v) (auto simp: bounded_int_def)

text \<open>\<open>value.get(key)\<close> on a dictionary.\<close>

definition get_item :: "(string \<times> json) list \<Rightarrow> string \<Rightarrow> json" where
  "get_item kvs k = (case map_of kvs k of None \<Rightarrow> JNull | Some v \<Rightarrow> v)"

text \<open>\<open>if not isinstance(raw, dict): raise ModelError(message)\<close>, and the same for a nonempty list.\<close>

definition object_or :: "json \<Rightarrow> string \<Rightarrow> model_error + (string \<times> json) list" where
  "object_or v message = (case v of JObj kvs \<Rightarrow> Inr kvs | _ \<Rightarrow> Inl (ModelError message))"

definition nonempty_list_or :: "json \<Rightarrow> string \<Rightarrow> model_error + json list" where
  "nonempty_list_or v message = (case v of JArr (x # xs) \<Rightarrow> Inr (x # xs) | _ \<Rightarrow> Inl (ModelError message))"

text \<open>
  \<open>f"{value.get(key, index)}"\<close> in a label; \<open>render\<close> is \<open>str\<close> of a decoded value that is no string.
\<close>

definition label_value :: "(json \<Rightarrow> string) \<Rightarrow> (string \<times> json) list \<Rightarrow> string \<Rightarrow> nat \<Rightarrow> string" where
  "label_value render kvs key index =
     (case map_of kvs key of None \<Rightarrow> str_nat index | Some (JStr s) \<Rightarrow> s | Some v \<Rightarrow> render v)"

text \<open>\<open>for x in value\<close>: the items of a list, the keys of a dictionary, the characters of a string.\<close>

fun py_iterate :: "json \<Rightarrow> model_error + json list" where
  "py_iterate (JArr xs) = Inr xs"
| "py_iterate (JObj kvs) = Inr (map (\<lambda>kv. JStr (fst kv)) kvs)"
| "py_iterate (JStr s) = Inr (map (\<lambda>c. JStr [c]) s)"
| "py_iterate _ = Inl TypeError"

text \<open>\<open>value[key]\<close> for a string key: only a dictionary has one.\<close>

fun subscript :: "json \<Rightarrow> string \<Rightarrow> model_error + json" where
  "subscript (JObj kvs) k = item kvs k"
| "subscript _ k = Inl TypeError"

text \<open>\<open>if missing: raise ...; if extra: raise ...\<close>, the form of the key check most modules have.\<close>

definition require_exact_keys :: "(string \<times> json) list \<Rightarrow> string list \<Rightarrow> string \<Rightarrow> model_error + unit" where
  "require_exact_keys kvs expected label =
     (let missing = missing_keys kvs expected; extra = unknown_keys kvs expected
      in if missing \<noteq> [] then Inl (ModelError (label @ '': missing fields '' @ join '', '' missing))
         else if extra \<noteq> [] then Inl (ModelError (label @ '': unknown fields '' @ join '', '' extra))
         else Inr ())"

text \<open>A character of \<open>[a-z]\<close>, \<open>[A-Z]\<close> and \<open>[0-9]\<close>.\<close>

definition is_lower :: "char \<Rightarrow> bool" where
  "is_lower c \<longleftrightarrow> CHR ''a'' \<le> c \<and> c \<le> CHR ''z''"

definition is_upper :: "char \<Rightarrow> bool" where
  "is_upper c \<longleftrightarrow> CHR ''A'' \<le> c \<and> c \<le> CHR ''Z''"

definition is_digit :: "char \<Rightarrow> bool" where
  "is_digit c \<longleftrightarrow> CHR ''0'' \<le> c \<and> c \<le> CHR ''9''"

text \<open>\<open>re.fullmatch\<close> of one character of a class followed by any number of another.\<close>

definition word_of :: "(char \<Rightarrow> bool) \<Rightarrow> (char \<Rightarrow> bool) \<Rightarrow> string \<Rightarrow> bool" where
  "word_of first rest s = (case s of [] \<Rightarrow> False | c # cs \<Rightarrow> first c \<and> list_all rest cs)"

text \<open>Python's \<open>==\<close> on decoded values.\<close>

fun numeric_value :: "json \<Rightarrow> rat option" where
  "numeric_value (JInt n) = Some (of_int n)"
| "numeric_value (JBool b) = Some (if b then 1 else 0)"
| "numeric_value (JFloat q) = Some q"
| "numeric_value _ = None"

fun py_eq :: "json \<Rightarrow> json \<Rightarrow> bool" where
  "py_eq (JStr s) v = (case v of JStr t \<Rightarrow> s = t | _ \<Rightarrow> False)"
| "py_eq JNull v = (v = JNull)"
| "py_eq (JArr xs) v = (case v of JArr ys \<Rightarrow> list_all2 py_eq xs ys | _ \<Rightarrow> False)"
| "py_eq (JObj kvs) v = (case v of
     JObj others \<Rightarrow> set (map fst kvs) = set (map fst others) \<and>
       list_all (\<lambda>(k, x). case map_of others k of Some y \<Rightarrow> py_eq x y | None \<Rightarrow> False) kvs
   | _ \<Rightarrow> False)"
| "py_eq v w = (numeric_value v = numeric_value w)"

end
