(* ===== verification/Formal_Model.thy ===== *)
theory Formal_Model
  imports Prelude
begin

text \<open>
  The executable state model and its breadth-first checker, \<open>src/tools/hfxdev/formal_model.py\<close>.

  \<open>successor_states\<close> is the transition function of the checker, \<open>invariant_failures\<close> the eight
  invariants it evaluates and \<open>run_formal_model\<close> the search.  The relation \<open>model_step\<close> has one rule
  per transition and \<open>successor_states\<close> enumerates exactly it.  The invariants are shown for every
  reachable state and every number of receiver generations (the checker explores two, up to depth
  ten), and the search is shown to return exactly when the bounded state space fits the bound and
  the transition catalog agrees, with the number of states within the depth as its count.

  Python integers are \<open>int\<close>, the retired mask included; \<open>1 << (g - 1)\<close> is \<open>push_bit (nat (g - 1)) 1\<close>,
  which is Python's shift for the generations that occur (they are positive where the code shifts).
\<close>

unbundle bit_operations_syntax

section \<open>State and transitions\<close>

definition NONTERMINAL :: "string set" where
  "NONTERMINAL = {''queued'', ''authorized'', ''reserved''}"

definition TERMINAL :: "string set" where
  "TERMINAL = {''success'', ''safe-failure'', ''uncertain''}"

definition OWNERS :: "string set" where
  "OWNERS = {''none'', ''application'', ''restoration''}"

definition PHASES :: "string set" where
  "PHASES = {''none''} \<union> NONTERMINAL \<union> TERMINAL"

record formal_model =
  maximum_depth :: int
  maximum_states :: int
  receiver_generations :: int
  invariant_ids :: "string list"
  required_transitions :: "string list"

record model_state =
  issued_generation :: int
  active_generation :: int
  retired_mask :: int
  qualified_flag :: bool
  lease_owner :: string
  lease_generation :: int
  transaction_phase :: string
  transaction_generation :: int
  hardware_attempts :: int
  stable_intent_generation :: int

definition initial_state :: model_state where
  "initial_state = \<lparr>issued_generation = 0, active_generation = 0, retired_mask = 0, qualified_flag = False,
     lease_owner = ''none'', lease_generation = 0, transaction_phase = ''none'',
     transaction_generation = 0, hardware_attempts = 0, stable_intent_generation = 0\<rparr>"

definition retired :: "model_state \<Rightarrow> int \<Rightarrow> bool" where
  "retired state generation \<longleftrightarrow>
     generation > 0 \<and> retired_mask state AND push_bit (nat (generation - 1)) 1 \<noteq> 0"

definition invalidate_nonterminal :: "model_state \<Rightarrow> model_state" where
  "invalidate_nonterminal state =
     (if transaction_phase state \<notin> NONTERMINAL then state
      else state\<lparr>transaction_phase := ''safe-failure'', hardware_attempts := 0\<rparr>)"

definition connect_generation :: "model_state \<Rightarrow> formal_model \<Rightarrow> model_state option" where
  "connect_generation state model =
     (if issued_generation state \<ge> receiver_generations model then None
      else
        let next_generation = issued_generation state + 1;
            mask = (if active_generation state \<noteq> 0
                    then retired_mask state OR push_bit (nat (active_generation state - 1)) 1
                    else retired_mask state);
            invalidated = invalidate_nonterminal state
        in Some (invalidated\<lparr>issued_generation := next_generation,
             active_generation := next_generation, retired_mask := mask, qualified_flag := False,
             lease_owner := ''none'', lease_generation := 0\<rparr>))"

definition disconnect_generation :: "model_state \<Rightarrow> model_state option" where
  "disconnect_generation state =
     (if active_generation state = 0 then None
      else
        let invalidated = invalidate_nonterminal state
        in Some (invalidated\<lparr>active_generation := 0,
             retired_mask := retired_mask invalidated OR push_bit (nat (active_generation state - 1)) 1,
             qualified_flag := False, lease_owner := ''none'', lease_generation := 0\<rparr>))"

definition successor_states :: "model_state \<Rightarrow> formal_model \<Rightarrow> (string \<times> model_state) list" where
  "successor_states state model =
     (case connect_generation state model of None \<Rightarrow> [] | Some s \<Rightarrow> [(''connect-generation'', s)]) @
     (case disconnect_generation state of None \<Rightarrow> [] | Some s \<Rightarrow> [(''disconnect-generation'', s)]) @
     (if active_generation state \<noteq> 0 \<and> \<not> qualified_flag state
      then [(''qualify-generation'', state\<lparr>qualified_flag := True\<rparr>)] else []) @
     (if active_generation state \<noteq> 0 \<and> qualified_flag state \<and> lease_owner state = ''none''
      then [(''acquire-application-lease'',
              state\<lparr>lease_owner := ''application'', lease_generation := active_generation state\<rparr>),
            (''acquire-restoration-lease'',
              state\<lparr>lease_owner := ''restoration'', lease_generation := active_generation state\<rparr>)]
      else []) @
     (if lease_owner state \<noteq> ''none'' \<and> transaction_phase state \<in> {''none''} \<union> TERMINAL
      then [(''release-lease'', state\<lparr>lease_owner := ''none'', lease_generation := 0\<rparr>)] else []) @
     (if active_generation state \<noteq> 0 \<and> qualified_flag state \<and> lease_owner state \<noteq> ''none''
         \<and> lease_generation state = active_generation state \<and> transaction_phase state = ''none''
      then [(''queue-transaction'',
              state\<lparr>transaction_phase := ''queued'',
                    transaction_generation := active_generation state, hardware_attempts := 0\<rparr>)]
      else []) @
     (if transaction_phase state = ''queued''
      then [(''authorize-transaction'', state\<lparr>transaction_phase := ''authorized''\<rparr>)] else []) @
     (if transaction_phase state = ''authorized''
      then [(''reserve-transport'', state\<lparr>transaction_phase := ''reserved''\<rparr>)] else []) @
     (if transaction_phase state = ''reserved''
      then [(''dispatch-success'', state\<lparr>transaction_phase := ''success'', hardware_attempts := 1\<rparr>),
            (''dispatch-safe-failure'',
              state\<lparr>transaction_phase := ''safe-failure'', hardware_attempts := 0\<rparr>),
            (''dispatch-uncertain'', state\<lparr>transaction_phase := ''uncertain'', hardware_attempts := 1\<rparr>)]
      else []) @
     (if transaction_phase state = ''success''
         \<and> stable_intent_generation state \<noteq> transaction_generation state
      then [(''capture-stable-intent'',
              state\<lparr>stable_intent_generation := transaction_generation state\<rparr>)] else []) @
     (if transaction_phase state \<in> {''success'', ''safe-failure''}
      then [(''clear-safe-terminal'',
              state\<lparr>transaction_phase := ''none'', transaction_generation := 0,
                    hardware_attempts := 0\<rparr>)] else [])"

definition invariant_failures :: "model_state \<Rightarrow> string list" where
  "invariant_failures state =
     (if active_generation state < 0 \<or> active_generation state > issued_generation state
         \<or> retired state (active_generation state)
      then [''HFX-MODEL-001''] else []) @
     (if lease_owner state \<notin> OWNERS
         \<or> lease_owner state = ''none'' \<and> lease_generation state \<noteq> 0
         \<or> lease_owner state \<noteq> ''none''
           \<and> (lease_generation state \<noteq> active_generation state \<or> \<not> qualified_flag state
              \<or> active_generation state = 0)
      then [''HFX-MODEL-002''] else []) @
     (if transaction_phase state \<notin> PHASES
         \<or> transaction_phase state = ''none'' \<and> transaction_generation state \<noteq> 0
         \<or> transaction_phase state \<in> NONTERMINAL
           \<and> (transaction_generation state \<noteq> active_generation state
              \<or> lease_owner state = ''none''
              \<or> lease_generation state \<noteq> active_generation state
              \<or> \<not> qualified_flag state)
      then [''HFX-MODEL-003''] else []) @
     (if hardware_attempts state \<notin> {0, 1} then [''HFX-MODEL-004''] else []) @
     (if transaction_phase state = ''success'' \<and> hardware_attempts state \<noteq> 1
         \<or> transaction_phase state = ''safe-failure'' \<and> hardware_attempts state \<noteq> 0
      then [''HFX-MODEL-005''] else []) @
     (if transaction_phase state = ''uncertain'' \<and> hardware_attempts state \<noteq> 1
      then [''HFX-MODEL-006''] else []) @
     (if active_generation state \<noteq> 0 \<and> retired state (active_generation state)
      then [''HFX-MODEL-007''] else []) @
     (if stable_intent_generation state < 0
         \<or> stable_intent_generation state > issued_generation state
      then [''HFX-MODEL-008''] else [])"

section \<open>Loading the model's bounds and catalog\<close>

definition EXPECTED_INVARIANTS :: "string list" where
  "EXPECTED_INVARIANTS = [''HFX-MODEL-001'', ''HFX-MODEL-002'', ''HFX-MODEL-003'', ''HFX-MODEL-004'',
     ''HFX-MODEL-005'', ''HFX-MODEL-006'', ''HFX-MODEL-007'', ''HFX-MODEL-008'']"

definition has_keys :: "(string \<times> json) list \<Rightarrow> string list \<Rightarrow> bool" where
  "has_keys kvs ks \<longleftrightarrow> set (obj_keys kvs) = set ks"

definition formal_invariant_id :: "nat \<times> json \<Rightarrow> model_error + string" where
  "formal_invariant_id entry =
     (let label = ''formal model invariant '' @ str_nat (fst entry)
      in case snd entry of
        JObj kvs \<Rightarrow>
          if \<not> has_keys kvs [''id'', ''statement''] then Inl (ModelError (label @ '': malformed''))
          else (case (map_of kvs ''id'', map_of kvs ''statement'') of
             (Some (JStr i), Some (JStr statement)) \<Rightarrow>
               if py_strip statement = [] then Inl (ModelError (label @ '': invalid identity or statement''))
               else Inr i
           | _ \<Rightarrow> Inl (ModelError (label @ '': invalid identity or statement'')))
      | _ \<Rightarrow> Inl (ModelError (label @ '': malformed'')))"

definition load_formal_model :: "(string \<Rightarrow> json option) \<Rightarrow> model_error + formal_model" where
  "load_formal_model files =
     rbind (load_json files ''assurance/formal-model.json'') (\<lambda>value.
     rbind (rguard (has_keys value [''$schema'', ''schema'', ''bounds'', ''invariants'', ''required_transitions''])
       (ModelError ''formal model has missing or unknown top-level fields'')) (\<lambda>_.
     rbind (rguard (map_of value ''schema'' = Some (JStr ''hyperflux-formal-model-v1''))
       (ModelError ''unsupported formal-model schema'')) (\<lambda>_.
     rbind (case map_of value ''bounds'' of
         Some (JObj bounds) \<Rightarrow>
           if has_keys bounds [''maximum_depth'', ''maximum_states'', ''receiver_generations''] then Inr bounds
           else Inl (ModelError ''formal model bounds are malformed'')
       | _ \<Rightarrow> Inl (ModelError ''formal model bounds are malformed'')) (\<lambda>bounds.
     rbind (case (map_of bounds ''maximum_depth'', map_of bounds ''maximum_states'',
                  map_of bounds ''receiver_generations'') of
         (Some (JInt depth), Some (JInt state_bound), Some generations) \<Rightarrow>
           if 1 \<le> depth \<and> depth \<le> 32 \<and> 1 \<le> state_bound \<and> state_bound \<le> 1000000
              \<and> json_eq_int generations 2
           then Inr (depth, state_bound)
           else Inl (ModelError ''formal model bounds exceed the reviewed state space'')
       | _ \<Rightarrow> Inl (ModelError ''formal model bounds exceed the reviewed state space'')) (\<lambda>(depth, state_bound).
     rbind (case map_of value ''invariants'' of
         Some (JArr xs) \<Rightarrow> if xs = [] then Inl (ModelError ''formal model must declare invariants'') else Inr xs
       | _ \<Rightarrow> Inl (ModelError ''formal model must declare invariants'')) (\<lambda>invariants.
     rbind (mapM formal_invariant_id (List.enumerate 0 invariants)) (\<lambda>ids.
     rbind (require_unique ids ''formal model invariant id'') (\<lambda>_.
     rbind (rguard (set ids = set EXPECTED_INVARIANTS)
       (ModelError ''formal model invariant catalog differs from the executable checker'')) (\<lambda>_.
     rbind (case map_of value ''required_transitions'' of
         Some (JArr xs) \<Rightarrow> (case json_strs xs of
             Some (t # ts) \<Rightarrow> Inr (t # ts)
           | _ \<Rightarrow> Inl (ModelError ''formal model required transitions must be a non-empty string array''))
       | _ \<Rightarrow> Inl (ModelError ''formal model required transitions must be a non-empty string array''))
       (\<lambda>required.
     rbind (require_unique required ''formal model required transition'') (\<lambda>_.
     Inr \<lparr>maximum_depth = depth, maximum_states = state_bound, receiver_generations = 2,
          invariant_ids = ids, required_transitions = required\<rparr>)))))))))))"

section \<open>The search\<close>

datatype check_error =
    InvariantFailureAt "string list" int model_state
  | StableIntentFailureAfter string model_state
  | InvariantFailureAfter string "string list" model_state
  | StateBoundExceeded int
  | TransitionCatalogDiffers "string list" "string list"

record search =
  queue :: "(model_state \<times> int) list"
  seen :: "model_state list"
  observed_transitions :: "string list"
  transition_count :: int
  maximum_depth_reached :: int

record model_result =
  states :: int
  transitions :: int
  result_maximum_depth :: int
  transition_names :: "string list"

text \<open>One round of the inner loop: the successor \<open>snd ts\<close> of \<open>state\<close> at \<open>depth\<close>.\<close>

definition visit_successor ::
  "formal_model \<Rightarrow> model_state \<Rightarrow> int \<Rightarrow> search \<Rightarrow> string \<times> model_state \<Rightarrow> check_error + search" where
  "visit_successor model state depth acc ts =
     (let transition = fst ts; successor = snd ts;
          acc1 = acc\<lparr>observed_transitions := List.insert transition (observed_transitions acc),
                     transition_count := transition_count acc + 1\<rparr>
      in if stable_intent_generation successor \<noteq> stable_intent_generation state
            \<and> \<not> (transition = ''capture-stable-intent'' \<and> transaction_phase state = ''success''
                 \<and> stable_intent_generation successor = transaction_generation state)
         then Inl (StableIntentFailureAfter transition successor)
         else if invariant_failures successor \<noteq> []
         then Inl (InvariantFailureAfter transition (invariant_failures successor) successor)
         else if successor \<in> set (seen acc1) then Inr acc1
         else
           let acc2 = acc1\<lparr>seen := seen acc1 @ [successor]\<rparr>
           in if int (length (seen acc2)) > maximum_states model
              then Inl (StateBoundExceeded (maximum_states model))
              else Inr (acc2\<lparr>queue := queue acc2 @ [(successor, depth + 1)]\<rparr>))"

lemma visit_successor_grows:
  assumes "visit_successor m s d acc ts = Inr acc'"
  shows "seen acc' = seen acc \<and> queue acc' = queue acc
    \<or> (snd ts \<notin> set (seen acc) \<and> seen acc' = seen acc @ [snd ts]
       \<and> queue acc' = queue acc @ [(snd ts, d + 1)] \<and> int (length (seen acc')) \<le> maximum_states m)"
  using assms by (auto simp: visit_successor_def Let_def split: if_splits)

lemma visit_all_measure:
  assumes "foldM (visit_successor m s d) acc ts = Inr acc'"
  shows "(nat (maximum_states m) - length (seen acc')) + length (queue acc')
    \<le> (nat (maximum_states m) - length (seen acc)) + length (queue acc)"
proof (rule foldM_invariant [OF assms, where P = "\<lambda>a.
    (nat (maximum_states m) - length (seen a)) + length (queue a)
      \<le> (nat (maximum_states m) - length (seen acc)) + length (queue acc)"])
  fix a x b
  assume "(nat (maximum_states m) - length (seen a)) + length (queue a)
      \<le> (nat (maximum_states m) - length (seen acc)) + length (queue acc)"
    and "visit_successor m s d a x = Inr b"
  then show "(nat (maximum_states m) - length (seen b)) + length (queue b)
      \<le> (nat (maximum_states m) - length (seen acc)) + length (queue acc)"
    using visit_successor_grows [of m s d a x b] by auto
qed simp

function search_loop :: "formal_model \<Rightarrow> search \<Rightarrow> check_error + search" where
  "search_loop model acc =
     (case queue acc of
        [] \<Rightarrow> Inr acc
      | (state, depth) # rest \<Rightarrow>
          if invariant_failures state \<noteq> []
          then Inl (InvariantFailureAt (invariant_failures state) depth state)
          else
            let acc1 = acc\<lparr>queue := rest,
                           maximum_depth_reached := max (maximum_depth_reached acc) depth\<rparr>
            in if depth = maximum_depth model then search_loop model acc1
               else rbind (foldM (visit_successor model state depth) acc1 (successor_states state model))
                      (\<lambda>acc2. search_loop model acc2))"
  by pat_completeness auto
termination
  by (relation "measure (\<lambda>(m, acc). (nat (maximum_states m) - length (seen acc)) + length (queue acc))")
     (auto dest!: visit_all_measure)

declare search_loop.simps [simp del]

definition initial_search :: search where
  "initial_search = \<lparr>queue = [(initial_state, 0)], seen = [initial_state], observed_transitions = [],
     transition_count = 0, maximum_depth_reached = 0\<rparr>"

definition run_formal_model :: "formal_model \<Rightarrow> check_error + model_result" where
  "run_formal_model model =
     rbind (search_loop model initial_search) (\<lambda>acc.
       let observed = observed_transitions acc;
           missing = py_sorted (filter (\<lambda>t. t \<notin> set observed) (remdups (required_transitions model)));
           unknown = py_sorted (filter (\<lambda>t. t \<notin> set (required_transitions model)) observed)
       in if missing \<noteq> [] \<or> unknown \<noteq> [] then Inl (TransitionCatalogDiffers missing unknown)
          else Inr \<lparr>states = int (length (seen acc)), transitions = transition_count acc,
                    result_maximum_depth = maximum_depth_reached acc,
                    transition_names = py_sorted observed\<rparr>)"

section \<open>The transition relation\<close>

inductive model_step :: "formal_model \<Rightarrow> model_state \<Rightarrow> string \<Rightarrow> model_state \<Rightarrow> bool" for m where
  connect: "connect_generation s m = Some s' \<Longrightarrow> model_step m s ''connect-generation'' s'"
| disconnect: "disconnect_generation s = Some s' \<Longrightarrow> model_step m s ''disconnect-generation'' s'"
| qualify: "active_generation s \<noteq> 0 \<Longrightarrow> \<not> qualified_flag s
     \<Longrightarrow> model_step m s ''qualify-generation'' (s\<lparr>qualified_flag := True\<rparr>)"
| acquire_application: "active_generation s \<noteq> 0 \<Longrightarrow> qualified_flag s \<Longrightarrow> lease_owner s = ''none''
     \<Longrightarrow> model_step m s ''acquire-application-lease''
          (s\<lparr>lease_owner := ''application'', lease_generation := active_generation s\<rparr>)"
| acquire_restoration: "active_generation s \<noteq> 0 \<Longrightarrow> qualified_flag s \<Longrightarrow> lease_owner s = ''none''
     \<Longrightarrow> model_step m s ''acquire-restoration-lease''
          (s\<lparr>lease_owner := ''restoration'', lease_generation := active_generation s\<rparr>)"
| release: "lease_owner s \<noteq> ''none'' \<Longrightarrow> transaction_phase s \<in> {''none''} \<union> TERMINAL
     \<Longrightarrow> model_step m s ''release-lease'' (s\<lparr>lease_owner := ''none'', lease_generation := 0\<rparr>)"
| queue_transaction: "active_generation s \<noteq> 0 \<Longrightarrow> qualified_flag s \<Longrightarrow> lease_owner s \<noteq> ''none''
     \<Longrightarrow> lease_generation s = active_generation s \<Longrightarrow> transaction_phase s = ''none''
     \<Longrightarrow> model_step m s ''queue-transaction'' (s\<lparr>transaction_phase := ''queued'',
           transaction_generation := active_generation s, hardware_attempts := 0\<rparr>)"
| authorize: "transaction_phase s = ''queued''
     \<Longrightarrow> model_step m s ''authorize-transaction'' (s\<lparr>transaction_phase := ''authorized''\<rparr>)"
| reserve: "transaction_phase s = ''authorized''
     \<Longrightarrow> model_step m s ''reserve-transport'' (s\<lparr>transaction_phase := ''reserved''\<rparr>)"
| dispatch_success: "transaction_phase s = ''reserved''
     \<Longrightarrow> model_step m s ''dispatch-success'' (s\<lparr>transaction_phase := ''success'', hardware_attempts := 1\<rparr>)"
| dispatch_safe_failure: "transaction_phase s = ''reserved''
     \<Longrightarrow> model_step m s ''dispatch-safe-failure''
          (s\<lparr>transaction_phase := ''safe-failure'', hardware_attempts := 0\<rparr>)"
| dispatch_uncertain: "transaction_phase s = ''reserved''
     \<Longrightarrow> model_step m s ''dispatch-uncertain'' (s\<lparr>transaction_phase := ''uncertain'', hardware_attempts := 1\<rparr>)"
| capture: "transaction_phase s = ''success''
     \<Longrightarrow> stable_intent_generation s \<noteq> transaction_generation s
     \<Longrightarrow> model_step m s ''capture-stable-intent''
          (s\<lparr>stable_intent_generation := transaction_generation s\<rparr>)"
| clear: "transaction_phase s \<in> {''success'', ''safe-failure''}
     \<Longrightarrow> model_step m s ''clear-safe-terminal''
          (s\<lparr>transaction_phase := ''none'', transaction_generation := 0, hardware_attempts := 0\<rparr>)"

lemma successor_states_iff_step:
  "(t, s') \<in> set (successor_states s m) \<longleftrightarrow> model_step m s t s'"
proof
  assume "(t, s') \<in> set (successor_states s m)"
  then show "model_step m s t s'"
    unfolding successor_states_def set_append Un_iff
    by (elim disjE) (auto intro: model_step.intros split: option.splits if_splits)
next
  assume "model_step m s t s'"
  then show "(t, s') \<in> set (successor_states s m)"
    by cases (simp_all add: successor_states_def)
qed

inductive reach_in :: "formal_model \<Rightarrow> nat \<Rightarrow> model_state \<Rightarrow> bool" for m where
  start: "reach_in m 0 initial_state"
| step: "reach_in m k s \<Longrightarrow> model_step m s t s' \<Longrightarrow> reach_in m (Suc k) s'"

inductive path :: "formal_model \<Rightarrow> string list \<Rightarrow> model_state \<Rightarrow> bool" for m where
  path_start: "path m [] initial_state"
| path_step: "path m tr s \<Longrightarrow> model_step m s t s' \<Longrightarrow> path m (tr @ [t]) s'"

section \<open>The strengthened invariant\<close>

text \<open>
  What the transitions keep, in three parts.  Beside the eight checked invariants: the generations
  issued so far bound the retired bits and the transaction's generation.
\<close>

definition generation_inv :: "model_state \<Rightarrow> bool" where
  "generation_inv s \<longleftrightarrow>
     0 \<le> active_generation s \<and> active_generation s \<le> issued_generation s
     \<and> 0 \<le> transaction_generation s \<and> transaction_generation s \<le> issued_generation s
     \<and> 0 \<le> stable_intent_generation s \<and> stable_intent_generation s \<le> issued_generation s
     \<and> (\<forall>i. bit (retired_mask s) i \<longrightarrow> int i < issued_generation s)
     \<and> (active_generation s > 0 \<longrightarrow> \<not> bit (retired_mask s) (nat (active_generation s - 1)))"

definition lease_inv :: "model_state \<Rightarrow> bool" where
  "lease_inv s \<longleftrightarrow>
     lease_owner s = ''none'' \<and> lease_generation s = 0
     \<or> lease_owner s \<in> {''application'', ''restoration''} \<and> lease_generation s = active_generation s
       \<and> qualified_flag s \<and> active_generation s \<noteq> 0"

definition transaction_inv :: "model_state \<Rightarrow> bool" where
  "transaction_inv s \<longleftrightarrow>
     transaction_phase s = ''none'' \<and> transaction_generation s = 0 \<and> hardware_attempts s = 0
     \<or> transaction_phase s \<in> NONTERMINAL \<and> transaction_generation s = active_generation s
       \<and> lease_owner s \<noteq> ''none'' \<and> hardware_attempts s = 0
     \<or> transaction_phase s = ''success'' \<and> hardware_attempts s = 1
     \<or> transaction_phase s = ''safe-failure'' \<and> hardware_attempts s = 0
     \<or> transaction_phase s = ''uncertain'' \<and> hardware_attempts s = 1"

lemmas phase_sets = NONTERMINAL_def TERMINAL_def OWNERS_def PHASES_def

lemmas reconnect_defs = connect_generation_def disconnect_generation_def
  invalidate_nonterminal_def Let_def

lemma retired_iff_bit: "retired s g \<longleftrightarrow> g > 0 \<and> bit (retired_mask s) (nat (g - 1))"
  by (auto simp: retired_def bit_iff_and_push_bit_not_eq_0)

lemma bit_set_generation:
  "bit ((k :: int) OR 2 ^ n) i \<longleftrightarrow> bit k i \<or> i = n"
  by (auto simp: bit_or_iff bit_exp_iff)

lemma inv_no_failures:
  assumes "generation_inv s" and "lease_inv s" and "transaction_inv s"
  shows "invariant_failures s = []"
proof -
  have "\<not> retired s (active_generation s)"
    using assms(1) by (auto simp: generation_inv_def retired_iff_bit)
  moreover have "0 \<le> active_generation s" "active_generation s \<le> issued_generation s"
      "0 \<le> stable_intent_generation s" "stable_intent_generation s \<le> issued_generation s"
    using assms(1) by (auto simp: generation_inv_def)
  ultimately show ?thesis
    using assms(2,3) unfolding invariant_failures_def lease_inv_def transaction_inv_def
    by (elim disjE conjE) (simp_all add: phase_sets, auto)
qed

lemma inv_initial:
  "generation_inv initial_state \<and> lease_inv initial_state \<and> transaction_inv initial_state"
  by (simp add: generation_inv_def lease_inv_def transaction_inv_def initial_state_def)

lemma generation_inv_connect:
  assumes "generation_inv s" and "connect_generation s m = Some s'"
  shows "generation_inv s'"
proof -
  have bound: "int i < issued_generation s" if "bit (retired_mask s) i" for i
    using assms(1) that by (simp add: generation_inv_def)
  then have "\<not> bit (retired_mask s) (nat (issued_generation s))"
    using bound [of "nat (issued_generation s)"] by (auto split: if_splits)
  moreover have "int i < issued_generation s + 1" if "bit (retired_mask s) i" for i
    using bound [OF that] by simp
  ultimately show ?thesis
    using assms by (auto simp: reconnect_defs generation_inv_def bit_set_generation split: if_splits)
qed

lemma generation_inv_disconnect:
  "generation_inv s \<Longrightarrow> disconnect_generation s = Some s' \<Longrightarrow> generation_inv s'"
  by (auto simp: reconnect_defs generation_inv_def bit_set_generation split: if_splits)

lemma generation_inv_step:
  assumes "model_step m s t s'" and "generation_inv s"
  shows "generation_inv s'"
  using assms(1)
proof cases
  case connect
  with assms(2) show ?thesis by (blast intro: generation_inv_connect)
next
  case disconnect
  with assms(2) show ?thesis by (blast intro: generation_inv_disconnect)
qed (use assms(2) in \<open>simp_all add: generation_inv_def\<close>)

lemma lease_inv_step:
  assumes "model_step m s t s'" and "lease_inv s"
  shows "lease_inv s'"
  using assms by cases (auto simp: lease_inv_def reconnect_defs split: if_splits)

lemma transaction_inv_invalidate:
  assumes "transaction_inv s"
  shows "transaction_inv (invalidate_nonterminal s)"
    and "transaction_phase (invalidate_nonterminal s) \<notin> NONTERMINAL"
  using assms by (auto simp: transaction_inv_def invalidate_nonterminal_def phase_sets)

lemma transaction_inv_settled:
  assumes "transaction_inv s" and "transaction_phase s \<notin> NONTERMINAL"
    and "transaction_phase s' = transaction_phase s"
    and "transaction_generation s' = transaction_generation s"
    and "hardware_attempts s' = hardware_attempts s"
  shows "transaction_inv s'"
  using assms by (simp add: transaction_inv_def)

lemma transaction_inv_connect:
  assumes "transaction_inv s" and "connect_generation s m = Some s'"
  shows "transaction_inv s'"
  by (rule transaction_inv_settled [OF transaction_inv_invalidate [OF assms(1)]])
     (use assms(2) in \<open>simp_all add: connect_generation_def Let_def split: if_split_asm, auto\<close>)

lemma transaction_inv_disconnect:
  assumes "transaction_inv s" and "disconnect_generation s = Some s'"
  shows "transaction_inv s'"
  by (rule transaction_inv_settled [OF transaction_inv_invalidate [OF assms(1)]])
     (use assms(2) in \<open>simp_all add: disconnect_generation_def Let_def split: if_split_asm, auto\<close>)

lemma transaction_inv_step:
  assumes "model_step m s t s'" and "transaction_inv s"
  shows "transaction_inv s'"
  using assms(1)
proof cases
  case connect
  with assms(2) show ?thesis by (blast intro: transaction_inv_connect)
next
  case disconnect
  with assms(2) show ?thesis by (blast intro: transaction_inv_disconnect)
qed (use assms(2) in \<open>auto simp: transaction_inv_def phase_sets\<close>)

lemma reach_in_inv:
  "reach_in m k s \<Longrightarrow> generation_inv s \<and> lease_inv s \<and> transaction_inv s"
  by (induction rule: reach_in.induct)
     (auto intro: generation_inv_step lease_inv_step transaction_inv_step simp: inv_initial)

lemma reach_in_no_failures: "reach_in m k s \<Longrightarrow> invariant_failures s = []"
  by (simp add: reach_in_inv inv_no_failures)

section \<open>The search explores exactly the states within the depth\<close>

definition within_depth :: "formal_model \<Rightarrow> model_state set" where
  "within_depth m = {s. \<exists>k. int k \<le> maximum_depth m \<and> reach_in m k s}"

definition fired :: "formal_model \<Rightarrow> string set" where
  "fired m = {t. \<exists>k s s'. int k < maximum_depth m \<and> reach_in m k s \<and> model_step m s t s'}"

inductive_cases reach_in_0E: "reach_in m 0 s"
inductive_cases reach_in_SucE: "reach_in m (Suc k) s"

lemma finite_reach_in: "finite {s. reach_in m k s}"
proof (induction k)
  case 0
  have "{s. reach_in m 0 s} \<subseteq> {initial_state}" by (auto elim: reach_in_0E)
  then show ?case by (rule finite_subset) simp
next
  case (Suc k)
  have "{s. reach_in m (Suc k) s} \<subseteq> (\<Union>s \<in> {s. reach_in m k s}. snd ` set (successor_states s m))"
    by (force elim: reach_in_SucE simp: successor_states_iff_step [symmetric])
  then show ?case by (rule finite_subset) (simp add: Suc)
qed

lemma finite_within_depth: "finite (within_depth m)"
proof -
  have "within_depth m \<subseteq> (\<Union>k \<in> {..nat (maximum_depth m)}. {s. reach_in m k s})"
    by (auto simp: within_depth_def) (metis atMost_iff nat_int nat_mono)
  then show ?thesis by (rule finite_subset) (simp add: finite_reach_in)
qed

definition all_steps :: "formal_model \<Rightarrow> model_state \<Rightarrow> (string \<times> model_state) set" where
  "all_steps m s = {(t, s'). model_step m s t s'}"

text \<open>
  The loop invariant.  \<open>lab\<close> is the depth at which a state was enqueued, \<open>lo\<close> a lower bound of the
  depths still queued, and \<open>E s\<close> the transitions of a dequeued state that have been looked at.
\<close>

definition search_inv ::
  "formal_model \<Rightarrow> (model_state \<Rightarrow> (string \<times> model_state) set) \<Rightarrow> int \<Rightarrow> search
    \<Rightarrow> (model_state \<Rightarrow> nat) \<Rightarrow> bool" where
  "search_inv m E lo acc lab \<longleftrightarrow>
     distinct (seen acc) \<and> initial_state \<in> set (seen acc) \<and> lab initial_state = 0
     \<and> (\<forall>s \<in> set (seen acc). reach_in m (lab s) s \<and> int (lab s) \<le> maximum_depth m
          \<and> int (lab s) \<le> lo + 1)
     \<and> sorted (map snd (queue acc))
     \<and> (\<forall>(s, d) \<in> set (queue acc). s \<in> set (seen acc) \<and> d = int (lab s) \<and> lo \<le> d)
     \<and> (\<forall>s \<in> set (seen acc). s \<notin> fst ` set (queue acc) \<longrightarrow> int (lab s) < maximum_depth m \<longrightarrow>
          (\<forall>(t, s') \<in> E s. s' \<in> set (seen acc) \<and> lab s' \<le> lab s + 1
             \<and> t \<in> set (observed_transitions acc)))
     \<and> distinct (observed_transitions acc) \<and> set (observed_transitions acc) \<subseteq> fired m
     \<and> int (length (seen acc)) \<le> max 1 (maximum_states m)"

lemma visit_successor_ok:
  assumes "reach_in m k s" and "model_step m s t s'"
  shows "visit_successor m s d acc (t, s') =
    (let acc1 = acc\<lparr>observed_transitions := List.insert t (observed_transitions acc),
                    transition_count := transition_count acc + 1\<rparr>
     in if s' \<in> set (seen acc) then Inr acc1
        else if int (length (seen acc)) + 1 > maximum_states m
        then Inl (StateBoundExceeded (maximum_states m))
        else Inr (acc1\<lparr>seen := seen acc @ [s'], queue := queue acc @ [(s', d + 1)]\<rparr>))"
proof -
  have "stable_intent_generation s' = stable_intent_generation s \<or>
      t = ''capture-stable-intent'' \<and> transaction_phase s = ''success''
      \<and> stable_intent_generation s' = transaction_generation s"
    using assms(2) by cases (auto simp: reconnect_defs split: if_splits)
  moreover have "invariant_failures s' = []"
    using assms by (blast intro: reach_in_no_failures reach_in.step)
  ultimately show ?thesis
    by (auto simp: visit_successor_def Let_def)
qed

lemma search_inv_visit:
  assumes inv: "search_inv m E d acc lab" and st: "reach_in m (lab s) s" "d = int (lab s)"
    and lt: "d < maximum_depth m" and seen_s: "s \<in> set (seen acc)" and step: "model_step m s t s'"
    and visit: "visit_successor m s d acc (t, s') = Inr acc'"
  shows "\<exists>lab'. search_inv m (E(s := insert (t, s') (E s))) d acc' lab'
    \<and> (\<forall>u \<in> set (seen acc). lab' u = lab u) \<and> set (seen acc) \<subseteq> set (seen acc')"
proof (cases "s' \<in> set (seen acc)")
  case True
  then have acc': "acc' = acc\<lparr>observed_transitions := List.insert t (observed_transitions acc),
                    transition_count := transition_count acc + 1\<rparr>"
    using visit visit_successor_ok [OF st(1) step] by simp
  have "t \<in> fired m" using st lt step by (auto simp: fired_def)
  moreover have "int (lab s') \<le> d + 1" using inv True by (auto simp: search_inv_def)
  then have "lab s' \<le> lab s + 1" using st(2) by simp
  ultimately have "search_inv m (E(s := insert (t, s') (E s))) d acc' lab"
    using inv True unfolding search_inv_def acc' by (auto simp: List.insert_def) 
  then show ?thesis using acc' by auto
next
  case False
  then have len: "int (length (seen acc)) + 1 \<le> maximum_states m"
    and acc': "acc' = acc\<lparr>observed_transitions := List.insert t (observed_transitions acc),
        transition_count := transition_count acc + 1, seen := seen acc @ [s'],
        queue := queue acc @ [(s', d + 1)]\<rparr>"
    using visit visit_successor_ok [OF st(1) step] by (auto split: if_splits)
  define lab' where "lab' = lab(s' := Suc (lab s))"
  have ne: "u \<noteq> s'" if "u \<in> set (seen acc)" for u using that False by auto
  have old: "lab' u = lab u" if "u \<in> set (seen acc)" for u
    using ne [OF that] by (simp add: lab'_def)
  have new: "reach_in m (lab' s') s'" "int (lab' s') = d + 1"
    using reach_in.step [OF st(1) step] st(2) by (simp_all add: lab'_def)
  have fired: "t \<in> fired m" using st lt step by (auto simp: fired_def)
  have q: "snd x \<le> d + 1" if "x \<in> set (queue acc)" for x
    using inv that by (cases x) (fastforce simp: search_inv_def)
  have srt: "sorted (map snd (queue acc'))"
    using inv q by (auto simp: search_inv_def acc' sorted_append)
  have qinv: "\<forall>(u, e) \<in> set (queue acc'). u \<in> set (seen acc') \<and> e = int (lab' u) \<and> d \<le> e"
    using inv new old by (auto simp: search_inv_def acc' split: prod.splits)
  have closed: "\<forall>u \<in> set (seen acc'). u \<notin> fst ` set (queue acc') \<longrightarrow> int (lab' u) < maximum_depth m \<longrightarrow>
     (\<forall>(a, v) \<in> (E(s := insert (t, s') (E s))) u. v \<in> set (seen acc') \<and> lab' v \<le> lab' u + 1
        \<and> a \<in> set (observed_transitions acc'))"
    using inv new old st(2) seen_s by (auto simp: search_inv_def acc' split: prod.splits if_splits)
  have "search_inv m (E(s := insert (t, s') (E s))) d acc' lab'"
    unfolding search_inv_def
    using inv False new old fired len lt srt qinv closed
    by (auto simp: search_inv_def acc' lab'_def)
  then show ?thesis using old acc' by auto
qed

lemma search_inv_visit_all:
  assumes "search_inv m E d acc lab" and "reach_in m (lab s) s" "d = int (lab s)"
    and "d < maximum_depth m" and "s \<in> set (seen acc)" and "\<forall>(t, s') \<in> set ts. model_step m s t s'"
    and "foldM (visit_successor m s d) acc ts = Inr acc'"
  shows "\<exists>lab'. search_inv m (E(s := set ts \<union> E s)) d acc' lab'"
  using assms
proof (induction ts arbitrary: acc lab E)
  case Nil
  then show ?case by (auto simp: fun_upd_idem)
next
  case (Cons x ts)
  obtain t s' where x: "x = (t, s')" by (cases x)
  from Cons.prems(7) obtain acc1 where
    acc1: "visit_successor m s d acc (t, s') = Inr acc1" "foldM (visit_successor m s d) acc1 ts = Inr acc'"
    by (auto simp: rbind_Inr_iff x)
  from Cons.prems(6) have "model_step m s t s'" by (simp add: x)
  then obtain lab1 where lab1: "search_inv m (E(s := insert (t, s') (E s))) d acc1 lab1"
      "\<forall>u \<in> set (seen acc). lab1 u = lab u" "set (seen acc) \<subseteq> set (seen acc1)"
    using search_inv_visit [OF Cons.prems(1-5) _ acc1(1)] by blast
  have s1: "lab1 s = lab s" "s \<in> set (seen acc1)" using lab1 Cons.prems(5) by auto
  have "\<exists>lab'. search_inv m ((E(s := insert (t, s') (E s)))(s := set ts \<union> (E(s := insert (t, s') (E s))) s))
      d acc' lab'"
    using Cons.prems s1 by (intro Cons.IH [OF lab1(1) _ _ _ _ _ acc1(2)]) (simp_all add: x)
  moreover have "(E(s := insert (t, s') (E s)))(s := set ts \<union> (E(s := insert (t, s') (E s))) s)
      = E(s := set (x # ts) \<union> E s)"
    by (simp add: x)
  ultimately show ?case by (simp only:)
qed

lemma search_inv_seen_within: "search_inv m E lo acc lab \<Longrightarrow> set (seen acc) \<subseteq> within_depth m"
  by (auto simp: search_inv_def within_depth_def)

lemma visit_all_error:
  assumes "search_inv m E d acc lab" and "reach_in m (lab s) s" "d = int (lab s)"
    and "d < maximum_depth m" and "s \<in> set (seen acc)" and "\<forall>(t, s') \<in> set ts. model_step m s t s'"
    and "foldM (visit_successor m s d) acc ts = Inl e"
  shows "e = StateBoundExceeded (maximum_states m) \<and> int (card (within_depth m)) > maximum_states m"
  using assms
proof (induction ts arbitrary: acc lab E)
  case Nil
  then show ?case by simp
next
  case (Cons x ts)
  obtain t s' where x: "x = (t, s')" by (cases x)
  have step: "model_step m s t s'" using Cons.prems(6) by (simp add: x)
  show ?case
  proof (cases "visit_successor m s d acc (t, s')")
    case (Inl e')
    then have e': "e' = StateBoundExceeded (maximum_states m)" "s' \<notin> set (seen acc)"
        "int (length (seen acc)) + 1 > maximum_states m"
      using visit_successor_ok [OF Cons.prems(2) step] by (auto simp: Let_def split: if_splits)
    have "reach_in m (Suc (lab s)) s'" using reach_in.step [OF Cons.prems(2) step] .
    then have "s' \<in> within_depth m"
      using Cons.prems(3,4) by (auto simp: within_depth_def intro!: exI [of _ "Suc (lab s)"])
    then have "set (s' # seen acc) \<subseteq> within_depth m"
      using search_inv_seen_within [OF Cons.prems(1)] by simp
    then have "card (set (s' # seen acc)) \<le> card (within_depth m)"
      by (rule card_mono [OF finite_within_depth])
    moreover have "card (set (s' # seen acc)) = length (s' # seen acc)"
      using Cons.prems(1) e'(2) by (intro distinct_card) (simp add: search_inv_def)
    ultimately show ?thesis using e' Inl Cons.prems(7) by (simp add: x)
  next
    case (Inr acc1)
    then obtain lab1 where lab1: "search_inv m (E(s := insert (t, s') (E s))) d acc1 lab1"
        "\<forall>u \<in> set (seen acc). lab1 u = lab u" "set (seen acc) \<subseteq> set (seen acc1)"
      using search_inv_visit [OF Cons.prems(1-5) step Inr] by blast
    then have s1: "lab1 s = lab s" "s \<in> set (seen acc1)" using Cons.prems(5) by auto
    show ?thesis
      using Cons.prems s1 Inr by (intro Cons.IH [OF lab1(1)]) (simp_all add: x)
  qed
qed

lemma search_inv_pop:
  assumes inv: "search_inv m (all_steps m) lo acc lab" and q: "queue acc = (s, d) # rest"
  shows "d = int (lab s)" "s \<in> set (seen acc)" "reach_in m (lab s) s" "d \<le> maximum_depth m"
    and "search_inv m ((all_steps m)(s := {})) d (acc\<lparr>queue := rest, maximum_depth_reached := x\<rparr>) lab"
    and "d = maximum_depth m \<Longrightarrow>
      search_inv m (all_steps m) d (acc\<lparr>queue := rest, maximum_depth_reached := x\<rparr>) lab"
proof -
  show s: "d = int (lab s)" "s \<in> set (seen acc)" "reach_in m (lab s) s" "d \<le> maximum_depth m"
    using inv q by (auto simp: search_inv_def)
  have lo: "lo \<le> d" and rest: "sorted (map snd rest)" "\<forall>x \<in> set rest. d \<le> snd x"
    using inv q by (auto simp: search_inv_def)
  have labels: "\<forall>u \<in> set (seen acc). reach_in m (lab u) u \<and> int (lab u) \<le> maximum_depth m
      \<and> int (lab u) \<le> d + 1"
    using inv lo unfolding search_inv_def by (meson add_right_mono order_trans)
  have queued: "\<forall>(u, e) \<in> set rest. u \<in> set (seen acc) \<and> e = int (lab u) \<and> d \<le> e"
    using inv q rest(2) unfolding search_inv_def by fastforce
  have closed: "\<forall>(t, s') \<in> all_steps m u. s' \<in> set (seen acc) \<and> lab s' \<le> lab u + 1
      \<and> t \<in> set (observed_transitions acc)"
    if "u \<in> set (seen acc)" "u \<notin> fst ` set rest" "u \<noteq> s" "int (lab u) < maximum_depth m" for u
    using inv q that unfolding search_inv_def by simp
  show "search_inv m ((all_steps m)(s := {})) d (acc\<lparr>queue := rest, maximum_depth_reached := x\<rparr>) lab"
    using inv labels rest(1) queued closed unfolding search_inv_def by simp
  assume d: "d = maximum_depth m"
  then have "u \<noteq> s" if "int (lab u) < maximum_depth m" for u using that s(1) by auto
  then show "search_inv m (all_steps m) d (acc\<lparr>queue := rest, maximum_depth_reached := x\<rparr>) lab"
    using inv labels rest(1) queued closed unfolding search_inv_def by simp
qed

lemma search_loop_correct:
  assumes "search_inv m (all_steps m) lo acc lab"
  shows "case search_loop m acc of
      Inl e \<Rightarrow> e = StateBoundExceeded (maximum_states m) \<and> int (card (within_depth m)) > maximum_states m
    | Inr acc' \<Rightarrow> queue acc' = [] \<and> (\<exists>lo' lab'. search_inv m (all_steps m) lo' acc' lab')"
  using assms
proof (induction m acc arbitrary: lo lab rule: search_loop.induct)
  case (1 m acc)
  show ?case
  proof (cases "queue acc")
    case Nil
    then show ?thesis using "1.prems" by (auto simp: search_loop.simps [of m acc])
  next
    case (Cons p rest)
    obtain s d where p: "p = (s, d)" by (cases p)
    let ?acc1 = "acc\<lparr>queue := rest, maximum_depth_reached := max (maximum_depth_reached acc) d\<rparr>"
    note q = Cons [unfolded p]
    note pop = search_inv_pop [OF "1.prems" q]
    have nf: "invariant_failures s = []" using pop(3) by (rule reach_in_no_failures)
    show ?thesis
    proof (cases "d = maximum_depth m")
      case True
      then have "search_loop m acc = search_loop m ?acc1"
        using nf by (simp add: search_loop.simps [of m acc] q)
      then show ?thesis using "1.IH"(1) [OF q refl _ refl True pop(6) [OF True]] nf by simp
    next
      case False
      let ?fold = "foldM (visit_successor m s d) ?acc1 (successor_states s m)"
      have unf: "search_loop m acc = rbind ?fold (search_loop m)"
        using nf False by (simp add: search_loop.simps [of m acc] q)
      have steps: "\<forall>(t, s') \<in> set (successor_states s m). model_step m s t s'"
        by (auto simp: successor_states_iff_step)
      have side: "d < maximum_depth m" "s \<in> set (seen ?acc1)" using pop(2,4) False by auto
      show ?thesis
      proof (cases ?fold)
        case (Inl e)
        then show ?thesis
          using visit_all_error [OF pop(5) pop(3) pop(1) side steps Inl] unf by simp
      next
        case (Inr acc2)
        have "set (successor_states s m) = all_steps m s"
          by (auto simp: all_steps_def successor_states_iff_step)
        then obtain lab2 where "search_inv m (all_steps m) d acc2 lab2"
          using search_inv_visit_all [OF pop(5) pop(3) pop(1) side steps Inr] by auto
        then show ?thesis using "1.IH"(2) [OF q refl _ refl False Inr] nf unf Inr by simp
      qed
    qed
  qed
qed

lemma search_inv_final:
  assumes inv: "search_inv m (all_steps m) lo acc lab" and q: "queue acc = []"
  shows "set (seen acc) = within_depth m" and "set (observed_transitions acc) = fired m"
proof -
  have labelled: "s \<in> set (seen acc) \<and> lab s \<le> k" if "reach_in m k s" "int k \<le> maximum_depth m" for k s
    using that
  proof (induction k s rule: reach_in.induct)
    case start
    then show ?case using inv by (simp add: search_inv_def)
  next
    case (step k s t s')
    then have s: "s \<in> set (seen acc)" "lab s \<le> k" by auto
    with step.prems have "int (lab s) < maximum_depth m" by simp
    with inv q s step.hyps(2) have "s' \<in> set (seen acc)" "lab s' \<le> lab s + 1"
      by (auto simp: search_inv_def all_steps_def)
    with s(2) show ?case by simp
  qed
  show "set (seen acc) = within_depth m"
    using search_inv_seen_within [OF inv] labelled by (auto simp: within_depth_def)
  have "t \<in> set (observed_transitions acc)" if "t \<in> fired m" for t
  proof -
    from that obtain k s s' where k: "int k < maximum_depth m" "reach_in m k s" "model_step m s t s'"
      by (auto simp: fired_def)
    then have "s \<in> set (seen acc)" "lab s \<le> k" using labelled by auto
    moreover have "(t, s') \<in> all_steps m s" using k(3) by (simp add: all_steps_def)
    ultimately show ?thesis using inv q k(1) unfolding search_inv_def by fastforce
  qed
  then show "set (observed_transitions acc) = fired m"
    using inv by (auto simp: search_inv_def)
qed

lemma search_inv_start:
  "0 \<le> maximum_depth m \<Longrightarrow> search_inv m (all_steps m) 0 initial_search (\<lambda>_. 0)"
  by (auto simp: search_inv_def initial_search_def intro: reach_in.start)

section \<open>Properties\<close>

text \<open>
  C2. Every state the transitions reach from the initial state, in any number of steps and for any
  number of receiver generations, satisfies all eight invariants of the checker.
\<close>

theorem reachable_states_satisfy_invariants:
  assumes "reach_in m k s"
  shows "invariant_failures s = []"
  using assms by (rule reach_in_no_failures)

lemma run_formal_model_cases:
  assumes "0 \<le> maximum_depth m"
  shows "run_formal_model m = Inl (StateBoundExceeded (maximum_states m))
        \<and> int (card (within_depth m)) > maximum_states m
    \<or> (\<exists>acc. distinct (seen acc) \<and> set (seen acc) = within_depth m
          \<and> distinct (observed_transitions acc) \<and> set (observed_transitions acc) = fired m
          \<and> int (length (seen acc)) \<le> max 1 (maximum_states m)
          \<and> search_loop m initial_search = Inr acc)"
proof (cases "search_loop m initial_search")
  case (Inl e)
  then show ?thesis
    using search_loop_correct [OF search_inv_start [OF assms]] by (simp add: run_formal_model_def)
next
  case (Inr acc)
  then obtain lo lab where acc: "queue acc = []" "search_inv m (all_steps m) lo acc lab"
    using search_loop_correct [OF search_inv_start [OF assms]] by auto
  then show ?thesis
    using search_inv_final [OF acc(2,1)] Inr by (auto simp: search_inv_def)
qed

text \<open>
  C1. The search is exact: it returns a result if and only if the states within the depth bound fit
  the state bound and the transitions that occur before it are exactly the required ones, and the
  result then counts exactly the states within the depth and names exactly those transitions.
  Otherwise it raises for the state bound or for the transition catalog, never for an invariant.
\<close>

theorem run_formal_model_exact:
  assumes "0 \<le> maximum_depth m" and "1 \<le> maximum_states m"
  shows "case run_formal_model m of
      Inr r \<Rightarrow> int (card (within_depth m)) \<le> maximum_states m \<and> fired m = set (required_transitions m)
        \<and> states r = int (card (within_depth m)) \<and> set (transition_names r) = fired m
    | Inl e \<Rightarrow> (e = StateBoundExceeded (maximum_states m)
                 \<and> int (card (within_depth m)) > maximum_states m)
        \<or> (\<exists>missing unknown. e = TransitionCatalogDiffers missing unknown
                 \<and> fired m \<noteq> set (required_transitions m))"
  using run_formal_model_cases [OF assms(1)]
proof (elim disjE exE conjE)
  fix acc
  assume acc: "distinct (seen acc)" "set (seen acc) = within_depth m"
      "distinct (observed_transitions acc)" "set (observed_transitions acc) = fired m"
      "int (length (seen acc)) \<le> max 1 (maximum_states m)" "search_loop m initial_search = Inr acc"
  have card: "card (within_depth m) = length (seen acc)"
    using distinct_card [OF acc(1)] acc(2) by simp
  have miss: "filter (\<lambda>t. t \<notin> fired m) (remdups (required_transitions m)) = []
      \<longleftrightarrow> set (required_transitions m) \<subseteq> fired m"
    by (auto simp: filter_empty_conv)
  have unk: "filter (\<lambda>t. t \<notin> set (required_transitions m)) (observed_transitions acc) = []
      \<longleftrightarrow> fired m \<subseteq> set (required_transitions m)"
    using acc(4) by (auto simp: filter_empty_conv)
  show ?thesis
    using assms(2) acc by (auto simp: run_formal_model_def Let_def miss unk card)
qed simp

text \<open>
  C4. An uncertain hardware outcome is final: no transition leaves the phase \<open>uncertain\<close>, so the
  transaction is never dispatched again or cleared (what invariant HFX-MODEL-006 states in words).
\<close>

theorem uncertain_is_final:
  assumes "model_step m s t s'" and "transaction_phase s = ''uncertain''"
  shows "transaction_phase s' = ''uncertain'' \<and> hardware_attempts s' = hardware_attempts s
    \<and> transaction_generation s' = transaction_generation s \<and> t \<notin> {''queue-transaction'',
      ''dispatch-success'', ''dispatch-safe-failure'', ''dispatch-uncertain''}"
  using assms by cases (auto simp: reconnect_defs phase_sets split: if_splits)

text \<open>
  C5. Replacing or removing the active generation revokes its authority: after a connect or a
  disconnect no lease is held and no transaction is pending, the previous generation is retired and
  no longer active, and a transaction that was pending has failed safely without a hardware attempt
  (what invariant HFX-MODEL-007 states in words).
\<close>

theorem generation_replacement_revokes:
  assumes "reach_in m k s" and "model_step m s t s'"
    and "t \<in> {''connect-generation'', ''disconnect-generation''}" and "active_generation s \<noteq> 0"
  shows "lease_owner s' = ''none'' \<and> \<not> qualified_flag s' \<and> transaction_phase s' \<notin> NONTERMINAL
    \<and> retired s' (active_generation s) \<and> active_generation s' \<noteq> active_generation s
    \<and> (transaction_phase s \<in> NONTERMINAL \<longrightarrow>
         transaction_phase s' = ''safe-failure'' \<and> hardware_attempts s' = 0)"
proof -
  have "0 < active_generation s" "active_generation s \<le> issued_generation s"
    using reach_in_inv [OF assms(1)] assms(4) by (auto simp: generation_inv_def)
  with assms(2,3,4) show ?thesis
    by cases (auto simp: reconnect_defs phase_sets retired_iff_bit bit_set_generation split: if_splits)
qed

definition dispatches :: "string list \<Rightarrow> nat" where
  "dispatches tr = length (filter (\<lambda>t. t \<in> {''dispatch-success'', ''dispatch-safe-failure'',
     ''dispatch-uncertain''}) tr)"

definition queued_transactions :: "string list \<Rightarrow> nat" where
  "queued_transactions tr = length (filter (\<lambda>t. t = ''queue-transaction'') tr)"

lemma path_dispatch_bound:
  "path m tr s \<Longrightarrow>
     dispatches tr + (if transaction_phase s \<in> NONTERMINAL then 1 else 0) \<le> queued_transactions tr"
proof (induction rule: path.induct)
  case path_start
  show ?case by (simp add: dispatches_def initial_state_def phase_sets)
next
  case (path_step tr s t s')
  from path_step.hyps(2) path_step.IH show ?case
    by cases (auto simp: dispatches_def queued_transactions_def reconnect_defs phase_sets split: if_splits)
qed

text \<open>
  C3. Hardware is dispatched at most once per queued transaction: on every path of the model the
  dispatch transitions are at most as many as the queued transactions.
\<close>

theorem dispatch_at_most_once_per_transaction:
  assumes "path m tr s"
  shows "dispatches tr \<le> queued_transactions tr"
  using path_dispatch_bound [OF assms] by simp

section \<open>The catalog of the repository\<close>

text \<open>\<open>src/assurance/formal-model.json\<close>.\<close>

definition shipped_transitions :: "string list" where
  "shipped_transitions = [''acquire-application-lease'', ''acquire-restoration-lease'',
     ''authorize-transaction'', ''capture-stable-intent'', ''clear-safe-terminal'',
     ''connect-generation'', ''disconnect-generation'', ''dispatch-safe-failure'',
     ''dispatch-success'', ''dispatch-uncertain'', ''qualify-generation'', ''queue-transaction'',
     ''release-lease'', ''reserve-transport'']"

definition shipped_invariants :: "(string \<times> string) list" where
  "shipped_invariants = [
     (''HFX-MODEL-001'', ''Only one receiver generation is active and an active generation is never retired.''),
     (''HFX-MODEL-002'', ''A lease is owned by one actor and is bound to the current active qualified generation.''),
     (''HFX-MODEL-003'', ''Every nonterminal transaction is bound to the current active qualified generation and lease.''),
     (''HFX-MODEL-004'', ''Hardware dispatch occurs at most once for one modeled transaction identity.''),
     (''HFX-MODEL-005'', ''Confirmed success requires one hardware attempt and safe failure requires none.''),
     (''HFX-MODEL-006'', ''An uncertain hardware outcome is terminal and cannot enter automatic retry transitions.''),
     (''HFX-MODEL-007'', ''Generation replacement revokes old lease and nonterminal transaction authority.''),
     (''HFX-MODEL-008'', ''Stable intent can be captured only from confirmed delivery.'')]"

definition shipped_document :: json where
  "shipped_document = JObj [(''$schema'', JStr ''../schemas/formal-model.schema.json''),
     (''schema'', JStr ''hyperflux-formal-model-v1''),
     (''bounds'', JObj [(''maximum_depth'', JInt 10), (''maximum_states'', JInt 50000),
        (''receiver_generations'', JInt 2)]),
     (''invariants'', JArr (map (\<lambda>(i, s). JObj [(''id'', JStr i), (''statement'', JStr s)]) shipped_invariants)),
     (''required_transitions'', JArr (map JStr shipped_transitions))]"

definition shipped_model :: formal_model where
  "shipped_model = \<lparr>maximum_depth = 10, maximum_states = 50000, receiver_generations = 2,
     invariant_ids = EXPECTED_INVARIANTS, required_transitions = shipped_transitions\<rparr>"

lemma load_shipped_document:
  "load_formal_model [''assurance/formal-model.json'' \<mapsto> shipped_document] = Inr shipped_model"
proof -
  have ids: "mapM formal_invariant_id (List.enumerate 0 (map (\<lambda>(i, s). JObj [(''id'', JStr i),
      (''statement'', JStr s)]) shipped_invariants)) = Inr EXPECTED_INVARIANTS"
    by (simp add: shipped_invariants_def EXPECTED_INVARIANTS_def formal_invariant_id_def Let_def has_keys_def obj_keys_def
        py_strip_def py_isspace_def)
  have dist: "distinct EXPECTED_INVARIANTS" "distinct shipped_transitions"
    by (simp_all add: EXPECTED_INVARIANTS_def shipped_transitions_def)
  then have uniq: "require_unique EXPECTED_INVARIANTS l = Inr ()" "require_unique shipped_transitions l = Inr ()"
    for l by (simp_all add: require_unique_Inr)
  have strs: "json_strs (map JStr shipped_transitions) = Some shipped_transitions"
    by (simp add: json_strs_Some)
  obtain t ts where t: "shipped_transitions = t # ts" by (simp add: shipped_transitions_def)
  show ?thesis
    using ids uniq strs
    by (simp add: load_formal_model_def load_json_def shipped_document_def shipped_model_def
        has_keys_def obj_keys_def json_eq_int_def t) (simp add: shipped_invariants_def EXPECTED_INVARIANTS_def)
qed

lemma model_step_names: "model_step m s t s' \<Longrightarrow> t \<in> set shipped_transitions"
  by (erule model_step.cases) (simp_all add: shipped_transitions_def)

text \<open>
  A state within the invariants is determined by eight of its fields, each with a small range once
  the generations are bounded.
\<close>

definition state_code :: "model_state \<Rightarrow> int \<times> int \<times> int \<times> bool \<times> string \<times> string \<times> int \<times> int" where
  "state_code s = (issued_generation s, active_generation s, retired_mask s, qualified_flag s,
     lease_owner s, transaction_phase s, transaction_generation s, stable_intent_generation s)"

lemma state_code_inj:
  assumes "lease_inv s" "transaction_inv s" "lease_inv u" "transaction_inv u"
    and "state_code s = state_code u"
  shows "s = u"
proof -
  have "lease_generation s = lease_generation u"
    using assms by (auto simp: lease_inv_def state_code_def)
  moreover have "hardware_attempts s = hardware_attempts u"
    using assms by (auto simp: transaction_inv_def state_code_def phase_sets)
  ultimately show ?thesis
    using assms(5) by (intro model_state.equality) (simp_all add: state_code_def)
qed

lemma reach_in_issued: "reach_in m k s \<Longrightarrow> issued_generation s \<le> max 0 (receiver_generations m)"
proof (induction rule: reach_in.induct)
  case start
  show ?case by (simp add: initial_state_def)
next
  case (step k s t s')
  from step.hyps(2) step.IH show ?case
    by cases (auto simp: reconnect_defs split: if_splits)
qed

lemma int_bounded_by_bits:
  assumes "\<forall>i. bit (k :: int) i \<longrightarrow> i < n"
  shows "0 \<le> k \<and> k < 2 ^ n"
proof -
  have "take_bit n k = k"
    by (rule bit_eqI) (use assms in \<open>auto simp: bit_take_bit_iff\<close>)
  then show ?thesis
    by (metis take_bit_int_less_exp take_bit_nonnegative)
qed

lemma reach_in_retired_mask:
  assumes "reach_in m k s" and "receiver_generations m = 2"
  shows "retired_mask s \<in> {0..3}"
proof -
  have "\<forall>i. bit (retired_mask s) i \<longrightarrow> i < 2"
    using reach_in_inv [OF assms(1)] reach_in_issued [OF assms(1)] assms(2)
    by (fastforce simp: generation_inv_def)
  then show ?thesis using int_bounded_by_bits [of "retired_mask s" 2] by simp
qed

lemma card_within_depth_two_generations:
  assumes "receiver_generations m = 2"
  shows "card (within_depth m) \<le> 13608"
proof -
  define range where "range = {0..2 :: int} \<times> {0..2 :: int} \<times> {0..3 :: int} \<times> (UNIV :: bool set) \<times>
    {''none'', ''application'', ''restoration''} \<times> {''none'', ''queued'', ''authorized'', ''reserved'',
      ''success'', ''safe-failure'', ''uncertain''} \<times> {0..2 :: int} \<times> {0..2 :: int}"
  have "state_code s \<in> range" if "reach_in m k s" for k s
    using reach_in_inv [OF that] reach_in_issued [OF that] reach_in_retired_mask [OF that assms] assms
    by (auto simp: range_def state_code_def generation_inv_def lease_inv_def transaction_inv_def
        phase_sets)
  then have sub: "state_code ` within_depth m \<subseteq> range"
    by (auto simp: within_depth_def)
  have "inj_on state_code (within_depth m)"
    by (rule inj_onI) (auto simp: within_depth_def dest!: reach_in_inv intro: state_code_inj)
  then have "card (within_depth m) = card (state_code ` within_depth m)"
    by (simp add: card_image)
  also have "\<dots> \<le> card range" by (rule card_mono [OF _ sub]) (simp add: range_def)
  also have "card range = 13608" by (simp add: range_def card_cartesian_product)
  finally show ?thesis .
qed

text \<open>Following named transitions, to exhibit paths.\<close>

fun follow :: "formal_model \<Rightarrow> model_state \<Rightarrow> string list \<Rightarrow> model_state option" where
  "follow m s [] = Some s"
| "follow m s (t # ts) =
     (case map_of (successor_states s m) t of None \<Rightarrow> None | Some s' \<Rightarrow> follow m s' ts)"

lemma follow_snoc:
  "follow m s (ts @ [t]) = (case follow m s ts of None \<Rightarrow> None
     | Some u \<Rightarrow> map_of (successor_states u m) t)"
  by (induction ts arbitrary: s) (auto split: option.splits)

lemma follow_sound:
  "follow m initial_state ts = Some s \<Longrightarrow> reach_in m (length ts) s \<and> path m ts s"
proof (induction ts arbitrary: s rule: rev_induct)
  case Nil
  then show ?case by (auto intro: reach_in.start path_start)
next
  case (snoc t ts)
  then obtain u where u: "follow m initial_state ts = Some u" "(t, s) \<in> set (successor_states u m)"
    by (auto simp: follow_snoc split: option.splits dest: map_of_SomeD)
  then show ?case
    using snoc.IH [OF u(1)]
    by (auto simp: successor_states_iff_step intro: reach_in.step path_step)
qed

lemma fired_by_path:
  assumes "follow m initial_state (ts @ [t]) = Some s" and "int (length ts) < maximum_depth m"
  shows "t \<in> fired m"
proof -
  from assms(1) obtain u where u: "follow m initial_state ts = Some u"
      "(t, s) \<in> set (successor_states u m)"
    by (auto simp: follow_snoc split: option.splits dest: map_of_SomeD)
  then show ?thesis
    using follow_sound [OF u(1)] assms(2) by (auto simp: fired_def successor_states_iff_step)
qed

lemmas follow_eval = successor_states_def initial_state_def reconnect_defs phase_sets

definition to_reserved :: "string list" where
  "to_reserved = [''connect-generation'', ''qualify-generation'', ''acquire-application-lease'',
     ''queue-transaction'', ''authorize-transaction'', ''reserve-transport'']"

lemma fired_all:
  assumes "receiver_generations m \<ge> 1" and "maximum_depth m > 7"
  shows "set shipped_transitions \<subseteq> fired m"
proof -
  note go = fired_by_path [where m = m]
  have "''connect-generation'' \<in> fired m"
    using assms by (intro go [where ts = "[]"]) (simp_all add: follow_eval)
  moreover have "''disconnect-generation'' \<in> fired m" "''qualify-generation'' \<in> fired m"
    using assms by (auto intro!: go [where ts = "take 1 to_reserved"] simp: follow_eval to_reserved_def)
  moreover have "''acquire-application-lease'' \<in> fired m" "''acquire-restoration-lease'' \<in> fired m"
    using assms by (auto intro!: go [where ts = "take 2 to_reserved"] simp: follow_eval to_reserved_def)
  moreover have "''release-lease'' \<in> fired m" "''queue-transaction'' \<in> fired m"
    using assms by (auto intro!: go [where ts = "take 3 to_reserved"] simp: follow_eval to_reserved_def)
  moreover have "''authorize-transaction'' \<in> fired m"
    using assms by (auto intro!: go [where ts = "take 4 to_reserved"] simp: follow_eval to_reserved_def)
  moreover have "''reserve-transport'' \<in> fired m"
    using assms by (auto intro!: go [where ts = "take 5 to_reserved"] simp: follow_eval to_reserved_def)
  moreover have "''dispatch-success'' \<in> fired m" "''dispatch-safe-failure'' \<in> fired m"
      "''dispatch-uncertain'' \<in> fired m"
    using assms by (auto intro!: go [where ts = to_reserved] simp: follow_eval to_reserved_def)
  moreover have "''capture-stable-intent'' \<in> fired m" "''clear-safe-terminal'' \<in> fired m"
    using assms by (auto intro!: go [where ts = "to_reserved @ [''dispatch-success'']"]
        simp: follow_eval to_reserved_def)
  ultimately show ?thesis by (simp add: shipped_transitions_def)
qed

lemma fired_shipped: "fired shipped_model = set shipped_transitions"
proof
  show "fired shipped_model \<subseteq> set shipped_transitions"
    by (auto simp: fired_def dest: model_step_names)
  show "set shipped_transitions \<subseteq> fired shipped_model"
    by (rule fired_all) (simp_all add: shipped_model_def)
qed

text \<open>
  C6. The repository's own catalog loads, and the check of the model it describes succeeds: the
  search over two generations to depth ten stays far below its bound of 50000 states and sees
  exactly the fourteen required transitions.
\<close>

theorem shipped_model_passes:
  "\<exists>m r. load_formal_model [''assurance/formal-model.json'' \<mapsto> shipped_document] = Inr m
     \<and> run_formal_model m = Inr r \<and> states r \<le> 13608
     \<and> set (transition_names r) = set (required_transitions m)"
proof -
  have card: "int (card (within_depth shipped_model)) \<le> 13608"
    using card_within_depth_two_generations [of shipped_model] by (simp add: shipped_model_def)
  have sel: "maximum_depth shipped_model = 10" "maximum_states shipped_model = 50000"
      "required_transitions shipped_model = shipped_transitions"
    by (simp_all add: shipped_model_def)
  obtain r where "run_formal_model shipped_model = Inr r" "states r \<le> 13608"
      "set (transition_names r) = set shipped_transitions"
    using run_formal_model_cases [of shipped_model] card
    by (auto simp: run_formal_model_def Let_def sel fired_shipped filter_empty_conv
        distinct_card [symmetric])
  then show ?thesis using load_shipped_document sel(3) by auto
qed

section \<open>Witnesses\<close>

definition uncertain_example :: model_state where
  "uncertain_example = the (follow shipped_model initial_state (to_reserved @ [''dispatch-uncertain'']))"

lemma follow_uncertain_example:
  "follow shipped_model initial_state (to_reserved @ [''dispatch-uncertain'']) = Some uncertain_example"
  "transaction_phase uncertain_example = ''uncertain''" "lease_owner uncertain_example = ''application''"
  by (simp_all add: uncertain_example_def to_reserved_def follow_eval shipped_model_def)

theorem reachable_states_satisfy_invariants_witness:
  "reach_in shipped_model 7 uncertain_example \<and> invariant_failures uncertain_example = []"
proof -
  have r: "reach_in shipped_model 7 uncertain_example"
    using follow_sound [OF follow_uncertain_example(1)] by (simp add: to_reserved_def eval_nat_numeral)
  show ?thesis using r reachable_states_satisfy_invariants [OF r] by simp
qed

theorem run_formal_model_exact_witness:
  "0 \<le> maximum_depth shipped_model \<and> 1 \<le> maximum_states shipped_model \<and>
   (\<exists>r. run_formal_model shipped_model = Inr r \<and> states r = int (card (within_depth shipped_model)))"
proof -
  have h: "0 \<le> maximum_depth shipped_model" "1 \<le> maximum_states shipped_model"
    by (simp_all add: shipped_model_def)
  have "int (card (within_depth shipped_model)) \<le> maximum_states shipped_model"
    using card_within_depth_two_generations [of shipped_model] by (simp add: shipped_model_def)
  then show ?thesis
    using h run_formal_model_exact [OF h] fired_shipped
    by (auto simp: shipped_model_def split: sum.splits)
qed

theorem uncertain_is_final_witness:
  "\<exists>s'. model_step shipped_model uncertain_example ''release-lease'' s'
     \<and> transaction_phase uncertain_example = ''uncertain'' \<and> transaction_phase s' = ''uncertain''"
proof -
  have st: "model_step shipped_model uncertain_example ''release-lease''
      (uncertain_example\<lparr>lease_owner := ''none'', lease_generation := 0\<rparr>)"
    by (rule model_step.release) (simp_all add: follow_uncertain_example TERMINAL_def)
  note final = uncertain_is_final [OF st follow_uncertain_example(2)]
  show ?thesis
    by (rule exI, intro conjI, rule st, rule follow_uncertain_example(2), rule final [THEN conjunct1])
qed

theorem generation_replacement_revokes_witness:
  "\<exists>s s'. reach_in shipped_model 6 s \<and> model_step shipped_model s ''disconnect-generation'' s'
     \<and> transaction_phase s = ''reserved'' \<and> transaction_phase s' = ''safe-failure''
     \<and> lease_owner s' = ''none''"
proof -
  obtain s where s: "follow shipped_model initial_state to_reserved = Some s"
      "transaction_phase s = ''reserved''" "active_generation s = 1"
    by (simp add: to_reserved_def follow_eval shipped_model_def)
  have r: "reach_in shipped_model 6 s"
    using follow_sound [OF s(1)] by (simp add: to_reserved_def eval_nat_numeral)
  obtain s' where s': "disconnect_generation s = Some s'"
    using s(3) by (simp add: disconnect_generation_def Let_def)
  have st: "model_step shipped_model s ''disconnect-generation'' s'"
    using s' by (rule model_step.disconnect)
  have "''disconnect-generation'' \<in> {''connect-generation'', ''disconnect-generation''}" "active_generation s \<noteq> 0"
    using s(3) by simp_all
  from r st s(2) generation_replacement_revokes [OF r st this] show ?thesis
    by (auto simp: NONTERMINAL_def)
qed

theorem dispatch_at_most_once_per_transaction_witness:
  "\<exists>s. path shipped_model (to_reserved @ [''dispatch-success'']) s
     \<and> dispatches (to_reserved @ [''dispatch-success'']) = 1
     \<and> dispatches (to_reserved @ [''dispatch-success'']) \<le> queued_transactions (to_reserved @ [''dispatch-success''])"
proof -
  obtain s where s: "follow shipped_model initial_state (to_reserved @ [''dispatch-success'']) = Some s"
    by (simp add: to_reserved_def follow_eval shipped_model_def)
  have p: "path shipped_model (to_reserved @ [''dispatch-success'']) s"
    using follow_sound [OF s] by simp
  show ?thesis using p dispatch_at_most_once_per_transaction [OF p]
    by (auto simp: dispatches_def to_reserved_def)
qed

end
