(* ===== verification/Protocol_V5.thy ===== *)
theory Protocol_V5
  imports Prelude
begin

text \<open>
  The message types of bridge protocol 5, from
  \<open>src/sdk/python/hyperflux_sdk/generated/protocol_v5_types.py\<close> and the domain types they use from
  \<open>generated/domain_types.py\<close>.

  A frozen dataclass is a record whose fields carry a short prefix of the class (\<open>lg_lease_id\<close> is
  \<open>LeaseGrant.lease_id\<close>), a tagged union is a datatype with the class names as constructors, an
  \<open>Enum\<close> is a datatype whose \<open>_value\<close> function gives the wire string.  A domain wrapper
  (\<open>RequestId(value)\<close>) is its value; the range checks of its constructor are in \<open>domain_ranges\<close>
  (integers) and \<open>domain_lengths\<close> (strings), by class name.
\<close>

section \<open>Domain wrappers\<close>

type_synonym battery_percent = int
type_synonym capability_id = string
type_synonym client_id = string
type_synonym client_name = string
type_synonym color_channel = int
type_synonym component_version = string
type_synonym delivered_frame_count = int
type_synonym documentation_path = string
type_synonym dropped_event_count = int
type_synonym endpoint_id = string
type_synonym event_batch_limit = int
type_synonym evidence_claim_id = string
type_synonym finding_id = string
type_synonym frame_count = int
type_synonym frame_index = int
type_synonym generation_id = int
type_synonym human_message = string
type_synonym lease_duration_ms = int
type_synonym lease_id = string
type_synonym led_count = int
type_synonym logical_device_id = string
type_synonym model_name = string
type_synonym monotonic_ms = int
type_synonym negotiation_token = string
type_synonym presentation_key = string
type_synonym product_id = int
type_synonym profile_digest = string
type_synonym profile_id = string
type_synonym projection_revision = int
type_synonym protocol_feature_id = string
type_synonym protocol_session_id = string
type_synonym protocol_version = int
type_synonym queue_capacity = int
type_synonym receiver_id = string
type_synonym request_digest = string
type_synonym request_id = string
type_synonym sequence_number = int
type_synonym server_instance_id = string
type_synonym source_revision = string
type_synonym stream_epoch = int
type_synonym stream_id = string
type_synonym subscription_id = string
type_synonym transaction_id = string
type_synonym transport_variant = string
type_synonym upstream_id = string
type_synonym upstream_owner = string

text \<open>Class, wire encoding, least and greatest value.\<close>

definition domain_ranges :: "(string \<times> bool \<times> int \<times> int) list" where
  "domain_ranges = [
    (''GenerationId'', True, 1, 18446744073709551615),
    (''VendorId'', False, 0, 65535),
    (''ProductId'', False, 0, 65535),
    (''ProfileRevision'', False, 1, 4294967295),
    (''BatteryPercent'', False, 0, 100),
    (''Brightness'', False, 0, 255),
    (''DurationMs'', False, 0, 86400000),
    (''SequenceNumber'', True, 0, 18446744073709551615),
    (''LedIndex'', False, 0, 4095),
    (''LedCount'', False, 0, 4096),
    (''CarrierIndex'', False, 0, 4095),
    (''ProtocolVersion'', False, 1, 65535),
    (''MonotonicMs'', True, 0, 18446744073709551615),
    (''QueueCapacity'', False, 1, 4096),
    (''FrameIndex'', False, 0, 4294967295),
    (''FrameCount'', False, 1, 4096),
    (''ColorChannel'', False, 0, 255),
    (''DeliveredFrameCount'', False, 0, 4096),
    (''LeaseDurationMs'', False, 1000, 3600000),
    (''StreamEpoch'', True, 1, 18446744073709551615),
    (''DroppedEventCount'', True, 0, 18446744073709551615),
    (''ProjectionRevision'', False, 1, 4294967295),
    (''PersistenceSchemaVersion'', False, 1, 65535),
    (''IntentRevision'', True, 1, 18446744073709551615),
    (''PersistenceRevision'', True, 1, 18446744073709551615),
    (''RestoreAttemptNumber'', False, 1, 4294967295),
    (''AuthorizationEpoch'', True, 1, 18446744073709551615),
    (''DispatchNonce'', True, 1, 18446744073709551615),
    (''WallClockUnixMs'', True, 0, 18446744073709551615),
    (''EventBatchLimit'', False, 1, 256),
    (''NativeExchangeTimeoutMs'', False, 1, 1000),
    (''NativeReportByteCount'', False, 1, 4096)]"

text \<open>Class, least and greatest length.\<close>

definition domain_lengths :: "(string \<times> nat \<times> nat) list" where
  "domain_lengths = [
    (''ReceiverId'', 1, 128),
    (''LogicalDeviceId'', 1, 128),
    (''EndpointId'', 1, 128),
    (''LeaseId'', 1, 128),
    (''TransactionId'', 1, 128),
    (''ProfileId'', 1, 128),
    (''CapabilityId'', 1, 128),
    (''EvidenceClaimId'', 1, 160),
    (''ScenarioId'', 1, 128),
    (''RestoreId'', 1, 128),
    (''ClientId'', 1, 128),
    (''RequestId'', 1, 128),
    (''SubscriptionId'', 1, 128),
    (''FindingId'', 1, 128),
    (''ComponentVersion'', 1, 64),
    (''ClientName'', 1, 128),
    (''HumanMessage'', 1, 512),
    (''DocumentationPath'', 1, 256),
    (''StreamId'', 1, 128),
    (''SessionId'', 1, 128),
    (''ServerInstanceId'', 1, 128),
    (''NegotiationToken'', 1, 160),
    (''RestoreClaimId'', 1, 128),
    (''ProfileDigest'', 64, 64),
    (''CorrelationId'', 1, 128),
    (''ProtocolFeatureId'', 1, 128),
    (''ProtocolSessionId'', 1, 128),
    (''RequestDigest'', 64, 64),
    (''IntentDigest'', 64, 64),
    (''ModelName'', 1, 160),
    (''UpstreamId'', 1, 64),
    (''UpstreamOwner'', 1, 128),
    (''SourceRevision'', 1, 64),
    (''PresentationKey'', 1, 160),
    (''TransportVariant'', 1, 64),
    (''RestoreTriggerId'', 1, 128),
    (''NativeRouteToken'', 64, 64),
    (''NativeReportHex'', 180, 180),
    (''NativeProtocolFamily'', 1, 64)]"

section \<open>Enumerations\<close>

datatype activity_state =
    ActivityState_ACTIVE
  | ActivityState_IDLE
  | ActivityState_UNKNOWN

datatype connection_mode =
    ConnectionMode_HYPERFLUX_2_4GHZ
  | ConnectionMode_DIRECT_USB
  | ConnectionMode_BLUETOOTH
  | ConnectionMode_UNKNOWN

datatype contact_state =
    ContactState_ON_MAT
  | ContactState_OFF_MAT
  | ContactState_UNKNOWN
  | ContactState_NOT_APPLICABLE

datatype controller_availability =
    ControllerAvailability_READY
  | ControllerAvailability_SLEEPING

datatype device_application_state =
    DeviceApplicationState_UNVERIFIED
  | DeviceApplicationState_CONFIRMED
  | DeviceApplicationState_REJECTED

datatype device_kind =
    DeviceKind_RECEIVER
  | DeviceKind_MAT
  | DeviceKind_MOUSE
  | DeviceKind_KEYBOARD
  | DeviceKind_UNKNOWN

datatype error_severity =
    ErrorSeverity_INFO
  | ErrorSeverity_WARNING
  | ErrorSeverity_ERROR
  | ErrorSeverity_CRITICAL

datatype event_kind =
    EventKind_RECEIVER_AVAILABLE
  | EventKind_RECEIVER_SUSPENDED
  | EventKind_RECEIVER_UNAVAILABLE
  | EventKind_DEVICE_AVAILABLE
  | EventKind_DEVICE_SLEEPING
  | EventKind_DEVICE_UNAVAILABLE
  | EventKind_DEVICE_UNKNOWN
  | EventKind_BATTERY_UPDATED
  | EventKind_OWNERSHIP_CHANGED
  | EventKind_GENERATION_REPLACED
  | EventKind_TRANSACTION_COMPLETED
  | EventKind_RESTORE_COMPLETED
  | EventKind_DIAGNOSTIC_RAISED

datatype evidence_confidence =
    EvidenceConfidence_OBSERVED
  | EvidenceConfidence_DERIVED
  | EvidenceConfidence_INFERRED
  | EvidenceConfidence_UNKNOWN

datatype freshness_state =
    FreshnessState_FRESH
  | FreshnessState_STALE
  | FreshnessState_UNKNOWN

datatype inventory_availability =
    InventoryAvailability_AVAILABLE
  | InventoryAvailability_SLEEPING
  | InventoryAvailability_UNAVAILABLE
  | InventoryAvailability_UNKNOWN
  | InventoryAvailability_UNPAIRED
  | InventoryAvailability_PAIRING_UNKNOWN
  | InventoryAvailability_RECEIVER_UNAVAILABLE

datatype lease_state =
    LeaseState_REQUESTED
  | LeaseState_GRANTED
  | LeaseState_RENEWED
  | LeaseState_RELEASED
  | LeaseState_EXPIRED
  | LeaseState_REVOKED

datatype pairing_state =
    PairingState_PAIRED
  | PairingState_UNPAIRED
  | PairingState_UNKNOWN

datatype power_state =
    PowerState_ON
  | PowerState_OFF
  | PowerState_UNKNOWN

datatype presence_state =
    PresenceState_AVAILABLE
  | PresenceState_SLEEPING
  | PresenceState_UNAVAILABLE
  | PresenceState_UNKNOWN

datatype privacy_class =
    PrivacyClass_PUBLIC
  | PrivacyClass_PUBLIC_SUMMARY
  | PrivacyClass_SENSITIVE
  | PrivacyClass_PRIVATE
  | PrivacyClass_FORBIDDEN

datatype protocol_error_kind =
    ProtocolErrorKind_INCOMPATIBLE_VERSION
  | ProtocolErrorKind_UNSUPPORTED_FEATURE
  | ProtocolErrorKind_INVALID_REQUEST
  | ProtocolErrorKind_OWNERSHIP_CONFLICT
  | ProtocolErrorKind_STALE_GENERATION
  | ProtocolErrorKind_DEADLINE_EXCEEDED
  | ProtocolErrorKind_QUEUE_FULL
  | ProtocolErrorKind_TRANSPORT_FAILURE
  | ProtocolErrorKind_OUTCOME_UNKNOWN
  | ProtocolErrorKind_OUTCOME_EVICTED
  | ProtocolErrorKind_INTERNAL_FAILURE

datatype queue_admission =
    QueueAdmission_ENQUEUED
  | QueueAdmission_COALESCED
  | QueueAdmission_REJECTED_FULL
  | QueueAdmission_REJECTED_DEADLINE
  | QueueAdmission_REJECTED_INVALID

datatype receiver_lifecycle_state =
    ReceiverLifecycleState_ACTIVE
  | ReceiverLifecycleState_SUSPENDED
  | ReceiverLifecycleState_PARTIALLY_SUSPENDED
  | ReceiverLifecycleState_DISCONNECTING
  | ReceiverLifecycleState_UNKNOWN

datatype resource_kind =
    ResourceKind_LIGHTING
  | ResourceKind_SETTINGS
  | ResourceKind_PAIRING
  | ResourceKind_NATIVE_CONTROL

datatype restore_state =
    RestoreState_IDLE
  | RestoreState_PLANNED
  | RestoreState_OWNERSHIP_BOUND
  | RestoreState_GENERATION_BOUND
  | RestoreState_QUEUED
  | RestoreState_APPLYING
  | RestoreState_SUCCEEDED
  | RestoreState_FAILED
  | RestoreState_INVALIDATED

datatype route_kind =
    RouteKind_HYPERFLUX_WIRELESS
  | RouteKind_DIRECT_USB
  | RouteKind_BLUETOOTH

datatype route_state =
    RouteState_AVAILABLE
  | RouteState_UNAVAILABLE
  | RouteState_STALE
  | RouteState_UNKNOWN

datatype side_effect_certainty =
    SideEffectCertainty_NONE
  | SideEffectCertainty_POSSIBLE
  | SideEffectCertainty_PARTIAL
  | SideEffectCertainty_COMMITTED

datatype sleep_state =
    SleepState_AWAKE
  | SleepState_ASLEEP
  | SleepState_UNKNOWN

datatype stable_lighting_mode =
    StableLightingMode_STATIC
  | StableLightingMode_OFF

datatype support_level =
    SupportLevel_CANDIDATE
  | SupportLevel_IDENTIFIED
  | SupportLevel_READ_ONLY
  | SupportLevel_TELEMETRY_QUALIFIED
  | SupportLevel_LIGHTING_QUALIFIED
  | SupportLevel_SETTINGS_QUALIFIED
  | SupportLevel_PAIRING_QUALIFIED
  | SupportLevel_PRODUCTION_QUALIFIED

datatype telemetry_availability =
    TelemetryAvailability_UNKNOWN
  | TelemetryAvailability_UNAVAILABLE
  | TelemetryAvailability_REPORTED

datatype transaction_class =
    TransactionClass_EFFECT_FRAME
  | TransactionClass_STATIC_LIGHTING
  | TransactionClass_DEVICE_SETTING
  | TransactionClass_RESTORE
  | TransactionClass_PAIRING

datatype transaction_state =
    TransactionState_CREATED
  | TransactionState_VALIDATED
  | TransactionState_OWNERSHIP_BOUND
  | TransactionState_GENERATION_BOUND
  | TransactionState_QUEUED
  | TransactionState_SENT
  | TransactionState_HEALTH_PENDING
  | TransactionState_SUCCEEDED
  | TransactionState_FAILED
  | TransactionState_REVOKED
  | TransactionState_SUPERSEDED

fun activity_state_value :: "activity_state \<Rightarrow> string" where
  "activity_state_value ActivityState_ACTIVE = ''active''"
| "activity_state_value ActivityState_IDLE = ''idle''"
| "activity_state_value ActivityState_UNKNOWN = ''unknown''"

fun connection_mode_value :: "connection_mode \<Rightarrow> string" where
  "connection_mode_value ConnectionMode_HYPERFLUX_2_4GHZ = ''hyperflux-2.4ghz''"
| "connection_mode_value ConnectionMode_DIRECT_USB = ''direct-usb''"
| "connection_mode_value ConnectionMode_BLUETOOTH = ''bluetooth''"
| "connection_mode_value ConnectionMode_UNKNOWN = ''unknown''"

fun contact_state_value :: "contact_state \<Rightarrow> string" where
  "contact_state_value ContactState_ON_MAT = ''on-mat''"
| "contact_state_value ContactState_OFF_MAT = ''off-mat''"
| "contact_state_value ContactState_UNKNOWN = ''unknown''"
| "contact_state_value ContactState_NOT_APPLICABLE = ''not-applicable''"

fun controller_availability_value :: "controller_availability \<Rightarrow> string" where
  "controller_availability_value ControllerAvailability_READY = ''ready''"
| "controller_availability_value ControllerAvailability_SLEEPING = ''sleeping''"

fun device_application_state_value :: "device_application_state \<Rightarrow> string" where
  "device_application_state_value DeviceApplicationState_UNVERIFIED = ''unverified''"
| "device_application_state_value DeviceApplicationState_CONFIRMED = ''confirmed''"
| "device_application_state_value DeviceApplicationState_REJECTED = ''rejected''"

fun device_kind_value :: "device_kind \<Rightarrow> string" where
  "device_kind_value DeviceKind_RECEIVER = ''receiver''"
| "device_kind_value DeviceKind_MAT = ''mat''"
| "device_kind_value DeviceKind_MOUSE = ''mouse''"
| "device_kind_value DeviceKind_KEYBOARD = ''keyboard''"
| "device_kind_value DeviceKind_UNKNOWN = ''unknown''"

fun error_severity_value :: "error_severity \<Rightarrow> string" where
  "error_severity_value ErrorSeverity_INFO = ''info''"
| "error_severity_value ErrorSeverity_WARNING = ''warning''"
| "error_severity_value ErrorSeverity_ERROR = ''error''"
| "error_severity_value ErrorSeverity_CRITICAL = ''critical''"

fun event_kind_value :: "event_kind \<Rightarrow> string" where
  "event_kind_value EventKind_RECEIVER_AVAILABLE = ''receiver-available''"
| "event_kind_value EventKind_RECEIVER_SUSPENDED = ''receiver-suspended''"
| "event_kind_value EventKind_RECEIVER_UNAVAILABLE = ''receiver-unavailable''"
| "event_kind_value EventKind_DEVICE_AVAILABLE = ''device-available''"
| "event_kind_value EventKind_DEVICE_SLEEPING = ''device-sleeping''"
| "event_kind_value EventKind_DEVICE_UNAVAILABLE = ''device-unavailable''"
| "event_kind_value EventKind_DEVICE_UNKNOWN = ''device-unknown''"
| "event_kind_value EventKind_BATTERY_UPDATED = ''battery-updated''"
| "event_kind_value EventKind_OWNERSHIP_CHANGED = ''ownership-changed''"
| "event_kind_value EventKind_GENERATION_REPLACED = ''generation-replaced''"
| "event_kind_value EventKind_TRANSACTION_COMPLETED = ''transaction-completed''"
| "event_kind_value EventKind_RESTORE_COMPLETED = ''restore-completed''"
| "event_kind_value EventKind_DIAGNOSTIC_RAISED = ''diagnostic-raised''"

fun evidence_confidence_value :: "evidence_confidence \<Rightarrow> string" where
  "evidence_confidence_value EvidenceConfidence_OBSERVED = ''observed''"
| "evidence_confidence_value EvidenceConfidence_DERIVED = ''derived''"
| "evidence_confidence_value EvidenceConfidence_INFERRED = ''inferred''"
| "evidence_confidence_value EvidenceConfidence_UNKNOWN = ''unknown''"

fun freshness_state_value :: "freshness_state \<Rightarrow> string" where
  "freshness_state_value FreshnessState_FRESH = ''fresh''"
| "freshness_state_value FreshnessState_STALE = ''stale''"
| "freshness_state_value FreshnessState_UNKNOWN = ''unknown''"

fun inventory_availability_value :: "inventory_availability \<Rightarrow> string" where
  "inventory_availability_value InventoryAvailability_AVAILABLE = ''available''"
| "inventory_availability_value InventoryAvailability_SLEEPING = ''sleeping''"
| "inventory_availability_value InventoryAvailability_UNAVAILABLE = ''unavailable''"
| "inventory_availability_value InventoryAvailability_UNKNOWN = ''unknown''"
| "inventory_availability_value InventoryAvailability_UNPAIRED = ''unpaired''"
| "inventory_availability_value InventoryAvailability_PAIRING_UNKNOWN = ''pairing-unknown''"
| "inventory_availability_value InventoryAvailability_RECEIVER_UNAVAILABLE = ''receiver-unavailable''"

fun lease_state_value :: "lease_state \<Rightarrow> string" where
  "lease_state_value LeaseState_REQUESTED = ''requested''"
| "lease_state_value LeaseState_GRANTED = ''granted''"
| "lease_state_value LeaseState_RENEWED = ''renewed''"
| "lease_state_value LeaseState_RELEASED = ''released''"
| "lease_state_value LeaseState_EXPIRED = ''expired''"
| "lease_state_value LeaseState_REVOKED = ''revoked''"

fun pairing_state_value :: "pairing_state \<Rightarrow> string" where
  "pairing_state_value PairingState_PAIRED = ''paired''"
| "pairing_state_value PairingState_UNPAIRED = ''unpaired''"
| "pairing_state_value PairingState_UNKNOWN = ''unknown''"

fun power_state_value :: "power_state \<Rightarrow> string" where
  "power_state_value PowerState_ON = ''on''"
| "power_state_value PowerState_OFF = ''off''"
| "power_state_value PowerState_UNKNOWN = ''unknown''"

fun presence_state_value :: "presence_state \<Rightarrow> string" where
  "presence_state_value PresenceState_AVAILABLE = ''available''"
| "presence_state_value PresenceState_SLEEPING = ''sleeping''"
| "presence_state_value PresenceState_UNAVAILABLE = ''unavailable''"
| "presence_state_value PresenceState_UNKNOWN = ''unknown''"

fun privacy_class_value :: "privacy_class \<Rightarrow> string" where
  "privacy_class_value PrivacyClass_PUBLIC = ''public''"
| "privacy_class_value PrivacyClass_PUBLIC_SUMMARY = ''public-summary''"
| "privacy_class_value PrivacyClass_SENSITIVE = ''sensitive''"
| "privacy_class_value PrivacyClass_PRIVATE = ''private''"
| "privacy_class_value PrivacyClass_FORBIDDEN = ''forbidden''"

fun protocol_error_kind_value :: "protocol_error_kind \<Rightarrow> string" where
  "protocol_error_kind_value ProtocolErrorKind_INCOMPATIBLE_VERSION = ''incompatible-version''"
| "protocol_error_kind_value ProtocolErrorKind_UNSUPPORTED_FEATURE = ''unsupported-feature''"
| "protocol_error_kind_value ProtocolErrorKind_INVALID_REQUEST = ''invalid-request''"
| "protocol_error_kind_value ProtocolErrorKind_OWNERSHIP_CONFLICT = ''ownership-conflict''"
| "protocol_error_kind_value ProtocolErrorKind_STALE_GENERATION = ''stale-generation''"
| "protocol_error_kind_value ProtocolErrorKind_DEADLINE_EXCEEDED = ''deadline-exceeded''"
| "protocol_error_kind_value ProtocolErrorKind_QUEUE_FULL = ''queue-full''"
| "protocol_error_kind_value ProtocolErrorKind_TRANSPORT_FAILURE = ''transport-failure''"
| "protocol_error_kind_value ProtocolErrorKind_OUTCOME_UNKNOWN = ''outcome-unknown''"
| "protocol_error_kind_value ProtocolErrorKind_OUTCOME_EVICTED = ''outcome-evicted''"
| "protocol_error_kind_value ProtocolErrorKind_INTERNAL_FAILURE = ''internal-failure''"

fun queue_admission_value :: "queue_admission \<Rightarrow> string" where
  "queue_admission_value QueueAdmission_ENQUEUED = ''enqueued''"
| "queue_admission_value QueueAdmission_COALESCED = ''coalesced''"
| "queue_admission_value QueueAdmission_REJECTED_FULL = ''rejected-full''"
| "queue_admission_value QueueAdmission_REJECTED_DEADLINE = ''rejected-deadline''"
| "queue_admission_value QueueAdmission_REJECTED_INVALID = ''rejected-invalid''"

fun receiver_lifecycle_state_value :: "receiver_lifecycle_state \<Rightarrow> string" where
  "receiver_lifecycle_state_value ReceiverLifecycleState_ACTIVE = ''active''"
| "receiver_lifecycle_state_value ReceiverLifecycleState_SUSPENDED = ''suspended''"
| "receiver_lifecycle_state_value ReceiverLifecycleState_PARTIALLY_SUSPENDED = ''partially-suspended''"
| "receiver_lifecycle_state_value ReceiverLifecycleState_DISCONNECTING = ''disconnecting''"
| "receiver_lifecycle_state_value ReceiverLifecycleState_UNKNOWN = ''unknown''"

fun resource_kind_value :: "resource_kind \<Rightarrow> string" where
  "resource_kind_value ResourceKind_LIGHTING = ''lighting''"
| "resource_kind_value ResourceKind_SETTINGS = ''settings''"
| "resource_kind_value ResourceKind_PAIRING = ''pairing''"
| "resource_kind_value ResourceKind_NATIVE_CONTROL = ''native-control''"

fun restore_state_value :: "restore_state \<Rightarrow> string" where
  "restore_state_value RestoreState_IDLE = ''idle''"
| "restore_state_value RestoreState_PLANNED = ''planned''"
| "restore_state_value RestoreState_OWNERSHIP_BOUND = ''ownership-bound''"
| "restore_state_value RestoreState_GENERATION_BOUND = ''generation-bound''"
| "restore_state_value RestoreState_QUEUED = ''queued''"
| "restore_state_value RestoreState_APPLYING = ''applying''"
| "restore_state_value RestoreState_SUCCEEDED = ''succeeded''"
| "restore_state_value RestoreState_FAILED = ''failed''"
| "restore_state_value RestoreState_INVALIDATED = ''invalidated''"

fun route_kind_value :: "route_kind \<Rightarrow> string" where
  "route_kind_value RouteKind_HYPERFLUX_WIRELESS = ''hyperflux-wireless''"
| "route_kind_value RouteKind_DIRECT_USB = ''direct-usb''"
| "route_kind_value RouteKind_BLUETOOTH = ''bluetooth''"

fun route_state_value :: "route_state \<Rightarrow> string" where
  "route_state_value RouteState_AVAILABLE = ''available''"
| "route_state_value RouteState_UNAVAILABLE = ''unavailable''"
| "route_state_value RouteState_STALE = ''stale''"
| "route_state_value RouteState_UNKNOWN = ''unknown''"

fun side_effect_certainty_value :: "side_effect_certainty \<Rightarrow> string" where
  "side_effect_certainty_value SideEffectCertainty_NONE = ''none''"
| "side_effect_certainty_value SideEffectCertainty_POSSIBLE = ''possible''"
| "side_effect_certainty_value SideEffectCertainty_PARTIAL = ''partial''"
| "side_effect_certainty_value SideEffectCertainty_COMMITTED = ''committed''"

fun sleep_state_value :: "sleep_state \<Rightarrow> string" where
  "sleep_state_value SleepState_AWAKE = ''awake''"
| "sleep_state_value SleepState_ASLEEP = ''asleep''"
| "sleep_state_value SleepState_UNKNOWN = ''unknown''"

fun stable_lighting_mode_value :: "stable_lighting_mode \<Rightarrow> string" where
  "stable_lighting_mode_value StableLightingMode_STATIC = ''static''"
| "stable_lighting_mode_value StableLightingMode_OFF = ''off''"

fun support_level_value :: "support_level \<Rightarrow> string" where
  "support_level_value SupportLevel_CANDIDATE = ''candidate''"
| "support_level_value SupportLevel_IDENTIFIED = ''identified''"
| "support_level_value SupportLevel_READ_ONLY = ''read-only''"
| "support_level_value SupportLevel_TELEMETRY_QUALIFIED = ''telemetry-qualified''"
| "support_level_value SupportLevel_LIGHTING_QUALIFIED = ''lighting-qualified''"
| "support_level_value SupportLevel_SETTINGS_QUALIFIED = ''settings-qualified''"
| "support_level_value SupportLevel_PAIRING_QUALIFIED = ''pairing-qualified''"
| "support_level_value SupportLevel_PRODUCTION_QUALIFIED = ''production-qualified''"

fun telemetry_availability_value :: "telemetry_availability \<Rightarrow> string" where
  "telemetry_availability_value TelemetryAvailability_UNKNOWN = ''unknown''"
| "telemetry_availability_value TelemetryAvailability_UNAVAILABLE = ''unavailable''"
| "telemetry_availability_value TelemetryAvailability_REPORTED = ''reported''"

fun transaction_class_value :: "transaction_class \<Rightarrow> string" where
  "transaction_class_value TransactionClass_EFFECT_FRAME = ''effect-frame''"
| "transaction_class_value TransactionClass_STATIC_LIGHTING = ''static-lighting''"
| "transaction_class_value TransactionClass_DEVICE_SETTING = ''device-setting''"
| "transaction_class_value TransactionClass_RESTORE = ''restore''"
| "transaction_class_value TransactionClass_PAIRING = ''pairing''"

fun transaction_state_value :: "transaction_state \<Rightarrow> string" where
  "transaction_state_value TransactionState_CREATED = ''created''"
| "transaction_state_value TransactionState_VALIDATED = ''validated''"
| "transaction_state_value TransactionState_OWNERSHIP_BOUND = ''ownership-bound''"
| "transaction_state_value TransactionState_GENERATION_BOUND = ''generation-bound''"
| "transaction_state_value TransactionState_QUEUED = ''queued''"
| "transaction_state_value TransactionState_SENT = ''sent''"
| "transaction_state_value TransactionState_HEALTH_PENDING = ''health-pending''"
| "transaction_state_value TransactionState_SUCCEEDED = ''succeeded''"
| "transaction_state_value TransactionState_FAILED = ''failed''"
| "transaction_state_value TransactionState_REVOKED = ''revoked''"
| "transaction_state_value TransactionState_SUPERSEDED = ''superseded''"

section \<open>Records and unions\<close>

datatype empty_request = EmptyRequest

record rgb_color =
  rgb_red :: color_channel
  rgb_green :: color_channel
  rgb_blue :: color_channel

record client_hello =
  ch_client_id :: client_id
  ch_client_name :: client_name
  ch_minimum_version :: protocol_version
  ch_maximum_version :: protocol_version
  ch_required_features :: "protocol_feature_id list"
  ch_optional_features :: "protocol_feature_id list"

record server_hello =
  sh_selected_version :: protocol_version
  sh_server_instance_id :: server_instance_id
  sh_protocol_session_id :: protocol_session_id
  sh_negotiation_token :: negotiation_token
  sh_bridge_version :: component_version
  sh_enabled_features :: "protocol_feature_id list"
  sh_event_buffer_capacity :: queue_capacity

record resource_key =
  rk_receiver_id :: receiver_id
  rk_generation_id :: generation_id
  rk_device_id :: logical_device_id
  rk_kind :: resource_kind

record lease_request =
  lr_request_id :: request_id
  lr_client_id :: client_id
  lr_resources :: "resource_key list"
  lr_duration_ms :: lease_duration_ms

record lease_grant =
  lg_lease_id :: lease_id
  lg_client_id :: client_id
  lg_resources :: "resource_key list"
  lg_expires_at_ms :: monotonic_ms
  lg_state :: lease_state

record lease_conflict =
  lc_conflicting_client :: client_id
  lc_conflicting_resource :: resource_key

record lease_rejection =
  lj_error_kind :: protocol_error_kind
  lj_finding_id :: finding_id

record renew_lease_request =
  rnl_request_id :: request_id
  rnl_client_id :: client_id
  rnl_lease_id :: lease_id
  rnl_duration_ms :: lease_duration_ms

record release_lease_request =
  rll_request_id :: request_id
  rll_client_id :: client_id
  rll_lease_id :: lease_id

record event_cursor =
  ec_stream_id :: stream_id
  ec_stream_epoch :: stream_epoch
  ec_projection_revision :: projection_revision
  ec_sequence :: sequence_number

record endpoint_snapshot =
  es_endpoint_id :: endpoint_id
  es_route_kind :: route_kind
  es_route_state :: route_state
  es_connection_mode :: connection_mode
  es_power_state :: power_state
  es_sleep_state :: sleep_state
  es_activity_state :: activity_state
  es_contact_state :: contact_state
  es_freshness :: freshness_state
  es_confidence :: evidence_confidence
  es_evidence_claim_id :: "evidence_claim_id option"
  es_observed_at_ms :: "monotonic_ms option"

record battery_observation =
  bo_availability :: telemetry_availability
  bo_percentage :: "battery_percent option"
  bo_freshness :: freshness_state
  bo_confidence :: evidence_confidence
  bo_observed_at_ms :: "monotonic_ms option"

record resource_ownership_snapshot =
  ros_resource :: resource_key
  ros_client_id :: client_id
  ros_lease_id :: lease_id
  ros_expires_at_ms :: monotonic_ms

record logical_device_snapshot =
  lds_device_id :: logical_device_id
  lds_device_kind :: device_kind
  lds_product_id :: product_id
  lds_profile_id :: "profile_id option"
  lds_profile_digest :: "profile_digest option"
  lds_pairing :: pairing_state
  lds_presence :: presence_state
  lds_support_level :: support_level
  lds_endpoints :: "endpoint_snapshot list"
  lds_battery :: battery_observation
  lds_capabilities :: "capability_id list"

record receiver_snapshot =
  rs_receiver_id :: receiver_id
  rs_generation_id :: generation_id
  rs_profile_id :: "profile_id option"
  rs_profile_digest :: "profile_digest option"
  rs_lifecycle :: receiver_lifecycle_state
  rs_devices :: "logical_device_snapshot list"
  rs_ownership :: "resource_ownership_snapshot list"
  rs_stable_restore_enabled :: bool
  rs_restore_state :: restore_state

record bridge_snapshot =
  bs_cursor :: event_cursor
  bs_receivers :: "receiver_snapshot list"

record lighting_frame =
  lf_device_id :: logical_device_id
  lf_frame_index :: frame_index
  lf_colors :: "rgb_color list"

record device_profile_binding =
  dpb_device_id :: logical_device_id
  dpb_profile_id :: profile_id
  dpb_profile_digest :: profile_digest
  dpb_application_slot_count :: led_count

record stable_lighting_intent =
  sli_device_id :: logical_device_id
  sli_mode :: stable_lighting_mode

record transaction_request =
  tr_request_id :: request_id
  tr_transaction_id :: transaction_id
  tr_client_id :: client_id
  tr_lease_id :: lease_id
  tr_receiver_id :: receiver_id
  tr_generation_id :: generation_id
  tr_receiver_profile_id :: profile_id
  tr_receiver_profile_digest :: profile_digest
  tr_device_profiles :: "device_profile_binding list"
  tr_transaction_class :: transaction_class
  tr_stable_intents :: "stable_lighting_intent list"
  tr_deadline_ms :: monotonic_ms
  tr_resources :: "resource_key list"
  tr_frames :: "lighting_frame list"

record transaction_progress =
  tp_request_id :: request_id
  tp_request_digest :: request_digest
  tp_transaction_id :: transaction_id
  tp_receiver_id :: receiver_id
  tp_generation_id :: generation_id
  tp_state :: transaction_state
  tp_admission :: queue_admission
  tp_declared_frames :: frame_count
  tp_delivered_frames :: delivered_frame_count
  tp_side_effect_certainty :: side_effect_certainty
  tp_live_write_executed :: bool

record transaction_terminal =
  tt_request_id :: request_id
  tt_request_digest :: request_digest
  tt_transaction_id :: transaction_id
  tt_receiver_id :: receiver_id
  tt_generation_id :: generation_id
  tt_state :: transaction_state
  tt_declared_frames :: frame_count
  tt_delivered_frames :: delivered_frame_count
  tt_side_effect_certainty :: side_effect_certainty
  tt_live_write_executed :: bool
  tt_automatic_retry :: bool
  tt_device_application :: device_application_state
  tt_terminal_sequence :: sequence_number
  tt_error_kind :: "protocol_error_kind option"
  tt_superseded_by :: "transaction_id option"

record transaction_unavailable =
  tu_transaction_id :: transaction_id
  tu_error_kind :: protocol_error_kind
  tu_finding_id :: finding_id

record transaction_lookup =
  tl_request_id :: request_id
  tl_client_id :: client_id
  tl_transaction_id :: transaction_id

record subscription_request =
  sr_client_id :: client_id
  sr_subscription_id :: "subscription_id option"
  sr_expected_cursor :: "event_cursor option"
  sr_max_events :: event_batch_limit

record bridge_event =
  be_sequence :: sequence_number
  be_kind :: event_kind
  be_receiver_id :: "receiver_id option"
  be_generation_id :: "generation_id option"
  be_device_id :: "logical_device_id option"
  be_lease_id :: "lease_id option"
  be_transaction_id :: "transaction_id option"
  be_finding_id :: "finding_id option"

record event_batch =
  eb_subscription_id :: subscription_id
  eb_next_cursor :: event_cursor
  eb_events :: "bridge_event list"
  eb_oldest_available :: sequence_number
  eb_latest_available :: sequence_number
  eb_dropped_events :: dropped_event_count
  eb_cursor_gap :: bool
  eb_has_more :: bool

record diagnostic_finding =
  df_finding_id :: finding_id
  df_severity :: error_severity
  df_cause :: human_message
  df_explanation :: human_message
  df_safe_action :: human_message
  df_privacy :: privacy_class
  df_documentation :: documentation_path

record diagnostic_snapshot =
  ds_sequence :: sequence_number
  ds_findings :: "diagnostic_finding list"
  ds_event_buffer_capacity :: queue_capacity
  ds_transaction_queue_capacity :: queue_capacity

record profile_binding_view =
  pb_profile_id :: profile_id
  pb_profile_digest :: profile_digest

record device_inventory_view =
  div_device_id :: logical_device_id
  div_device_kind :: device_kind
  div_product_id :: product_id
  div_profile :: "profile_binding_view option"
  div_model_name :: "model_name option"
  div_pairing :: pairing_state
  div_presence :: presence_state
  div_availability :: inventory_availability
  div_support_level :: support_level
  div_endpoints :: "endpoint_snapshot list"
  div_battery :: battery_observation
  div_capabilities :: "capability_id list"

record presentation_view =
  pv_upstream_id :: upstream_id
  pv_owner :: upstream_owner
  pv_project_version :: component_version
  pv_source_revision :: source_revision
  pv_model_key :: presentation_key
  pv_layout_key :: "presentation_key option"
  pv_transport_variant :: transport_variant

record lighting_topology_view =
  lt_physical_led_count :: led_count
  lt_application_slot_count :: led_count
  lt_rows :: led_count
  lt_columns :: led_count

datatype unowned_controller = UnownedController

record viewer_owned_controller =
  voc_lease_id :: lease_id
  voc_expires_at_ms :: monotonic_ms

record other_owned_controller =
  ooc_client_id :: client_id
  ooc_lease_id :: lease_id
  ooc_expires_at_ms :: monotonic_ms

record controller_actions =
  ca_can_acquire :: bool
  ca_can_release :: bool
  ca_can_submit_now :: bool

record rpc_error =
  re_request_id :: "request_id option"
  re_kind :: protocol_error_kind
  re_message :: human_message
  re_finding_id :: finding_id

datatype lease_result =
    LeaseResultGranted lease_grant
  | LeaseResultConflict lease_conflict
  | LeaseResultRejected lease_rejection

datatype transaction_result =
    TransactionResultProgress transaction_progress
  | TransactionResultTerminal transaction_terminal
  | TransactionResultUnavailable transaction_unavailable

datatype controller_ownership =
    ControllerOwnershipUnowned unowned_controller
  | ControllerOwnershipOwnedByViewer viewer_owned_controller
  | ControllerOwnershipOwnedByOther other_owned_controller

record controller_view =
  cv_receiver_id :: receiver_id
  cv_generation_id :: generation_id
  cv_device_id :: logical_device_id
  cv_endpoint_id :: endpoint_id
  cv_device_kind :: device_kind
  cv_product_id :: product_id
  cv_receiver_profile :: profile_binding_view
  cv_device_profile :: profile_binding_view
  cv_model_name :: model_name
  cv_presentation :: presentation_view
  cv_availability :: controller_availability
  cv_battery :: battery_observation
  cv_capabilities :: "capability_id list"
  cv_lighting :: lighting_topology_view
  cv_resource :: resource_key
  cv_ownership :: controller_ownership
  cv_actions :: controller_actions

record integration_receiver_view =
  irv_receiver_id :: receiver_id
  irv_generation_id :: generation_id
  irv_profile :: "profile_binding_view option"
  irv_model_name :: "model_name option"
  irv_lifecycle :: receiver_lifecycle_state
  irv_stable_restore_enabled :: bool
  irv_restore_state :: restore_state
  irv_inventory :: "device_inventory_view list"
  irv_controllers :: "controller_view list"

record integration_view =
  iv_cursor :: event_cursor
  iv_receivers :: "integration_receiver_view list"

record negotiation_request_envelope =
  nre_request_id :: request_id
  nre_params :: client_hello

record 'p session_request_envelope =
  sre_request_id :: request_id
  sre_protocol_session_id :: protocol_session_id
  sre_negotiation_token :: negotiation_token
  sre_params :: "'p"

datatype rpc_request =
    RpcRequestNegotiate negotiation_request_envelope
  | RpcRequestSnapshot "empty_request session_request_envelope"
  | RpcRequestIntegrationView "empty_request session_request_envelope"
  | RpcRequestAcquireLease "lease_request session_request_envelope"
  | RpcRequestRenewLease "renew_lease_request session_request_envelope"
  | RpcRequestReleaseLease "release_lease_request session_request_envelope"
  | RpcRequestSubmitTransaction "transaction_request session_request_envelope"
  | RpcRequestTransactionOutcome "transaction_lookup session_request_envelope"
  | RpcRequestSubscribe "subscription_request session_request_envelope"
  | RpcRequestDiagnostics "empty_request session_request_envelope"

record 'p success_envelope =
  se_request_id :: request_id
  se_server_instance_id :: server_instance_id
  se_result :: "'p"

record error_envelope =
  ee_request_id :: "request_id option"
  ee_server_instance_id :: server_instance_id
  ee_error :: rpc_error

datatype rpc_response =
    RpcResponseNegotiateSuccess "server_hello success_envelope"
  | RpcResponseSnapshotSuccess "bridge_snapshot success_envelope"
  | RpcResponseIntegrationViewSuccess "integration_view success_envelope"
  | RpcResponseAcquireLeaseSuccess "lease_result success_envelope"
  | RpcResponseRenewLeaseSuccess "lease_result success_envelope"
  | RpcResponseReleaseLeaseSuccess "lease_result success_envelope"
  | RpcResponseSubmitTransactionSuccess "transaction_result success_envelope"
  | RpcResponseTransactionOutcomeSuccess "transaction_result success_envelope"
  | RpcResponseSubscribeSuccess "event_batch success_envelope"
  | RpcResponseDiagnosticsSuccess "diagnostic_snapshot success_envelope"
  | RpcResponseError error_envelope

section \<open>Bounds\<close>

definition MAX_WIRE_MESSAGE_BYTES :: nat where
  "MAX_WIRE_MESSAGE_BYTES = 1048576"

definition MAX_JSON_DEPTH :: nat where
  "MAX_JSON_DEPTH = 128"

definition FIELD_LIMITS :: "((string \<times> string) \<times> nat) list" where
  "FIELD_LIMITS = [
    ((''ClientHello'', ''required_features''), 64),
    ((''ClientHello'', ''optional_features''), 64),
    ((''ServerHello'', ''enabled_features''), 64),
    ((''LeaseRequest'', ''resources''), 32),
    ((''LeaseGrant'', ''resources''), 32),
    ((''LogicalDeviceSnapshot'', ''endpoints''), 8),
    ((''LogicalDeviceSnapshot'', ''capabilities''), 128),
    ((''ReceiverSnapshot'', ''devices''), 32),
    ((''ReceiverSnapshot'', ''ownership''), 96),
    ((''BridgeSnapshot'', ''receivers''), 16),
    ((''LightingFrame'', ''colors''), 4096),
    ((''TransactionRequest'', ''device_profiles''), 32),
    ((''TransactionRequest'', ''stable_intents''), 32),
    ((''TransactionRequest'', ''resources''), 32),
    ((''TransactionRequest'', ''frames''), 32),
    ((''EventBatch'', ''events''), 256),
    ((''DiagnosticSnapshot'', ''findings''), 128),
    ((''DeviceInventoryView'', ''endpoints''), 8),
    ((''DeviceInventoryView'', ''capabilities''), 128),
    ((''ControllerView'', ''capabilities''), 128),
    ((''IntegrationReceiverView'', ''inventory''), 32),
    ((''IntegrationReceiverView'', ''controllers''), 32),
    ((''IntegrationView'', ''receivers''), 16)]"

end
