(* ===== verification/Sdk_Base.thy ===== *)
theory Sdk_Base
  imports Protocol_V5
begin

text \<open>
  What the Python SDK's modules share: its exceptions (\<open>errors.py\<close>), the process identity source
  (\<open>identity.py\<close>), the channel interface (\<open>RpcChannel\<close> in \<open>channel.py\<close>) and stateful operations
  that may raise.

  An operation on a state \<open>'s\<close> is a function to the raised exception or the result, and the state
  after it: a raise keeps the effects made before it.
\<close>

section \<open>Exceptions\<close>

text \<open>
  The SDK's exceptions with their messages; \<open>OSError\<close>, \<open>ValueError\<close>, \<open>OverflowError\<close> and
  \<open>KeyboardInterrupt\<close> stand for the exceptions outside the SDK's hierarchy that its code can meet.
\<close>

datatype sdk_exn =
    CodecError string
  | FramingError string
  | ConnectionClosed string
  | PeerCredentialError string
  | NegotiationError string
  | ResponseMismatch string
  | UnexpectedResponse string
  | BridgeError (be_message: string) (be_finding: string) (be_error_kind: string)
  | OwnershipConflict string
  | InvalidController string
  | InvalidLightingFrame string
  | SessionInactive string
  | OSError string
  | TimeoutError string
  | ValueError string
  | OverflowError string
  | KeyboardInterrupt

fun is_sdk_error :: "sdk_exn \<Rightarrow> bool" where
  "is_sdk_error (OSError _) = False"
| "is_sdk_error (TimeoutError _) = False"
| "is_sdk_error (ValueError _) = False"
| "is_sdk_error (OverflowError _) = False"
| "is_sdk_error KeyboardInterrupt = False"
| "is_sdk_error _ = True"

section \<open>Operations on a state that may raise\<close>

type_synonym ('s, 'a) io = "'s \<Rightarrow> (sdk_exn + 'a) \<times> 's"

definition io_return :: "'a \<Rightarrow> ('s, 'a) io" where
  "io_return x s = (Inr x, s)"

definition io_raise :: "sdk_exn \<Rightarrow> ('s, 'a) io" where
  "io_raise e s = (Inl e, s)"

definition io_bind :: "('s, 'a) io \<Rightarrow> ('a \<Rightarrow> ('s, 'b) io) \<Rightarrow> ('s, 'b) io" where
  "io_bind m f s = (case m s of (Inl e, s') \<Rightarrow> (Inl e, s') | (Inr x, s') \<Rightarrow> f x s')"

definition io_lift :: "sdk_exn + 'a \<Rightarrow> ('s, 'a) io" where
  "io_lift r s = (r, s)"

text \<open>\<open>try: m except e: h(e)\<close>; the handler decides which exceptions it takes.\<close>

definition io_catch :: "('s, 'a) io \<Rightarrow> (sdk_exn \<Rightarrow> ('s, 'a) io) \<Rightarrow> ('s, 'a) io" where
  "io_catch m h s = (case m s of (Inl e, s') \<Rightarrow> h e s' | (Inr x, s') \<Rightarrow> (Inr x, s'))"

lemma io_simps [simp]:
  "io_return x s = (Inr x, s)"
  "io_raise e s = (Inl e, s)"
  "io_lift r s = (r, s)"
  by (simp_all add: io_return_def io_raise_def io_lift_def)

lemma io_bind_Inr [result_simps]:
  "io_bind m f s = (Inr y, t) \<longleftrightarrow> (\<exists>x u. m s = (Inr x, u) \<and> f x u = (Inr y, t))"
  by (auto simp: io_bind_def split: prod.splits sum.splits)

lemma io_bind_Inl:
  "io_bind m f s = (Inl e, t) \<longleftrightarrow> m s = (Inl e, t) \<or> (\<exists>x u. m s = (Inr x, u) \<and> f x u = (Inl e, t))"
  by (auto simp: io_bind_def split: prod.splits sum.splits)

lemma io_bind_eqs [simp]:
  "m s = (Inl e, t) \<Longrightarrow> io_bind m f s = (Inl e, t)"
  "m s = (Inr x, t) \<Longrightarrow> io_bind m f s = f x t"
  by (simp_all add: io_bind_def)

text \<open>
  What every run of an operation does to the state, raising or not: it stays within the relation \<open>R\<close>.
  A reflexive and transitive relation composes along the operations.
\<close>

definition keeps :: "('s \<Rightarrow> 's \<Rightarrow> bool) \<Rightarrow> ('s, 'a) io \<Rightarrow> bool" where
  "keeps R m \<longleftrightarrow> (\<forall>s r t. m s = (r, t) \<longrightarrow> R s t)"

locale step_relation =
  fixes R :: "'s \<Rightarrow> 's \<Rightarrow> bool"
  assumes refl: "R s s"
    and trans: "R s t \<Longrightarrow> R t u \<Longrightarrow> R s u"
begin

lemma return_keeps: "keeps R (io_return x)"
  by (simp add: keeps_def refl)

lemma raise_keeps: "keeps R (io_raise e)"
  by (simp add: keeps_def refl)

lemma lift_keeps: "keeps R (io_lift r)"
  by (simp add: keeps_def refl)

lemma lift_state_keeps: "keeps R (\<lambda>s. io_lift (g s) s)"
  by (simp add: keeps_def refl)

lemma bind_lift_keeps:
  assumes "\<And>x. keeps R (f x)"
  shows "keeps R (\<lambda>s. io_bind (io_lift (g s)) f s)"
  using assms by (auto simp: keeps_def io_bind_def refl split: sum.splits)

lemma bind_keeps:
  assumes "keeps R m" and "\<And>x. keeps R (f x)"
  shows "keeps R (io_bind m f)"
  unfolding keeps_def
proof (intro allI impI)
  fix s r t
  assume run: "io_bind m f s = (r, t)"
  obtain q u where mq: "m s = (q, u)" by force
  then have su: "R s u" using assms(1) by (simp add: keeps_def)
  show "R s t"
  proof (cases q)
    case (Inl e)
    with run mq su show ?thesis by simp
  next
    case (Inr x)
    then have "f x u = (r, t)" using run mq by simp
    then have "R u t" using assms(2) by (simp add: keeps_def)
    with su show ?thesis by (rule trans)
  qed
qed

lemma catch_keeps:
  assumes "keeps R m" and "\<And>e. keeps R (h e)"
  shows "keeps R (io_catch m h)"
  unfolding keeps_def
proof (intro allI impI)
  fix s r t
  assume run: "io_catch m h s = (r, t)"
  obtain q u where mq: "m s = (q, u)" by force
  then have su: "R s u" using assms(1) by (simp add: keeps_def)
  show "R s t"
  proof (cases q)
    case (Inl e)
    then have "h e u = (r, t)" using run mq by (simp add: io_catch_def)
    then have "R u t" using assms(2) by (simp add: keeps_def)
    with su show ?thesis by (rule trans)
  next
    case (Inr x)
    with run mq su show ?thesis by (simp add: io_catch_def)
  qed
qed

lemma if_keeps: "keeps R m \<Longrightarrow> keeps R k \<Longrightarrow> keeps R (if b then m else k)"
  by simp

lemmas io_keeps = return_keeps raise_keeps lift_keeps bind_keeps catch_keeps
  if_keeps

end

lemma keepsD: "keeps R m \<Longrightarrow> m s = (r, t) \<Longrightarrow> R s t"
  by (simp add: keeps_def)

section \<open>Identities\<close>

definition hex_digit :: "nat \<Rightarrow> char" where
  "hex_digit d = (if d < 10 then char_of (48 + d) else char_of (87 + d))"

text \<open>\<open>f"{n:x}"\<close> for a natural number.\<close>

fun hex_nat :: "nat \<Rightarrow> string" where
  "hex_nat n = (if n < 16 then [hex_digit n] else hex_nat (n div 16) @ [hex_digit (n mod 16)])"

declare hex_nat.simps [simp del]

text \<open>The constructor of a string wrapper: its length check raises \<open>ValueError\<close>.\<close>

definition string_wrapper :: "string \<Rightarrow> string \<Rightarrow> sdk_exn + string" where
  "string_wrapper cls v = (case map_of domain_lengths cls of
     None \<Rightarrow> Inl (ValueError cls)
   | Some (lo, hi) \<Rightarrow> if lo \<le> length v \<and> length v \<le> hi then Inr v
       else Inl (ValueError (cls @ '' is outside the canonical length'')))"

text \<open>The constructor of an integer wrapper.\<close>

definition int_wrapper :: "string \<Rightarrow> int \<Rightarrow> sdk_exn + int" where
  "int_wrapper cls v = (case map_of domain_ranges cls of
     None \<Rightarrow> Inl (ValueError cls)
   | Some (_, lo, hi) \<Rightarrow> if lo \<le> v \<and> v \<le> hi then Inr v
       else Inl (ValueError (cls @ '' is outside the canonical range'')))"

record identity_source =
  id_prefix :: string
  id_request :: nat
  id_transaction :: nat

text \<open>A new source; \<open>pid\<close> and \<open>token\<close> are what \<open>os.getpid()\<close> and \<open>secrets.token_hex(8)\<close> return.\<close>

definition process_identity_source :: "string option \<Rightarrow> nat \<Rightarrow> string \<Rightarrow> identity_source" where
  "process_identity_source prefix pid token =
     \<lparr>id_prefix = (case prefix of
          Some (c # cs) \<Rightarrow> c # cs
        | _ \<Rightarrow> ''py-'' @ hex_nat pid @ ''-'' @ token),
      id_request = 0, id_transaction = 0\<rparr>"

definition next_request_id :: "(identity_source, request_id) io" where
  "next_request_id ids =
     (let n = Suc (id_request ids)
      in (string_wrapper ''RequestId'' (id_prefix ids @ ''-r-'' @ hex_nat n), ids\<lparr>id_request := n\<rparr>))"

definition next_transaction_id :: "(identity_source, transaction_id) io" where
  "next_transaction_id ids =
     (let n = Suc (id_transaction ids)
      in (string_wrapper ''TransactionId'' (id_prefix ids @ ''-t-'' @ hex_nat n),
          ids\<lparr>id_transaction := n\<rparr>))"

section \<open>Channels\<close>

text \<open>
  The environment of the SDK's objects.  Channels are numbered; what lies behind them is \<open>'w\<close>.
  \<open>sent\<close> records the requests handed to a channel's \<open>exchange\<close>, in order, and \<open>closed\<close> the channels
  closed.  The clients of one process share its identity source.
\<close>

record 'w world =
  net :: 'w
  sent :: "(nat \<times> rpc_request) list"
  closed :: "nat list"
  identities :: identity_source

text \<open>The interface \<open>RpcChannel\<close>.\<close>

record 'w rpc_channel =
  op_exchange :: "nat \<Rightarrow> rpc_request \<Rightarrow> ('w, rpc_response) io"
  op_close :: "nat \<Rightarrow> 'w \<Rightarrow> 'w"

definition channel_exchange :: "'w rpc_channel \<Rightarrow> nat \<Rightarrow> rpc_request \<Rightarrow> ('w world, rpc_response) io" where
  "channel_exchange ops ch request w =
     (let (r, n) = op_exchange ops ch request (net w)
      in (r, w\<lparr>net := n, sent := sent w @ [(ch, request)]\<rparr>))"

text \<open>\<open>UnixRpcChannel.connect\<close> as the clients see it: it opens a new channel or raises.\<close>

definition channel_open :: "('w, nat) io \<Rightarrow> ('w world, nat) io" where
  "channel_open connect w = (let (r, n) = connect (net w) in (r, w\<lparr>net := n\<rparr>))"

definition channel_close :: "'w rpc_channel \<Rightarrow> nat \<Rightarrow> 'w world \<Rightarrow> 'w world" where
  "channel_close ops ch w = w\<lparr>net := op_close ops ch (net w), closed := closed w @ [ch]\<rparr>"

definition world_request_id :: "('w world, request_id) io" where
  "world_request_id w = (let (r, ids) = next_request_id (identities w) in (r, w\<lparr>identities := ids\<rparr>))"

definition world_transaction_id :: "('w world, transaction_id) io" where
  "world_transaction_id w =
     (let (r, ids) = next_transaction_id (identities w) in (r, w\<lparr>identities := ids\<rparr>))"

section \<open>Identities do not repeat\<close>

lemma hex_digit_inj: "a < 16 \<Longrightarrow> b < 16 \<Longrightarrow> hex_digit a = hex_digit b \<longleftrightarrow> a = b"
proof -
  have code: "of_char (hex_digit d) = (if d < 10 then 48 + d else 87 + d)" if "d < 16" for d
    using that by (simp add: hex_digit_def)
  assume ab: "a < 16" "b < 16"
  show ?thesis
  proof
    assume "hex_digit a = hex_digit b"
    then have "(of_char (hex_digit a) :: nat) = of_char (hex_digit b)" by simp
    then show "a = b" using ab by (simp add: code split: if_splits)
  qed simp
qed

lemma hex_nat_nonempty [simp]: "hex_nat n \<noteq> []" "[] \<noteq> hex_nat n"
  by (subst hex_nat.simps, simp)+

lemma hex_nat_inj: "hex_nat n = hex_nat k \<Longrightarrow> n = k"
proof (induction n arbitrary: k rule: hex_nat.induct)
  case (1 n)
  note eq = "1.prems" [unfolded hex_nat.simps [of n] hex_nat.simps [of k]]
  show ?case
  proof (cases "n < 16 \<or> k < 16")
    case True
    with eq show ?thesis by (auto simp: hex_digit_inj split: if_splits)
  next
    case False
    with eq have "hex_nat (n div 16) = hex_nat (k div 16)" "n mod 16 = k mod 16"
      by (auto simp: hex_digit_inj)
    with "1.IH" False have "n div 16 = k div 16" "n mod 16 = k mod 16" by auto
    then show ?thesis by (metis div_mult_mod_eq)
  qed
qed

text \<open>The identities a source issues over a number of calls, raised calls left out.\<close>

fun issued_request_ids :: "nat \<Rightarrow> identity_source \<Rightarrow> request_id list" where
  "issued_request_ids 0 ids = []"
| "issued_request_ids (Suc n) ids =
     (case next_request_id ids of
        (Inl _, ids') \<Rightarrow> issued_request_ids n ids'
      | (Inr r, ids') \<Rightarrow> r # issued_request_ids n ids')"

lemma string_wrapper_Inr: "string_wrapper cls v = Inr u \<Longrightarrow> u = v"
  by (auto simp: string_wrapper_def split: option.splits if_splits)

lemma issued_request_ids_later:
  "r \<in> set (issued_request_ids n ids) \<Longrightarrow>
     \<exists>k > id_request ids. r = id_prefix ids @ ''-r-'' @ hex_nat k"
proof (induction n arbitrary: ids)
  case 0
  then show ?case by simp
next
  case (Suc n)
  let ?next = "ids\<lparr>id_request := Suc (id_request ids)\<rparr>"
  from Suc.prems have "r = id_prefix ids @ ''-r-'' @ hex_nat (Suc (id_request ids))
      \<or> r \<in> set (issued_request_ids n ?next)"
    by (auto simp: next_request_id_def Let_def dest: string_wrapper_Inr split: sum.splits)
  then show ?case
    using Suc.IH [of ?next] by (auto dest: Suc_lessD)
qed

text \<open>
  Request identities do not repeat: over any number of calls a source issues each identity once,
  so a response can be matched to one request of the process.
\<close>

lemma issued_request_ids_distinct: "distinct (issued_request_ids n ids)"
proof (induction n arbitrary: ids)
  case 0
  show ?case by simp
next
  case (Suc n)
  let ?next = "ids\<lparr>id_request := Suc (id_request ids)\<rparr>"
  have "id_prefix ids @ ''-r-'' @ hex_nat (Suc (id_request ids)) \<notin> set (issued_request_ids n ?next)"
  proof
    assume "id_prefix ids @ ''-r-'' @ hex_nat (Suc (id_request ids)) \<in> set (issued_request_ids n ?next)"
    from issued_request_ids_later [OF this] obtain k where
      "k > Suc (id_request ids)" "hex_nat (Suc (id_request ids)) = hex_nat k" by auto
    then show False using hex_nat_inj by blast
  qed
  then show ?case
    using Suc.IH [of ?next]
    by (auto simp: next_request_id_def Let_def dest: string_wrapper_Inr split: sum.splits)
qed

section \<open>What an operation sends\<close>

text \<open>The requests handed to channels between two worlds all satisfy \<open>P\<close>.\<close>

definition sends_only :: "(rpc_request \<Rightarrow> bool) \<Rightarrow> 'w world \<Rightarrow> 'w world \<Rightarrow> bool" where
  "sends_only P w w' \<longleftrightarrow> (\<exists>xs. sent w' = sent w @ xs \<and> (\<forall>x \<in> set xs. P (snd x)))"

lemma sends_only_refl: "sends_only P w w"
  by (simp add: sends_only_def)

lemma sends_only_trans: "sends_only P w w' \<Longrightarrow> sends_only P w' w'' \<Longrightarrow> sends_only P w w''"
  by (force simp: sends_only_def)

interpretation traffic: step_relation "sends_only P" for P
  by unfold_locales (auto intro: sends_only_refl sends_only_trans)

lemma world_request_id_sent: "world_request_id w = (r, w') \<Longrightarrow> sent w' = sent w \<and> net w' = net w \<and> closed w' = closed w"
  by (auto simp: world_request_id_def Let_def split: prod.splits)

lemma world_transaction_id_sent:
  "world_transaction_id w = (r, w') \<Longrightarrow> sent w' = sent w \<and> net w' = net w \<and> closed w' = closed w"
  by (auto simp: world_transaction_id_def Let_def split: prod.splits)

lemma channel_exchange_run:
  "channel_exchange ops ch q w = (r, w') \<Longrightarrow>
     sent w' = sent w @ [(ch, q)] \<and> op_exchange ops ch q (net w) = (r, net w') \<and> closed w' = closed w"
  by (auto simp: channel_exchange_def Let_def split: prod.splits)

lemma ids_send_nothing: "keeps (sends_only P) world_request_id" "keeps (sends_only P) world_transaction_id"
  by (auto simp: keeps_def sends_only_def dest: world_request_id_sent world_transaction_id_sent)

lemma open_sends_nothing: "keeps (sends_only P) (channel_open connect)"
  by (auto simp: keeps_def sends_only_def channel_open_def Let_def split: prod.splits)

lemma exchange_sends: "P q \<Longrightarrow> keeps (sends_only P) (channel_exchange ops ch q)"
  by (auto simp: keeps_def sends_only_def dest: channel_exchange_run)

text \<open>
  How many of the requests an operation sends satisfy \<open>P\<close>: at most \<open>n\<close>, in every run.  \<open>snt\<close> reads
  the requests sent so far off the state.
\<close>

definition sends_at_most ::
  "('s \<Rightarrow> (nat \<times> rpc_request) list) \<Rightarrow> (rpc_request \<Rightarrow> bool) \<Rightarrow> nat \<Rightarrow> ('s, 'a) io \<Rightarrow> bool" where
  "sends_at_most snt P n m \<longleftrightarrow>
     (\<forall>s r t. m s = (r, t) \<longrightarrow> (\<exists>xs. snt t = snt s @ xs \<and> length (filter (\<lambda>x. P (snd x)) xs) \<le> n))"

lemma sends_at_most_bind:
  assumes "sends_at_most snt P n m" and "\<And>x. sends_at_most snt P k (f x)"
  shows "sends_at_most snt P (n + k) (io_bind m f)"
  unfolding sends_at_most_def
proof (intro allI impI)
  fix s r t
  assume run: "io_bind m f s = (r, t)"
  obtain q u where mq: "m s = (q, u)" by force
  then obtain xs where xs: "snt u = snt s @ xs" "length (filter (\<lambda>x. P (snd x)) xs) \<le> n"
    using assms(1) by (force simp: sends_at_most_def)
  show "\<exists>xs. snt t = snt s @ xs \<and> length (filter (\<lambda>x. P (snd x)) xs) \<le> n + k"
  proof (cases q)
    case (Inl e)
    with run mq xs show ?thesis by (intro exI [of _ xs]) auto
  next
    case (Inr x)
    then have "f x u = (r, t)" using run mq by simp
    then obtain ys where "snt t = snt u @ ys" "length (filter (\<lambda>x. P (snd x)) ys) \<le> k"
      using assms(2) by (force simp: sends_at_most_def)
    with xs show ?thesis by (intro exI [of _ "xs @ ys"]) auto
  qed
qed

lemma sends_at_most_catch:
  assumes "sends_at_most snt P n m" and "\<And>e. sends_at_most snt P k (h e)"
  shows "sends_at_most snt P (n + k) (io_catch m h)"
  unfolding sends_at_most_def
proof (intro allI impI)
  fix s r t
  assume run: "io_catch m h s = (r, t)"
  obtain q u where mq: "m s = (q, u)" by force
  then obtain xs where xs: "snt u = snt s @ xs" "length (filter (\<lambda>x. P (snd x)) xs) \<le> n"
    using assms(1) by (force simp: sends_at_most_def)
  show "\<exists>xs. snt t = snt s @ xs \<and> length (filter (\<lambda>x. P (snd x)) xs) \<le> n + k"
  proof (cases q)
    case (Inl e)
    then have "h e u = (r, t)" using run mq by (simp add: io_catch_def)
    then obtain ys where "snt t = snt u @ ys" "length (filter (\<lambda>x. P (snd x)) ys) \<le> k"
      using assms(2) by (force simp: sends_at_most_def)
    with xs show ?thesis by (intro exI [of _ "xs @ ys"]) auto
  next
    case (Inr x)
    with run mq xs show ?thesis by (intro exI [of _ xs]) (auto simp: io_catch_def)
  qed
qed

lemma sends_at_most_if:
  "sends_at_most snt P n m \<Longrightarrow> sends_at_most snt P n k \<Longrightarrow> sends_at_most snt P n (if b then m else k)"
  by simp

lemma sends_at_most_pure:
  "sends_at_most snt P n (io_return x)" "sends_at_most snt P n (io_raise e)" "sends_at_most snt P n (io_lift r)"
  by (simp_all add: sends_at_most_def)

lemma sends_at_most_mono: "sends_at_most snt P n m \<Longrightarrow> n \<le> k \<Longrightarrow> sends_at_most snt P k m"
  unfolding sends_at_most_def by (meson order_trans)

lemma sends_at_most_one:
  "sends_at_most sent P (Suc 0) (channel_exchange ops ch q)"
  by (auto simp: sends_at_most_def dest: channel_exchange_run)

lemma sends_at_most_none:
  assumes "keeps (sends_only (\<lambda>q. \<not> P q)) m"
  shows "sends_at_most sent P 0 m"
  unfolding sends_at_most_def
proof (intro allI impI)
  fix s r t
  assume "m s = (r, t)"
  then have "sends_only (\<lambda>q. \<not> P q) s t" by (rule keepsD [OF assms])
  then show "\<exists>xs. sent t = sent s @ xs \<and> length (filter (\<lambda>x. P (snd x)) xs) \<le> 0"
    by (auto simp: sends_only_def filter_empty_conv)
qed

section \<open>A scripted channel\<close>

text \<open>
  A concrete channel for examples: the answers are a list, one per exchange, and an exchange after
  the last one finds the connection closed.
\<close>

type_synonym answers = "(sdk_exn + rpc_response) list"

definition scripted :: "answers rpc_channel" where
  "scripted = \<lparr>op_exchange = (\<lambda>ch request script. case script of
       [] \<Rightarrow> (Inl (ConnectionClosed ''bridge closed an incomplete SDK frame''), [])
     | a # rest \<Rightarrow> (a, rest)),
     op_close = (\<lambda>ch script. script)\<rparr>"

definition scripted_world :: "answers \<Rightarrow> answers world" where
  "scripted_world script = \<lparr>net = script, sent = [], closed = [],
     identities = \<lparr>id_prefix = ''p'', id_request = 0, id_transaction = 0\<rparr>\<rparr>"

end
