(* ===== verification/Sdk_Client.thy ===== *)
theory Sdk_Client
  imports Sdk_Base
begin

text \<open>
  The protocol-5 client, \<open>src/sdk/python/hyperflux_sdk/client.py\<close>.

  A \<open>Client\<close> is its channel number, its client id and the bridge's hello; its identity source is the
  one of the world.  \<open>exchange_session\<close> is \<open>_exchange_session\<close>: the request class, the expected
  response class and the method name of the source are the arguments \<open>mk\<close>, \<open>proj\<close> and \<open>method_name\<close>.
\<close>

section \<open>Configuration and submission data\<close>

record client_config =
  cc_client_id :: client_id
  cc_client_name :: client_name
  cc_required_features :: "protocol_feature_id list"
  cc_optional_features :: "protocol_feature_id list"

record event_subscription =
  sub_subscription_id :: "subscription_id option"
  sub_expected_cursor :: "event_cursor option"
  sub_max_events :: event_batch_limit

record transaction_submission =
  ts_transaction_id :: transaction_id
  ts_lease_id :: lease_id
  ts_receiver_id :: receiver_id
  ts_generation_id :: generation_id
  ts_receiver_profile_id :: profile_id
  ts_receiver_profile_digest :: profile_digest
  ts_device_profiles :: "device_profile_binding list"
  ts_transaction_class :: transaction_class
  ts_stable_intents :: "stable_lighting_intent list"
  ts_deadline_ms :: monotonic_ms
  ts_resources :: "resource_key list"
  ts_frames :: "lighting_frame list"

record client =
  cl_channel :: nat
  cl_client_id :: client_id
  cl_hello :: server_hello

section \<open>Response checks\<close>

fun response_request_id :: "rpc_response \<Rightarrow> request_id option" where
  "response_request_id (RpcResponseError e) = ee_request_id e"
| "response_request_id (RpcResponseNegotiateSuccess r) = Some (se_request_id r)"
| "response_request_id (RpcResponseSnapshotSuccess r) = Some (se_request_id r)"
| "response_request_id (RpcResponseIntegrationViewSuccess r) = Some (se_request_id r)"
| "response_request_id (RpcResponseAcquireLeaseSuccess r) = Some (se_request_id r)"
| "response_request_id (RpcResponseRenewLeaseSuccess r) = Some (se_request_id r)"
| "response_request_id (RpcResponseReleaseLeaseSuccess r) = Some (se_request_id r)"
| "response_request_id (RpcResponseSubmitTransactionSuccess r) = Some (se_request_id r)"
| "response_request_id (RpcResponseTransactionOutcomeSuccess r) = Some (se_request_id r)"
| "response_request_id (RpcResponseSubscribeSuccess r) = Some (se_request_id r)"
| "response_request_id (RpcResponseDiagnosticsSuccess r) = Some (se_request_id r)"

definition validate_request_id :: "rpc_response \<Rightarrow> request_id \<Rightarrow> sdk_exn + unit" where
  "validate_request_id response expected =
     (if response_request_id response \<noteq> Some expected
      then Inl (ResponseMismatch ''bridge response does not match the SDK request identity'')
      else Inr ())"

fun server_instance :: "rpc_response \<Rightarrow> server_instance_id" where
  "server_instance (RpcResponseError e) = ee_server_instance_id e"
| "server_instance (RpcResponseNegotiateSuccess r) = se_server_instance_id r"
| "server_instance (RpcResponseSnapshotSuccess r) = se_server_instance_id r"
| "server_instance (RpcResponseIntegrationViewSuccess r) = se_server_instance_id r"
| "server_instance (RpcResponseAcquireLeaseSuccess r) = se_server_instance_id r"
| "server_instance (RpcResponseRenewLeaseSuccess r) = se_server_instance_id r"
| "server_instance (RpcResponseReleaseLeaseSuccess r) = se_server_instance_id r"
| "server_instance (RpcResponseSubmitTransactionSuccess r) = se_server_instance_id r"
| "server_instance (RpcResponseTransactionOutcomeSuccess r) = se_server_instance_id r"
| "server_instance (RpcResponseSubscribeSuccess r) = se_server_instance_id r"
| "server_instance (RpcResponseDiagnosticsSuccess r) = se_server_instance_id r"

definition bridge_error :: "error_envelope \<Rightarrow> sdk_exn" where
  "bridge_error e = BridgeError (re_message (ee_error e)) (re_finding_id (ee_error e))
     (protocol_error_kind_value (re_kind (ee_error e)))"

section \<open>Connecting\<close>

definition negotiate_request :: "client_config \<Rightarrow> request_id \<Rightarrow> rpc_request" where
  "negotiate_request config request_id = RpcRequestNegotiate
     \<lparr>nre_request_id = request_id,
      nre_params = \<lparr>ch_client_id = cc_client_id config, ch_client_name = cc_client_name config,
        ch_minimum_version = 5, ch_maximum_version = 5,
        ch_required_features = cc_required_features config,
        ch_optional_features = cc_optional_features config\<rparr>\<rparr>"

definition check_negotiation :: "client_config \<Rightarrow> request_id \<Rightarrow> rpc_response \<Rightarrow> sdk_exn + server_hello" where
  "check_negotiation config request_id response =
     rbind (validate_request_id response request_id) (\<lambda>_.
       case response of
         RpcResponseError e \<Rightarrow> Inl (bridge_error e)
       | RpcResponseNegotiateSuccess envelope \<Rightarrow>
           let hello = se_result envelope
           in if se_server_instance_id envelope \<noteq> sh_server_instance_id hello
                 \<or> sh_selected_version hello \<noteq> 5
                 \<or> list_ex (\<lambda>f. f \<notin> set (sh_enabled_features hello)) (cc_required_features config)
              then Inl (NegotiationError ''bridge returned an invalid protocol-v5 negotiation'')
              else Inr hello
       | _ \<Rightarrow> Inl (NegotiationError ''bridge returned an unexpected negotiation response''))"

definition client_connect :: "'w rpc_channel \<Rightarrow> nat \<Rightarrow> client_config \<Rightarrow> ('w world, client) io" where
  "client_connect ops ch config =
     io_bind world_request_id (\<lambda>request_id.
     io_bind (channel_exchange ops ch (negotiate_request config request_id)) (\<lambda>response.
     io_bind (io_lift (check_negotiation config request_id response)) (\<lambda>hello.
     io_return \<lparr>cl_channel = ch, cl_client_id = cc_client_id config, cl_hello = hello\<rparr>)))"

text \<open>
  \<open>connect_unix\<close>: \<open>open_channel\<close> is \<open>UnixRpcChannel.connect(channel_config)\<close>; a failure of the
  negotiation closes the channel and is raised again.
\<close>

definition client_connect_unix ::
  "'w rpc_channel \<Rightarrow> ('w, nat) io \<Rightarrow> client_config \<Rightarrow> ('w world, client) io" where
  "client_connect_unix ops open_channel config =
     io_bind (channel_open open_channel) (\<lambda>ch.
       io_catch (client_connect ops ch config) (\<lambda>e w. (Inl e, channel_close ops ch w)))"

section \<open>Session calls\<close>

definition session_envelope :: "client \<Rightarrow> 'p \<Rightarrow> request_id \<Rightarrow> 'p session_request_envelope" where
  "session_envelope cl params request_id =
     \<lparr>sre_request_id = request_id, sre_protocol_session_id = sh_protocol_session_id (cl_hello cl),
      sre_negotiation_token = sh_negotiation_token (cl_hello cl), sre_params = params\<rparr>"

definition check_session ::
  "client \<Rightarrow> (rpc_response \<Rightarrow> 'r success_envelope option) \<Rightarrow> string \<Rightarrow> request_id \<Rightarrow> rpc_response \<Rightarrow> sdk_exn + 'r"
where
  "check_session cl proj method_name request_id response =
     rbind (validate_request_id response request_id) (\<lambda>_.
       if server_instance response \<noteq> sh_server_instance_id (cl_hello cl)
       then Inl (ResponseMismatch ''bridge process identity changed; reconnect the SDK client'')
       else case response of
         RpcResponseError e \<Rightarrow> Inl (bridge_error e)
       | _ \<Rightarrow> (case proj response of
           None \<Rightarrow> Inl (UnexpectedResponse (''unexpected response to '' @ method_name))
         | Some envelope \<Rightarrow> Inr (se_result envelope)))"

definition exchange_session ::
  "'w rpc_channel \<Rightarrow> client \<Rightarrow> ('p session_request_envelope \<Rightarrow> rpc_request) \<Rightarrow> 'p
    \<Rightarrow> (rpc_response \<Rightarrow> 'r success_envelope option) \<Rightarrow> string \<Rightarrow> request_id \<Rightarrow> ('w world, 'r) io" where
  "exchange_session ops cl mk params proj method_name request_id =
     io_bind (channel_exchange ops (cl_channel cl) (mk (session_envelope cl params request_id)))
       (\<lambda>response. io_lift (check_session cl proj method_name request_id response))"

definition client_call ::
  "'w rpc_channel \<Rightarrow> client \<Rightarrow> ('p session_request_envelope \<Rightarrow> rpc_request) \<Rightarrow> 'p
    \<Rightarrow> (rpc_response \<Rightarrow> 'r success_envelope option) \<Rightarrow> string \<Rightarrow> ('w world, 'r) io" where
  "client_call ops cl mk params proj method_name =
     io_bind world_request_id (exchange_session ops cl mk params proj method_name)"

definition connection_epoch :: "client \<Rightarrow> int" where
  "connection_epoch cl = 1"

definition client_next_transaction_id :: "client \<Rightarrow> ('w world, transaction_id) io" where
  "client_next_transaction_id cl = world_transaction_id"

definition client_close :: "'w rpc_channel \<Rightarrow> client \<Rightarrow> 'w world \<Rightarrow> 'w world" where
  "client_close ops cl = channel_close ops (cl_channel cl)"

definition client_integration_view :: "'w rpc_channel \<Rightarrow> client \<Rightarrow> ('w world, integration_view) io" where
  "client_integration_view ops cl = client_call ops cl RpcRequestIntegrationView EmptyRequest
     (\<lambda>r. case r of RpcResponseIntegrationViewSuccess x \<Rightarrow> Some x | _ \<Rightarrow> None) ''integration-view''"

definition snapshot :: "'w rpc_channel \<Rightarrow> client \<Rightarrow> ('w world, bridge_snapshot) io" where
  "snapshot ops cl = client_call ops cl RpcRequestSnapshot EmptyRequest
     (\<lambda>r. case r of RpcResponseSnapshotSuccess x \<Rightarrow> Some x | _ \<Rightarrow> None) ''snapshot''"

definition diagnostics :: "'w rpc_channel \<Rightarrow> client \<Rightarrow> ('w world, diagnostic_snapshot) io" where
  "diagnostics ops cl = client_call ops cl RpcRequestDiagnostics EmptyRequest
     (\<lambda>r. case r of RpcResponseDiagnosticsSuccess x \<Rightarrow> Some x | _ \<Rightarrow> None) ''diagnostics''"

definition acquire_lease ::
  "'w rpc_channel \<Rightarrow> client \<Rightarrow> resource_key list \<Rightarrow> lease_duration_ms \<Rightarrow> ('w world, lease_result) io" where
  "acquire_lease ops cl resources duration_ms =
     io_bind world_request_id (\<lambda>request_id.
       exchange_session ops cl RpcRequestAcquireLease
         \<lparr>lr_request_id = request_id, lr_client_id = cl_client_id cl, lr_resources = resources,
          lr_duration_ms = duration_ms\<rparr>
         (\<lambda>r. case r of RpcResponseAcquireLeaseSuccess x \<Rightarrow> Some x | _ \<Rightarrow> None) ''acquire-lease'' request_id)"

definition renew_lease ::
  "'w rpc_channel \<Rightarrow> client \<Rightarrow> lease_id \<Rightarrow> lease_duration_ms \<Rightarrow> ('w world, lease_result) io" where
  "renew_lease ops cl lease_id duration_ms =
     io_bind world_request_id (\<lambda>request_id.
       exchange_session ops cl RpcRequestRenewLease
         \<lparr>rnl_request_id = request_id, rnl_client_id = cl_client_id cl, rnl_lease_id = lease_id,
          rnl_duration_ms = duration_ms\<rparr>
         (\<lambda>r. case r of RpcResponseRenewLeaseSuccess x \<Rightarrow> Some x | _ \<Rightarrow> None) ''renew-lease'' request_id)"

definition release_lease :: "'w rpc_channel \<Rightarrow> client \<Rightarrow> lease_id \<Rightarrow> ('w world, lease_result) io" where
  "release_lease ops cl lease_id =
     io_bind world_request_id (\<lambda>request_id.
       exchange_session ops cl RpcRequestReleaseLease
         \<lparr>rll_request_id = request_id, rll_client_id = cl_client_id cl, rll_lease_id = lease_id\<rparr>
         (\<lambda>r. case r of RpcResponseReleaseLeaseSuccess x \<Rightarrow> Some x | _ \<Rightarrow> None) ''release-lease'' request_id)"

definition transaction_request_of :: "client \<Rightarrow> request_id \<Rightarrow> transaction_submission \<Rightarrow> transaction_request" where
  "transaction_request_of cl request_id submission =
     \<lparr>tr_request_id = request_id, tr_transaction_id = ts_transaction_id submission,
      tr_client_id = cl_client_id cl, tr_lease_id = ts_lease_id submission,
      tr_receiver_id = ts_receiver_id submission, tr_generation_id = ts_generation_id submission,
      tr_receiver_profile_id = ts_receiver_profile_id submission,
      tr_receiver_profile_digest = ts_receiver_profile_digest submission,
      tr_device_profiles = ts_device_profiles submission,
      tr_transaction_class = ts_transaction_class submission,
      tr_stable_intents = ts_stable_intents submission, tr_deadline_ms = ts_deadline_ms submission,
      tr_resources = ts_resources submission, tr_frames = ts_frames submission\<rparr>"

definition submit_transaction ::
  "'w rpc_channel \<Rightarrow> client \<Rightarrow> transaction_submission \<Rightarrow> ('w world, transaction_result) io" where
  "submit_transaction ops cl submission =
     io_bind world_request_id (\<lambda>request_id.
       exchange_session ops cl RpcRequestSubmitTransaction (transaction_request_of cl request_id submission)
         (\<lambda>r. case r of RpcResponseSubmitTransactionSuccess x \<Rightarrow> Some x | _ \<Rightarrow> None)
         ''submit-transaction'' request_id)"

definition transaction_outcome ::
  "'w rpc_channel \<Rightarrow> client \<Rightarrow> transaction_id \<Rightarrow> ('w world, transaction_result) io" where
  "transaction_outcome ops cl transaction_id =
     io_bind world_request_id (\<lambda>request_id.
       exchange_session ops cl RpcRequestTransactionOutcome
         \<lparr>tl_request_id = request_id, tl_client_id = cl_client_id cl, tl_transaction_id = transaction_id\<rparr>
         (\<lambda>r. case r of RpcResponseTransactionOutcomeSuccess x \<Rightarrow> Some x | _ \<Rightarrow> None)
         ''transaction-outcome'' request_id)"

definition subscribe :: "'w rpc_channel \<Rightarrow> client \<Rightarrow> event_subscription \<Rightarrow> ('w world, event_batch) io" where
  "subscribe ops cl subscription =
     io_bind world_request_id (\<lambda>request_id.
       exchange_session ops cl RpcRequestSubscribe
         \<lparr>sr_client_id = cl_client_id cl, sr_subscription_id = sub_subscription_id subscription,
          sr_expected_cursor = sub_expected_cursor subscription,
          sr_max_events = sub_max_events subscription\<rparr>
         (\<lambda>r. case r of RpcResponseSubscribeSuccess x \<Rightarrow> Some x | _ \<Rightarrow> None) ''subscribe'' request_id)"

section \<open>Which requests the operations send\<close>

lemma exchange_session_sends:
  "P (mk (session_envelope cl params rid)) \<Longrightarrow>
     keeps (sends_only P) (exchange_session ops cl mk params proj name rid)"
  unfolding exchange_session_def
  by (intro traffic.bind_keeps traffic.lift_keeps exchange_sends)

definition negotiates :: "rpc_request \<Rightarrow> bool" where
  "negotiates q = (case q of RpcRequestNegotiate _ \<Rightarrow> True | _ \<Rightarrow> False)"

definition submits :: "rpc_request \<Rightarrow> bool" where
  "submits q = (case q of RpcRequestSubmitTransaction _ \<Rightarrow> True | _ \<Rightarrow> False)"

lemma client_connect_sends:
  assumes "\<And>rid. P (negotiate_request config rid)"
  shows "keeps (sends_only P) (client_connect ops ch config)"
  unfolding client_connect_def
  by (intro traffic.bind_keeps traffic.return_keeps traffic.lift_keeps exchange_sends
      ids_send_nothing assms)

lemma closing_sends_nothing: "keeps (sends_only P) (\<lambda>w. (r, channel_close ops ch w))"
  by (simp add: keeps_def sends_only_def channel_close_def)

lemma client_connect_unix_sends:
  assumes "\<And>rid. P (negotiate_request config rid)"
  shows "keeps (sends_only P) (client_connect_unix ops open_channel config)"
  unfolding client_connect_unix_def
  by (intro traffic.bind_keeps traffic.catch_keeps client_connect_sends closing_sends_nothing
      open_sends_nothing assms)

lemma operations_send_no_submit:
  "keeps (sends_only (\<lambda>q. \<not> submits q)) (client_integration_view ops cl)"
  "keeps (sends_only (\<lambda>q. \<not> submits q)) (snapshot ops cl)"
  "keeps (sends_only (\<lambda>q. \<not> submits q)) (diagnostics ops cl)"
  "keeps (sends_only (\<lambda>q. \<not> submits q)) (acquire_lease ops cl rs d)"
  "keeps (sends_only (\<lambda>q. \<not> submits q)) (renew_lease ops cl l d)"
  "keeps (sends_only (\<lambda>q. \<not> submits q)) (release_lease ops cl l)"
  "keeps (sends_only (\<lambda>q. \<not> submits q)) (transaction_outcome ops cl t)"
  "keeps (sends_only (\<lambda>q. \<not> submits q)) (subscribe ops cl sub)"
  unfolding client_integration_view_def snapshot_def diagnostics_def client_call_def acquire_lease_def
    renew_lease_def release_lease_def transaction_outcome_def subscribe_def
  by (intro traffic.bind_keeps ids_send_nothing exchange_session_sends; simp add: submits_def)+

lemma exchange_session_once: "sends_at_most sent P (Suc 0) (exchange_session ops cl mk params proj name rid)"
proof -
  have "sends_at_most sent P (Suc 0 + 0) (exchange_session ops cl mk params proj name rid)"
    unfolding exchange_session_def by (intro sends_at_most_bind sends_at_most_one sends_at_most_pure)
  then show ?thesis by simp
qed

lemma request_once:
  assumes "\<And>rid. sends_at_most sent P n (f rid)"
  shows "sends_at_most sent P n (io_bind world_request_id f)"
proof -
  have "sends_at_most sent P (0 + n) (io_bind world_request_id f)"
    by (intro sends_at_most_bind sends_at_most_none ids_send_nothing assms)
  then show ?thesis by simp
qed

lemma operations_send_one:
  "sends_at_most sent P (Suc 0) (client_integration_view ops cl)"
  "sends_at_most sent P (Suc 0) (snapshot ops cl)"
  "sends_at_most sent P (Suc 0) (diagnostics ops cl)"
  "sends_at_most sent P (Suc 0) (acquire_lease ops cl rs d)"
  "sends_at_most sent P (Suc 0) (renew_lease ops cl l d)"
  "sends_at_most sent P (Suc 0) (release_lease ops cl l)"
  "sends_at_most sent P (Suc 0) (transaction_outcome ops cl t)"
  "sends_at_most sent P (Suc 0) (subscribe ops cl sub)"
  "sends_at_most sent P (Suc 0) (submit_transaction ops cl submission)"
  unfolding client_integration_view_def snapshot_def diagnostics_def client_call_def acquire_lease_def
    renew_lease_def release_lease_def transaction_outcome_def subscribe_def submit_transaction_def
  by (rule request_once, rule exchange_session_once)+

section \<open>Properties\<close>

lemma check_session_Inr:
  "check_session cl proj name rid resp = Inr x \<longleftrightarrow>
     response_request_id resp = Some rid \<and> server_instance resp = sh_server_instance_id (cl_hello cl)
     \<and> (\<forall>e. resp \<noteq> RpcResponseError e) \<and> (\<exists>env. proj resp = Some env \<and> x = se_result env)"
  by (auto simp: check_session_def validate_request_id_def split: rpc_response.splits option.splits)

lemma exchange_session_Inr:
  assumes "exchange_session ops cl mk params proj name rid w = (Inr x, w')"
  shows "\<exists>resp env. op_exchange ops (cl_channel cl) (mk (session_envelope cl params rid)) (net w) = (Inr resp, net w')
    \<and> response_request_id resp = Some rid \<and> server_instance resp = sh_server_instance_id (cl_hello cl)
    \<and> proj resp = Some env \<and> x = se_result env
    \<and> sent w' = sent w @ [(cl_channel cl, mk (session_envelope cl params rid))]"
  using assms
  by (auto simp: exchange_session_def io_bind_Inr check_session_Inr dest!: channel_exchange_run)

text \<open>Concrete values for the examples below.\<close>

definition ex_hello :: server_hello where
  "ex_hello = \<lparr>sh_selected_version = 5, sh_server_instance_id = ''srv'', sh_protocol_session_id = ''ses'',
     sh_negotiation_token = ''tok'', sh_bridge_version = ''1'', sh_enabled_features = [''lighting''],
     sh_event_buffer_capacity = 16\<rparr>"

definition ex_config :: client_config where
  "ex_config = \<lparr>cc_client_id = ''cli'', cc_client_name = ''client'', cc_required_features = [''lighting''],
     cc_optional_features = []\<rparr>"

definition ex_client :: client where
  "ex_client = \<lparr>cl_channel = 0, cl_client_id = ''cli'', cl_hello = ex_hello\<rparr>"

definition ex_success :: "string \<Rightarrow> 'a \<Rightarrow> 'a success_envelope" where
  "ex_success rid x = \<lparr>se_request_id = rid, se_server_instance_id = ''srv'', se_result = x\<rparr>"

definition ex_unavailable :: transaction_result where
  "ex_unavailable = TransactionResultUnavailable \<lparr>tu_transaction_id = ''p-t-1'',
     tu_error_kind = ProtocolErrorKind_OUTCOME_UNKNOWN, tu_finding_id = ''HFX-OUTCOME-001''\<rparr>"

definition ex_submission :: transaction_submission where
  "ex_submission = \<lparr>ts_transaction_id = ''p-t-1'', ts_lease_id = ''lease'', ts_receiver_id = ''rx'',
     ts_generation_id = 1, ts_receiver_profile_id = ''rp'', ts_receiver_profile_digest = ''rd'',
     ts_device_profiles = [], ts_transaction_class = TransactionClass_EFFECT_FRAME, ts_stable_intents = [],
     ts_deadline_ms = 100, ts_resources = [], ts_frames = []\<rparr>"

lemma ex_connect:
  "client_connect scripted 0 ex_config (scripted_world [Inr (RpcResponseNegotiateSuccess (ex_success ''p-r-1'' ex_hello))])
     = (Inr ex_client, (scripted_world [])\<lparr>sent := [(0, negotiate_request ex_config ''p-r-1'')],
         identities := \<lparr>id_prefix = ''p'', id_request = 1, id_transaction = 0\<rparr>\<rparr>)"
  by code_simp

lemma ex_submit:
  "submit_transaction scripted ex_client ex_submission
     (scripted_world [Inr (RpcResponseSubmitTransactionSuccess (ex_success ''p-r-1'' ex_unavailable))])
     = (Inr ex_unavailable, (scripted_world [])\<lparr>
         sent := [(0, RpcRequestSubmitTransaction (session_envelope ex_client
            (transaction_request_of ex_client ''p-r-1'' ex_submission) ''p-r-1''))],
         identities := \<lparr>id_prefix = ''p'', id_request = 1, id_transaction = 0\<rparr>\<rparr>)"
  by code_simp

lemma ex_connect_fails:
  "channel_open (\<lambda>n. (Inr 3, n)) (scripted_world []) = (Inr 3, scripted_world [])"
  "client_connect_unix scripted (\<lambda>n. (Inr 3, n)) ex_config (scripted_world [])
     = (Inl (ConnectionClosed ''bridge closed an incomplete SDK frame''),
        (scripted_world [])\<lparr>sent := [(3, negotiate_request ex_config ''p-r-1'')], closed := [3],
          identities := \<lparr>id_prefix = ''p'', id_request = 1, id_transaction = 0\<rparr>\<rparr>)"
  by code_simp+

text \<open>
  C17. A transaction result comes from the bridge process the client negotiated with and answers
  this very submission: the call sends exactly one request, which carries the session id and the
  negotiation token of the handshake, the fresh request id and the submission's content, and the
  result is the one in a submit-transaction success bound to that request id and server instance.
\<close>

theorem submit_result_is_bound:
  assumes "submit_transaction ops cl sub w = (Inr x, w')"
  shows "\<exists>rid env req resp.
    fst (next_request_id (identities w)) = Inr rid
    \<and> sent w' = sent w @ [(cl_channel cl, RpcRequestSubmitTransaction req)]
    \<and> sre_protocol_session_id req = sh_protocol_session_id (cl_hello cl)
    \<and> sre_negotiation_token req = sh_negotiation_token (cl_hello cl)
    \<and> sre_request_id req = rid \<and> sre_params req = transaction_request_of cl rid sub
    \<and> fst (op_exchange ops (cl_channel cl) (RpcRequestSubmitTransaction req) (net w)) = Inr resp
    \<and> resp = RpcResponseSubmitTransactionSuccess env \<and> se_request_id env = rid
    \<and> se_server_instance_id env = sh_server_instance_id (cl_hello cl) \<and> se_result env = x"
proof -
  obtain rid u where rid: "world_request_id w = (Inr rid, u)"
    and run: "exchange_session ops cl RpcRequestSubmitTransaction (transaction_request_of cl rid sub)
         (\<lambda>r. case r of RpcResponseSubmitTransactionSuccess x \<Rightarrow> Some x | _ \<Rightarrow> None)
         ''submit-transaction'' rid u = (Inr x, w')"
    using assms by (auto simp: submit_transaction_def io_bind_Inr)
  have "fst (next_request_id (identities w)) = Inr rid"
    using rid by (auto simp: world_request_id_def Let_def split: prod.splits)
  moreover obtain resp env where bound:
      "op_exchange ops (cl_channel cl) (RpcRequestSubmitTransaction
         (session_envelope cl (transaction_request_of cl rid sub) rid)) (net u) = (Inr resp, net w')"
      "response_request_id resp = Some rid" "server_instance resp = sh_server_instance_id (cl_hello cl)"
      "(case resp of RpcResponseSubmitTransactionSuccess x \<Rightarrow> Some x | _ \<Rightarrow> None) = Some env"
      "x = se_result env" "sent w' = sent u @ [(cl_channel cl, RpcRequestSubmitTransaction
         (session_envelope cl (transaction_request_of cl rid sub) rid))]"
    using exchange_session_Inr [OF run] by blast
  moreover have "resp = RpcResponseSubmitTransactionSuccess env"
    using bound(4) by (simp split: rpc_response.splits)
  ultimately show ?thesis
    using world_request_id_sent [OF rid]
    by (intro exI [of _ rid] exI [of _ env] exI [of _ "session_envelope cl (transaction_request_of cl rid sub) rid"]
        exI [of _ resp]) (simp add: session_envelope_def)
qed

theorem submit_result_is_bound_witness:
  "\<exists>w x w' (env :: transaction_result success_envelope) req. submit_transaction scripted ex_client ex_submission w = (Inr x, w')
     \<and> sent w' = sent w @ [(cl_channel ex_client, RpcRequestSubmitTransaction req)]
     \<and> sre_negotiation_token req = sh_negotiation_token (cl_hello ex_client)
     \<and> se_server_instance_id env = sh_server_instance_id (cl_hello ex_client) \<and> se_result env = x"
  using submit_result_is_bound [OF ex_submit]
  by (elim exE conjE) (intro exI conjI, rule ex_submit, assumption+)

text \<open>
  C18. A client exists only after a valid negotiation: protocol 5 selected, every required feature
  enabled, the hello sent by the instance that answered, and nothing but the negotiation sent.
\<close>

theorem connect_negotiates:
  assumes "client_connect ops ch config w = (Inr cl, w')"
  shows "sh_selected_version (cl_hello cl) = 5
    \<and> set (cc_required_features config) \<subseteq> set (sh_enabled_features (cl_hello cl))
    \<and> cl_channel cl = ch \<and> cl_client_id cl = cc_client_id config
    \<and> (\<exists>rid env. sent w' = sent w @ [(ch, negotiate_request config rid)]
         \<and> fst (op_exchange ops ch (negotiate_request config rid) (net w))
             = Inr (RpcResponseNegotiateSuccess env)
         \<and> se_request_id env = rid \<and> se_result env = cl_hello cl
         \<and> se_server_instance_id env = sh_server_instance_id (cl_hello cl))"
proof -
  obtain rid u resp v where steps: "world_request_id w = (Inr rid, u)"
      "channel_exchange ops ch (negotiate_request config rid) u = (Inr resp, v)"
      "check_negotiation config rid resp = Inr (cl_hello cl)"
      "cl_channel cl = ch" "cl_client_id cl = cc_client_id config" "w' = v"
    using assms by (auto simp: client_connect_def io_bind_Inr)
  from steps(3) obtain env where env: "resp = RpcResponseNegotiateSuccess env" "se_request_id env = rid"
      "se_result env = cl_hello cl" "se_server_instance_id env = sh_server_instance_id (cl_hello cl)"
      "sh_selected_version (cl_hello cl) = 5"
      "set (cc_required_features config) \<subseteq> set (sh_enabled_features (cl_hello cl))"
    by (auto simp: check_negotiation_def validate_request_id_def Let_def list_ex_iff
        split: rpc_response.splits if_splits)
  show ?thesis
    using env steps(4-) world_request_id_sent [OF steps(1)] channel_exchange_run [OF steps(2)]
    by auto
qed

theorem connect_negotiates_witness:
  "\<exists>w cl w'. client_connect scripted 0 ex_config w = (Inr cl, w') \<and> sh_selected_version (cl_hello cl) = 5
     \<and> set (cc_required_features ex_config) \<subseteq> set (sh_enabled_features (cl_hello cl))"
  using connect_negotiates [OF ex_connect] ex_connect by blast

text \<open>
  A failed negotiation does not leak its channel: when \<open>connect_unix\<close> opened a channel and then
  raises, for any exception, that channel has been closed.
\<close>

lemma connect_unix_closes_on_failure:
  assumes "channel_open open_channel w = (Inr ch, u)" and "client_connect_unix ops open_channel config w = (Inl e, w')"
  shows "ch \<in> set (closed w')"
  using assms
  by (auto simp: client_connect_unix_def io_catch_def channel_close_def split: prod.splits sum.splits)

end
