(* ===== verification/Sdk_Recovery.thy ===== *)
theory Sdk_Recovery
  imports Sdk_Client
begin

text \<open>
  The reconnecting client, \<open>src/sdk/python/hyperflux_sdk/recovery.py\<close>.

  The state is the live client, if any, the connection epoch and the world.  \<open>factory\<close> is
  \<open>ClientFactory.connect\<close>; \<open>unix_client_factory\<close> is the one the module provides.  The methods hold
  one re-entrant lock throughout, so each is one step of the state.
\<close>

section \<open>State\<close>

record 'w recovering_client =
  rc_connection :: "client option"
  rc_epoch :: int
  rc_world :: "'w world"

definition MAX_CONNECTION_EPOCH :: int where
  "MAX_CONNECTION_EPOCH = 2 ^ 64 - 1"

definition is_connection_error :: "sdk_exn \<Rightarrow> bool" where
  "is_connection_error e = (case e of
     CodecError _ \<Rightarrow> True | FramingError _ \<Rightarrow> True | ConnectionClosed _ \<Rightarrow> True
   | ResponseMismatch _ \<Rightarrow> True | _ \<Rightarrow> False)"

definition unix_client_factory ::
  "'w rpc_channel \<Rightarrow> ('w, nat) io \<Rightarrow> client_config \<Rightarrow> ('w world, client) io" where
  "unix_client_factory ops open_channel config = client_connect_unix ops open_channel config"

definition on_world :: "('w world, 'a) io \<Rightarrow> ('w recovering_client, 'a) io" where
  "on_world m rc = (let (r, w) = m (rc_world rc) in (r, rc\<lparr>rc_world := w\<rparr>))"

section \<open>Connecting\<close>

definition advance_epoch :: "('w recovering_client, unit) io" where
  "advance_epoch rc =
     (if rc_epoch rc = MAX_CONNECTION_EPOCH
      then (Inl (OverflowError ''SDK connection epoch is exhausted''), rc)
      else (Inr (), rc\<lparr>rc_epoch := rc_epoch rc + 1\<rparr>))"

definition drop_connection :: "'w rpc_channel \<Rightarrow> ('w recovering_client, unit) io" where
  "drop_connection ops rc =
     (case rc_connection rc of
        None \<Rightarrow> (Inr (), rc)
      | Some c \<Rightarrow> (Inr (), rc\<lparr>rc_world := client_close ops c (rc_world rc), rc_connection := None\<rparr>))"

definition install_connection :: "client \<Rightarrow> ('w recovering_client, client) io" where
  "install_connection candidate rc = (Inr candidate, rc\<lparr>rc_connection := Some candidate\<rparr>)"

definition reconnect ::
  "'w rpc_channel \<Rightarrow> ('w world, client) io \<Rightarrow> ('w recovering_client, client) io" where
  "reconnect ops factory =
     io_bind (drop_connection ops) (\<lambda>_.
     io_bind advance_epoch (\<lambda>_.
     io_bind (on_world factory) install_connection))"

definition ensure_connected ::
  "'w rpc_channel \<Rightarrow> ('w world, client) io \<Rightarrow> ('w recovering_client, client) io" where
  "ensure_connected ops factory rc =
     (case rc_connection rc of None \<Rightarrow> reconnect ops factory rc | Some c \<Rightarrow> (Inr c, rc))"

definition recovering_init ::
  "'w rpc_channel \<Rightarrow> ('w world, client) io \<Rightarrow> bool \<Rightarrow> 'w world \<Rightarrow> (sdk_exn + unit) \<times> 'w recovering_client" where
  "recovering_init ops factory connect_immediately w =
     (let rc = \<lparr>rc_connection = None, rc_epoch = 0, rc_world = w\<rparr>
      in if connect_immediately then io_bind (reconnect ops factory) (\<lambda>_. io_return ()) rc
         else (Inr (), rc))"

definition recovering_close :: "'w rpc_channel \<Rightarrow> 'w recovering_client \<Rightarrow> 'w recovering_client" where
  "recovering_close ops rc =
     (case rc_connection rc of
        None \<Rightarrow> rc
      | Some c \<Rightarrow>
          let rc1 = rc\<lparr>rc_world := client_close ops c (rc_world rc), rc_connection := None\<rparr>
          in if rc_epoch rc1 < MAX_CONNECTION_EPOCH then rc1\<lparr>rc_epoch := rc_epoch rc1 + 1\<rparr> else rc1)"

section \<open>Reads, lease calls and writes\<close>

definition retry_read ::
  "'w rpc_channel \<Rightarrow> ('w world, client) io \<Rightarrow> (client \<Rightarrow> ('w world, 'a) io) \<Rightarrow> ('w recovering_client, 'a) io"
where
  "retry_read ops factory operation =
     io_bind (ensure_connected ops factory) (\<lambda>c.
       io_catch (on_world (operation c)) (\<lambda>e.
         if is_connection_error e then io_bind (reconnect ops factory) (\<lambda>c'. on_world (operation c'))
         else io_raise e))"

definition r_integration_view :: "'w rpc_channel \<Rightarrow> ('w world, client) io \<Rightarrow> ('w recovering_client, integration_view) io" where
  "r_integration_view ops factory = retry_read ops factory (client_integration_view ops)"

definition r_snapshot :: "'w rpc_channel \<Rightarrow> ('w world, client) io \<Rightarrow> ('w recovering_client, bridge_snapshot) io" where
  "r_snapshot ops factory = retry_read ops factory (snapshot ops)"

definition r_diagnostics :: "'w rpc_channel \<Rightarrow> ('w world, client) io \<Rightarrow> ('w recovering_client, diagnostic_snapshot) io" where
  "r_diagnostics ops factory = retry_read ops factory (diagnostics ops)"

definition r_next_transaction_id :: "'w rpc_channel \<Rightarrow> ('w world, client) io \<Rightarrow> ('w recovering_client, transaction_id) io" where
  "r_next_transaction_id ops factory = retry_read ops factory client_next_transaction_id"

definition r_acquire_lease ::
  "'w rpc_channel \<Rightarrow> ('w world, client) io \<Rightarrow> resource_key list \<Rightarrow> lease_duration_ms
    \<Rightarrow> ('w recovering_client, lease_result) io" where
  "r_acquire_lease ops factory resources duration_ms =
     retry_read ops factory (\<lambda>c. acquire_lease ops c resources duration_ms)"

definition lease_call ::
  "'w rpc_channel \<Rightarrow> ('w world, client) io \<Rightarrow> (client \<Rightarrow> ('w world, lease_result) io)
    \<Rightarrow> ('w recovering_client, lease_result) io" where
  "lease_call ops factory operation =
     io_bind (ensure_connected ops factory) (\<lambda>c.
       io_catch (on_world (operation c)) (\<lambda>e.
         if is_connection_error e
         then io_bind (reconnect ops factory) (\<lambda>_.
           io_raise (SessionInactive ''the bridge connection changed and invalidated the lighting lease''))
         else io_raise e))"

definition r_renew_lease ::
  "'w rpc_channel \<Rightarrow> ('w world, client) io \<Rightarrow> lease_id \<Rightarrow> lease_duration_ms
    \<Rightarrow> ('w recovering_client, lease_result) io" where
  "r_renew_lease ops factory lease_id duration_ms =
     lease_call ops factory (\<lambda>c. renew_lease ops c lease_id duration_ms)"

definition r_release_lease ::
  "'w rpc_channel \<Rightarrow> ('w world, client) io \<Rightarrow> lease_id \<Rightarrow> ('w recovering_client, lease_result) io" where
  "r_release_lease ops factory lease_id = lease_call ops factory (\<lambda>c. release_lease ops c lease_id)"

definition unknown_outcome :: "transaction_id \<Rightarrow> transaction_result" where
  "unknown_outcome transaction_id = TransactionResultUnavailable
     \<lparr>tu_transaction_id = transaction_id, tu_error_kind = ProtocolErrorKind_OUTCOME_UNKNOWN,
      tu_finding_id = ''HFX-OUTCOME-001''\<rparr>"

definition r_submit_transaction ::
  "'w rpc_channel \<Rightarrow> ('w world, client) io \<Rightarrow> transaction_submission
    \<Rightarrow> ('w recovering_client, transaction_result) io" where
  "r_submit_transaction ops factory submission =
     io_bind (ensure_connected ops factory) (\<lambda>c.
       io_catch (on_world (submit_transaction ops c submission)) (\<lambda>e.
         if is_connection_error e
         then io_catch
           (io_bind (reconnect ops factory) (\<lambda>c'.
              on_world (transaction_outcome ops c' (ts_transaction_id submission))))
           (\<lambda>e'. if is_sdk_error e' then io_return (unknown_outcome (ts_transaction_id submission))
                 else io_raise e')
         else io_raise e))"

definition r_transaction_outcome ::
  "'w rpc_channel \<Rightarrow> ('w world, client) io \<Rightarrow> transaction_id \<Rightarrow> ('w recovering_client, transaction_result) io" where
  "r_transaction_outcome ops factory transaction_id =
     retry_read ops factory (\<lambda>c. transaction_outcome ops c transaction_id)"

definition r_subscribe ::
  "'w rpc_channel \<Rightarrow> ('w world, client) io \<Rightarrow> event_subscription \<Rightarrow> ('w recovering_client, event_batch) io" where
  "r_subscribe ops factory subscription =
     io_bind (ensure_connected ops factory) (\<lambda>c.
       io_catch (on_world (subscribe ops c subscription)) (\<lambda>e.
         if is_connection_error e
         then io_bind (reconnect ops factory) (\<lambda>c'.
           io_bind (on_world (subscribe ops c' \<lparr>sub_subscription_id = None, sub_expected_cursor = None,
               sub_max_events = sub_max_events subscription\<rparr>)) (\<lambda>fresh.
             io_return (fresh\<lparr>eb_cursor_gap := True, eb_has_more := False\<rparr>)))
         else io_raise e))"

section \<open>The epoch identifies the connection\<close>

text \<open>
  Between two states the epoch does not go down, stays within 64 bits, and as long as it is the
  same the connection is the same, or has been dropped for good with the epochs used up.
\<close>

definition epoch_rel :: "'w recovering_client \<Rightarrow> 'w recovering_client \<Rightarrow> bool" where
  "epoch_rel rc rc' \<longleftrightarrow>
     rc_epoch rc \<le> rc_epoch rc'
     \<and> (rc_epoch rc \<le> MAX_CONNECTION_EPOCH \<longrightarrow> rc_epoch rc' \<le> MAX_CONNECTION_EPOCH)
     \<and> (rc_epoch rc' = rc_epoch rc \<longrightarrow> rc_connection rc' = rc_connection rc
          \<or> rc_epoch rc = MAX_CONNECTION_EPOCH \<and> rc_connection rc' = None)"

interpretation epoch: step_relation epoch_rel
  by unfold_locales (auto simp: epoch_rel_def)

lemma on_world_epoch: "keeps epoch_rel (on_world m)"
  by (auto simp: keeps_def on_world_def epoch_rel_def Let_def split: prod.splits)

text \<open>
  \<open>_reconnect\<close> as a whole; its parts alone do not keep the relation, since installing a connection
  is covered by the epoch advanced before.
\<close>

lemma reconnect_epoch: "keeps epoch_rel (reconnect ops factory)"
  by (auto simp: keeps_def reconnect_def drop_connection_def advance_epoch_def on_world_def
      install_connection_def epoch_rel_def io_bind_def Let_def split: prod.splits sum.splits option.splits if_splits)

lemma ensure_connected_epoch: "keeps epoch_rel (ensure_connected ops factory)"
  using reconnect_epoch [of ops factory]
  by (auto simp: keeps_def ensure_connected_def epoch.refl split: option.splits)

lemmas epoch_intros = epoch.bind_keeps epoch.catch_keeps epoch.if_keeps epoch.return_keeps
  epoch.raise_keeps on_world_epoch reconnect_epoch ensure_connected_epoch

lemma retry_read_epoch: "keeps epoch_rel (retry_read ops factory operation)"
  unfolding retry_read_def by (intro epoch_intros)

lemma lease_call_epoch: "keeps epoch_rel (lease_call ops factory operation)"
  unfolding lease_call_def by (intro epoch_intros)

lemma submit_epoch: "keeps epoch_rel (r_submit_transaction ops factory submission)"
  unfolding r_submit_transaction_def by (intro epoch_intros)

lemma subscribe_epoch: "keeps epoch_rel (r_subscribe ops factory subscription)"
  unfolding r_subscribe_def by (intro epoch_intros)

lemma close_epoch: "rc_epoch rc \<le> MAX_CONNECTION_EPOCH \<Longrightarrow> epoch_rel rc (recovering_close ops rc)"
  by (auto simp: recovering_close_def epoch_rel_def Let_def split: option.splits)

section \<open>Traffic\<close>

definition rc_sends_only :: "(rpc_request \<Rightarrow> bool) \<Rightarrow> 'w recovering_client \<Rightarrow> 'w recovering_client \<Rightarrow> bool" where
  "rc_sends_only P rc rc' \<longleftrightarrow> sends_only P (rc_world rc) (rc_world rc')"

interpretation rc_traffic: step_relation "rc_sends_only P" for P
  by unfold_locales (auto simp: rc_sends_only_def intro: sends_only_refl sends_only_trans)

lemma on_world_sends: "keeps (sends_only P) m \<Longrightarrow> keeps (rc_sends_only P) (on_world m)"
  by (auto simp: keeps_def on_world_def rc_sends_only_def Let_def split: prod.splits)

lemma reconnect_sends:
  assumes "keeps (sends_only P) factory"
  shows "keeps (rc_sends_only P) (reconnect ops factory)"
  unfolding reconnect_def
proof (intro rc_traffic.bind_keeps on_world_sends assms)
  show "keeps (rc_sends_only P) (drop_connection ops)"
    by (auto simp: keeps_def drop_connection_def rc_sends_only_def client_close_def channel_close_def
        sends_only_def split: option.splits)
  show "keeps (rc_sends_only P) advance_epoch"
    by (auto simp: keeps_def advance_epoch_def rc_sends_only_def sends_only_def split: if_splits)
  show "keeps (rc_sends_only P) (install_connection c)" for c
    by (auto simp: keeps_def install_connection_def rc_sends_only_def sends_only_def)
qed

lemma ensure_connected_sends:
  assumes "keeps (sends_only P) factory"
  shows "keeps (rc_sends_only P) (ensure_connected ops factory)"
  using reconnect_sends [OF assms, of ops]
  by (auto simp: keeps_def ensure_connected_def rc_traffic.refl split: option.splits)

section \<open>What the operations rely on in a factory\<close>

abbreviation rc_sent :: "'w recovering_client \<Rightarrow> (nat \<times> rpc_request) list" where
  "rc_sent rc \<equiv> sent (rc_world rc)"

lemma on_world_at_most: "sends_at_most sent P n m \<Longrightarrow> sends_at_most (\<lambda>rc. rc_sent rc) P n (on_world m)"
  by (auto simp: sends_at_most_def on_world_def Let_def split: prod.splits)

lemma rc_sends_none:
  assumes "keeps (rc_sends_only (\<lambda>q. \<not> P q)) m"
  shows "sends_at_most (\<lambda>rc. rc_sent rc) P 0 m"
  unfolding sends_at_most_def
proof (intro allI impI)
  fix s r t
  assume "m s = (r, t)"
  then have "rc_sends_only (\<lambda>q. \<not> P q) s t" by (rule keepsD [OF assms])
  then show "\<exists>xs. rc_sent t = rc_sent s @ xs \<and> length (filter (\<lambda>x. P (snd x)) xs) \<le> 0"
    by (auto simp: rc_sends_only_def sends_only_def filter_empty_conv)
qed

lemma sends_only_mono: "(\<And>q. P q \<Longrightarrow> Q q) \<Longrightarrow> keeps (sends_only P) m \<Longrightarrow> keeps (sends_only Q) m"
  by (force simp: keeps_def sends_only_def)

text \<open>
  The contract of a client factory: connecting sends negotiations only.  Under it a call of
  \<open>submit_transaction\<close> hands at most one submission to the channels and every other operation none,
  and no operation sends more than two requests beside negotiations.
\<close>

locale client_factory =
  fixes factory :: "('w world, client) io"
  assumes factory_negotiates: "keeps (sends_only negotiates) factory"
begin

lemma factory_sends_no:
  assumes "\<And>q. P q \<Longrightarrow> \<not> negotiates q"
  shows "sends_at_most (\<lambda>rc. rc_sent rc) P 0 (reconnect ops factory)"
    and "sends_at_most (\<lambda>rc. rc_sent rc) P 0 (ensure_connected ops factory)"
proof -
  have "keeps (sends_only (\<lambda>q. \<not> P q)) factory"
    using assms factory_negotiates by (blast intro: sends_only_mono)
  then show "sends_at_most (\<lambda>rc. rc_sent rc) P 0 (reconnect ops factory)"
    "sends_at_most (\<lambda>rc. rc_sent rc) P 0 (ensure_connected ops factory)"
    by (auto intro: rc_sends_none reconnect_sends ensure_connected_sends)
qed

lemma retry_read_bound:
  assumes "\<And>q. P q \<Longrightarrow> \<not> negotiates q" and "\<And>c. sends_at_most sent P n (operation c)"
  shows "sends_at_most (\<lambda>rc. rc_sent rc) P (2 * n) (retry_read ops factory operation)"
proof -
  have "sends_at_most (\<lambda>rc. rc_sent rc) P (0 + (n + (0 + n))) (retry_read ops factory operation)"
    unfolding retry_read_def
    by (intro sends_at_most_bind sends_at_most_catch sends_at_most_if sends_at_most_pure
        factory_sends_no on_world_at_most assms)
  then show ?thesis by (simp add: mult_2)
qed

lemma lease_call_bound:
  assumes "\<And>q. P q \<Longrightarrow> \<not> negotiates q" and "\<And>c. sends_at_most sent P n (operation c)"
  shows "sends_at_most (\<lambda>rc. rc_sent rc) P n (lease_call ops factory operation)"
proof -
  have "sends_at_most (\<lambda>rc. rc_sent rc) P (0 + (n + (0 + 0))) (lease_call ops factory operation)"
    unfolding lease_call_def
    by (intro sends_at_most_bind sends_at_most_catch sends_at_most_if sends_at_most_pure
        factory_sends_no on_world_at_most assms)
  then show ?thesis by simp
qed

lemma submit_bound:
  assumes "\<And>q. P q \<Longrightarrow> \<not> negotiates q"
    and "\<And>c t. sends_at_most sent P n (transaction_outcome ops c t)"
  shows "sends_at_most (\<lambda>rc. rc_sent rc) P (Suc n) (r_submit_transaction ops factory sub)"
proof -
  have "sends_at_most (\<lambda>rc. rc_sent rc) P (0 + (Suc 0 + (0 + n + 0))) (r_submit_transaction ops factory sub)"
    unfolding r_submit_transaction_def
    by (intro sends_at_most_bind sends_at_most_catch sends_at_most_if sends_at_most_pure
        factory_sends_no on_world_at_most operations_send_one assms)
  then show ?thesis by simp
qed

lemma subscribe_bound:
  assumes "\<And>q. P q \<Longrightarrow> \<not> negotiates q" and "\<And>c s. sends_at_most sent P n (subscribe ops c s)"
  shows "sends_at_most (\<lambda>rc. rc_sent rc) P (2 * n) (r_subscribe ops factory subscription)"
proof -
  have "sends_at_most (\<lambda>rc. rc_sent rc) P (0 + (n + (0 + (n + 0)))) (r_subscribe ops factory subscription)"
    unfolding r_subscribe_def
    by (intro sends_at_most_bind sends_at_most_catch sends_at_most_if sends_at_most_pure
        factory_sends_no on_world_at_most assms)
  then show ?thesis by (simp add: mult_2)
qed

end

interpretation unix: client_factory "unix_client_factory ops open_channel config" for ops open_channel config
  by unfold_locales
    (simp add: unix_client_factory_def client_connect_unix_sends negotiate_request_def negotiates_def)

section \<open>Histories of a reconnecting client\<close>

text \<open>The calls a caller can make on a reconnecting client; \<open>submitted\<close> counts those that submit.\<close>

datatype rc_call =
    CallIntegrationView | CallSnapshot | CallDiagnostics | CallNextTransactionId
  | CallAcquire "resource_key list" lease_duration_ms
  | CallRenew lease_id lease_duration_ms
  | CallRelease lease_id
  | CallSubmit transaction_submission
  | CallOutcome transaction_id
  | CallSubscribe event_subscription
  | CallClose

fun call :: "'w rpc_channel \<Rightarrow> ('w world, client) io \<Rightarrow> rc_call \<Rightarrow> 'w recovering_client \<Rightarrow> 'w recovering_client" where
  "call ops factory CallIntegrationView rc = snd (r_integration_view ops factory rc)"
| "call ops factory CallSnapshot rc = snd (r_snapshot ops factory rc)"
| "call ops factory CallDiagnostics rc = snd (r_diagnostics ops factory rc)"
| "call ops factory CallNextTransactionId rc = snd (r_next_transaction_id ops factory rc)"
| "call ops factory (CallAcquire rs d) rc = snd (r_acquire_lease ops factory rs d rc)"
| "call ops factory (CallRenew l d) rc = snd (r_renew_lease ops factory l d rc)"
| "call ops factory (CallRelease l) rc = snd (r_release_lease ops factory l rc)"
| "call ops factory (CallSubmit sub) rc = snd (r_submit_transaction ops factory sub rc)"
| "call ops factory (CallOutcome t) rc = snd (r_transaction_outcome ops factory t rc)"
| "call ops factory (CallSubscribe sub) rc = snd (r_subscribe ops factory sub rc)"
| "call ops factory CallClose rc = recovering_close ops rc"

fun is_submit_call :: "rc_call \<Rightarrow> bool" where
  "is_submit_call (CallSubmit _) = True"
| "is_submit_call _ = False"

lemma keeps_snd: "keeps R m \<Longrightarrow> R s (snd (m s))"
  by (simp add: keeps_def split: prod.splits) (metis prod.collapse)

lemma call_epoch:
  assumes "rc_epoch rc \<le> MAX_CONNECTION_EPOCH"
  shows "epoch_rel rc (call ops factory c rc)"
  by (cases c)
    (simp_all add: keeps_snd retry_read_epoch lease_call_epoch submit_epoch subscribe_epoch close_epoch assms
      r_integration_view_def r_snapshot_def r_diagnostics_def r_next_transaction_id_def r_acquire_lease_def
      r_renew_lease_def r_release_lease_def r_transaction_outcome_def)

lemma at_most_snd:
  "sends_at_most snt P n m \<Longrightarrow> \<exists>xs. snt (snd (m s)) = snt s @ xs \<and> length (filter (\<lambda>x. P (snd x)) xs) \<le> n"
  unfolding sends_at_most_def by (metis prod.collapse)

lemma next_transaction_id_sends: "keeps (sends_only P) (client_next_transaction_id c)"
  by (simp add: client_next_transaction_id_def ids_send_nothing)

lemma close_sends: "rc_sent (recovering_close ops rc) = rc_sent rc"
  by (auto simp: recovering_close_def client_close_def channel_close_def Let_def split: option.splits)

text \<open>How many requests satisfying \<open>P\<close> one call sends, from a bound on the client's operations.\<close>

lemma call_bound:
  assumes "client_factory factory" and "\<And>q. P q \<Longrightarrow> \<not> negotiates q"
    and "\<And>c. sends_at_most sent P n (client_integration_view ops c)"
    and "\<And>c. sends_at_most sent P n (snapshot ops c)"
    and "\<And>c. sends_at_most sent P n (diagnostics ops c)"
    and "\<And>c rs d. sends_at_most sent P n (acquire_lease ops c rs d)"
    and "\<And>c l d. sends_at_most sent P n (renew_lease ops c l d)"
    and "\<And>c l. sends_at_most sent P n (release_lease ops c l)"
    and "\<And>c t. sends_at_most sent P n (transaction_outcome ops c t)"
    and "\<And>c s. sends_at_most sent P n (subscribe ops c s)"
  shows "\<exists>xs. rc_sent (call ops factory c rc) = rc_sent rc @ xs
     \<and> length (filter (\<lambda>x. P (snd x)) xs) \<le> (if is_submit_call c then Suc n else 2 * n)"
proof -
  note read = client_factory.retry_read_bound [OF assms(1,2)]
  have lease: "sends_at_most (\<lambda>rc. rc_sent rc) P (2 * n) (lease_call ops factory operation)"
    if "\<And>c. sends_at_most sent P n (operation c)" for operation
    by (rule sends_at_most_mono [OF client_factory.lease_call_bound [OF assms(1,2) that]]) simp_all
  have ids: "sends_at_most sent P n (client_next_transaction_id c)" for c
    by (rule sends_at_most_mono [OF sends_at_most_none]) (simp_all add: next_transaction_id_sends)
  show ?thesis
  proof (cases c)
    case (CallSubmit sub)
    then show ?thesis
      using at_most_snd [OF client_factory.submit_bound [OF assms(1,2,9)]] by simp
  next
    case (CallSubscribe sub)
    then show ?thesis
      using at_most_snd [OF client_factory.subscribe_bound [OF assms(1,2,10)]] by simp
  next
    case CallClose
    then show ?thesis by (simp add: close_sends)
  qed (simp only: call.simps is_submit_call.simps if_False r_integration_view_def r_snapshot_def
      r_diagnostics_def r_next_transaction_id_def r_acquire_lease_def r_renew_lease_def
      r_release_lease_def r_transaction_outcome_def,
    rule at_most_snd, (rule read lease; (rule assms ids | assumption | simp)))+
qed

lemma submits_not_negotiates: "submits q \<Longrightarrow> \<not> negotiates q"
  by (cases q) (simp_all add: submits_def negotiates_def)

lemma unix_call_submits:
  "\<exists>xs. rc_sent (call ops (unix_client_factory ops open_channel config) c rc) = rc_sent rc @ xs
     \<and> length (filter (\<lambda>x. submits (snd x)) xs) \<le> (if is_submit_call c then 1 else 0)"
  using call_bound [OF unix.client_factory_axioms, of submits 0 ops ops open_channel config c rc]
  by (cases "is_submit_call c")
    (simp_all add: sends_at_most_none operations_send_no_submit submits_not_negotiates)

section \<open>Properties\<close>

text \<open>
  C7. A transaction is never replayed: over any history of calls on a reconnecting client of the
  module's own factory, whatever the channels answer, the submissions handed to the channels are no
  more than the calls of \<open>submit_transaction\<close>.
\<close>

theorem no_transaction_is_replayed:
  "\<exists>xs. rc_sent (fold (call ops (unix_client_factory ops open_channel config)) calls rc) = rc_sent rc @ xs
     \<and> length (filter (\<lambda>x. submits (snd x)) xs) \<le> length (filter is_submit_call calls)"
proof (induction calls arbitrary: rc)
  case Nil
  show ?case by simp
next
  case (Cons c calls)
  let ?f = "unix_client_factory ops open_channel config"
  obtain xs where xs: "rc_sent (call ops ?f c rc) = rc_sent rc @ xs"
      "length (filter (\<lambda>x. submits (snd x)) xs) \<le> (if is_submit_call c then 1 else 0)"
    using unix_call_submits by blast
  obtain ys where "rc_sent (fold (call ops ?f) calls (call ops ?f c rc)) = rc_sent (call ops ?f c rc) @ ys"
      "length (filter (\<lambda>x. submits (snd x)) ys) \<le> length (filter is_submit_call calls)"
    using Cons.IH by blast
  with xs show ?case by (intro exI [of _ "xs @ ys"]) auto
qed

text \<open>
  C13. Recovery is bounded: one call on a reconnecting client sends at most two requests beside the
  negotiations of its reconnections, the first attempt and one retry or outcome query.
\<close>

theorem call_sends_at_most_two:
  "\<exists>xs. rc_sent (call ops (unix_client_factory ops open_channel config) c rc) = rc_sent rc @ xs
     \<and> length (filter (\<lambda>x. \<not> negotiates (snd x)) xs) \<le> 2"
  using call_bound [OF unix.client_factory_axioms, of "\<lambda>q. \<not> negotiates q" 1 ops ops open_channel config c rc]
  by (cases "is_submit_call c") (simp_all add: operations_send_one numeral_2_eq_2)

text \<open>
  C10. The connection epoch identifies the connection: over any history of calls it never decreases
  and stays within 64 bits, and a client found connected at the same epoch as before is on the very
  connection it had then.
\<close>

theorem epoch_identifies_connection:
  assumes "rc_epoch rc \<le> MAX_CONNECTION_EPOCH"
  shows "let rc' = fold (call ops factory) calls rc
    in rc_epoch rc \<le> rc_epoch rc' \<and> rc_epoch rc' \<le> MAX_CONNECTION_EPOCH
       \<and> (rc_epoch rc' = rc_epoch rc \<longrightarrow> rc_connection rc' = Some c \<longrightarrow> rc_connection rc = Some c)"
proof -
  have "epoch_rel rc (fold (call ops factory) calls rc)" if "rc_epoch rc \<le> MAX_CONNECTION_EPOCH" for rc
    using that
  proof (induction calls arbitrary: rc)
    case Nil
    show ?case by (simp add: epoch.refl)
  next
    case (Cons a calls)
    then have step: "epoch_rel rc (call ops factory a rc)" by (intro call_epoch)
    with Cons have "epoch_rel (call ops factory a rc) (fold (call ops factory) calls (call ops factory a rc))"
      by (simp add: epoch_rel_def)
    with step show ?case by (simp add: epoch.trans)
  qed
  from this [OF assms] assms show ?thesis
    unfolding epoch_rel_def Let_def by (metis option.distinct(1))
qed

theorem epoch_identifies_connection_witness:
  "let rc = \<lparr>rc_connection = None, rc_epoch = MAX_CONNECTION_EPOCH - 1, rc_world = scripted_world []\<rparr>;
       rc' = fold (call scripted (unix_client_factory scripted (\<lambda>n. (Inr 3, n)) ex_config))
               [CallSnapshot, CallClose, CallSnapshot] rc
    in rc_epoch rc \<le> MAX_CONNECTION_EPOCH \<and> rc_epoch rc' \<le> MAX_CONNECTION_EPOCH"
  using epoch_identifies_connection [of "\<lparr>rc_connection = None, rc_epoch = MAX_CONNECTION_EPOCH - 1,
      rc_world = scripted_world []\<rparr>" scripted "unix_client_factory scripted (\<lambda>n. (Inr 3, n)) ex_config"
      "[CallSnapshot, CallClose, CallSnapshot]"]
  by (simp only: Let_def recovering_client.select_convs) simp

text \<open>
  C11. A submission lost with its connection is never reported as an SDK error: the call returns the
  outcome the bridge reports for that very transaction on a new connection, or that its outcome is
  unknown.  Only an exception outside the SDK's hierarchy gets through.
\<close>

theorem lost_submission_outcome:
  assumes "ensure_connected ops factory rc = (Inr c, rc1)"
    and "on_world (submit_transaction ops c sub) rc1 = (Inl e, rc2)" and "is_connection_error e"
  shows "case fst (r_submit_transaction ops factory sub rc) of
      Inr x \<Rightarrow> x = unknown_outcome (ts_transaction_id sub)
        \<or> (\<exists>c' rc3. reconnect ops factory rc2 = (Inr c', rc3)
             \<and> fst (on_world (transaction_outcome ops c' (ts_transaction_id sub)) rc3) = Inr x)
    | Inl e' \<Rightarrow> \<not> is_sdk_error e'"
  using assms
  by (auto simp: r_submit_transaction_def io_catch_def io_bind_def split: prod.splits sum.splits)

definition ex_recovering :: "answers \<Rightarrow> answers recovering_client" where
  "ex_recovering script = \<lparr>rc_connection = Some ex_client, rc_epoch = 1, rc_world = scripted_world script\<rparr>"

definition ex_reconnecting :: "answers \<Rightarrow> (answers world, client) io" where
  "ex_reconnecting script = unix_client_factory scripted (\<lambda>_. (Inr 3, script)) ex_config"

lemma ex_lost_submission:
  "ensure_connected scripted (ex_reconnecting []) (ex_recovering []) = (Inr ex_client, ex_recovering [])"
  "\<exists>rc2. on_world (submit_transaction scripted ex_client ex_submission) (ex_recovering [])
     = (Inl (ConnectionClosed ''bridge closed an incomplete SDK frame''), rc2)"
  "fst (r_submit_transaction scripted (ex_reconnecting []) ex_submission (ex_recovering []))
     = Inr (unknown_outcome ''p-t-1'')"
proof -
  show "ensure_connected scripted (ex_reconnecting []) (ex_recovering []) = (Inr ex_client, ex_recovering [])"
    by (simp add: ensure_connected_def ex_recovering_def)
  show "fst (r_submit_transaction scripted (ex_reconnecting []) ex_submission (ex_recovering []))
     = Inr (unknown_outcome ''p-t-1'')" by code_simp
  have "fst (on_world (submit_transaction scripted ex_client ex_submission) (ex_recovering []))
     = Inl (ConnectionClosed ''bridge closed an incomplete SDK frame'')" by code_simp
  then show "\<exists>rc2. on_world (submit_transaction scripted ex_client ex_submission) (ex_recovering [])
     = (Inl (ConnectionClosed ''bridge closed an incomplete SDK frame''), rc2)"
    by (metis prod.collapse)
qed

theorem lost_submission_outcome_witness:
  "\<exists>x rc2. fst (r_submit_transaction scripted (ex_reconnecting []) ex_submission (ex_recovering [])) = Inr x
     \<and> (x = unknown_outcome (ts_transaction_id ex_submission)
        \<or> (\<exists>c' rc3. reconnect scripted (ex_reconnecting []) rc2 = (Inr c', rc3)
             \<and> fst (on_world (transaction_outcome scripted c' (ts_transaction_id ex_submission)) rc3) = Inr x))"
proof -
  obtain rc2 where lost: "on_world (submit_transaction scripted ex_client ex_submission) (ex_recovering [])
     = (Inl (ConnectionClosed ''bridge closed an incomplete SDK frame''), rc2)"
    using ex_lost_submission(2) by blast
  show ?thesis
    using lost_submission_outcome [OF ex_lost_submission(1) lost] ex_lost_submission(3)
    by (auto simp: is_connection_error_def)
qed

text \<open>
  The request of a submission, and a submission that is lost with its connection.
\<close>

abbreviation submission_request :: "client \<Rightarrow> request_id \<Rightarrow> transaction_submission \<Rightarrow> rpc_request" where
  "submission_request c rid sub \<equiv> RpcRequestSubmitTransaction (session_envelope c (transaction_request_of c rid sub) rid)"

lemma submission_lost:
  assumes "world_request_id (rc_world rc) = (Inr rid, w1)"
    and "op_exchange ops (cl_channel c) (submission_request c rid sub) (net w1) = (Inl e, n1)"
  shows "on_world (submit_transaction ops c sub) rc
     = (Inl e, rc\<lparr>rc_world := w1\<lparr>net := n1, sent := sent w1 @ [(cl_channel c, submission_request c rid sub)]\<rparr>\<rparr>)"
  using assms
  by (simp add: on_world_def submit_transaction_def exchange_session_def channel_exchange_def io_bind_def)

text \<open>What \<open>_reconnect\<close> does with the module's factory when the socket cannot be opened.\<close>

lemma reconnect_not_opened:
  assumes "rc_connection rc = Some c" and "rc_epoch rc \<noteq> MAX_CONNECTION_EPOCH"
    and "open_channel (op_close ops (cl_channel c) (net (rc_world rc))) = (Inl e, n)"
  shows "reconnect ops (unix_client_factory ops open_channel config) rc
     = (Inl e, rc\<lparr>rc_connection := None, rc_epoch := rc_epoch rc + 1,
         rc_world := rc_world rc\<lparr>net := n, closed := closed (rc_world rc) @ [cl_channel c]\<rparr>\<rparr>)"
  using assms
  by (simp add: reconnect_def drop_connection_def advance_epoch_def on_world_def unix_client_factory_def client_connect_unix_def
      channel_open_def client_close_def channel_close_def io_bind_def)

text \<open>
  C12. A lost submission whose connection cannot be reopened.  The exchange of the submission breaks and
  \<open>UnixRpcChannel.connect\<close> then raises.  The submission has been sent once, the old channel is closed, no
  connection is left and the epoch has moved on.  When the exception is one of the SDK's, the caller gets the
  unknown outcome of its transaction; any other, such as the \<open>OSError\<close> of a socket that is gone, reaches the
  caller itself, and nothing then says that the outcome is unknown.
\<close>

theorem lost_submission_not_reopened:
  assumes "rc_connection rc = Some c" and "rc_epoch rc \<noteq> MAX_CONNECTION_EPOCH"
    and "world_request_id (rc_world rc) = (Inr rid, w1)"
    and "op_exchange ops (cl_channel c) (submission_request c rid sub) (net w1) = (Inl e, n1)" and "is_connection_error e"
    and "open_channel (op_close ops (cl_channel c) n1) = (Inl e', n2)"
  shows "r_submit_transaction ops (unix_client_factory ops open_channel config) sub rc =
     (if is_sdk_error e' then Inr (unknown_outcome (ts_transaction_id sub)) else Inl e',
      rc\<lparr>rc_connection := None, rc_epoch := rc_epoch rc + 1,
        rc_world := w1\<lparr>net := n2, sent := sent w1 @ [(cl_channel c, submission_request c rid sub)],
          closed := closed w1 @ [cl_channel c]\<rparr>\<rparr>)"
proof -
  define rc2 where "rc2 = rc\<lparr>rc_world := w1\<lparr>net := n1, sent := sent w1 @ [(cl_channel c, submission_request c rid sub)]\<rparr>\<rparr>"
  have lost: "on_world (submit_transaction ops c sub) rc = (Inl e, rc2)"
    unfolding rc2_def by (rule submission_lost [OF assms(3,4)])
  have "reconnect ops (unix_client_factory ops open_channel config) rc2
      = (Inl e', rc2\<lparr>rc_connection := None, rc_epoch := rc_epoch rc2 + 1,
          rc_world := rc_world rc2\<lparr>net := n2, closed := closed (rc_world rc2) @ [cl_channel c]\<rparr>\<rparr>)"
    using assms(1,2,6) by (intro reconnect_not_opened) (simp_all add: rc2_def)
  then show ?thesis
    using lost assms(1,5) by (simp add: r_submit_transaction_def ensure_connected_def io_bind_def io_catch_def rc2_def)
qed

definition ex_unreachable :: "answers \<Rightarrow> (sdk_exn + nat) \<times> answers" where
  "ex_unreachable script = (Inl (OSError ''no socket''), script)"

theorem lost_submission_not_reopened_witness:
  "\<exists>rid w1. world_request_id (rc_world (ex_recovering [])) = (Inr rid, w1)
     \<and> r_submit_transaction scripted (unix_client_factory scripted ex_unreachable ex_config) ex_submission (ex_recovering [])
       = (Inl (OSError ''no socket''), (ex_recovering [])\<lparr>rc_connection := None, rc_epoch := rc_epoch (ex_recovering []) + 1,
           rc_world := w1\<lparr>net := [], sent := sent w1 @ [(cl_channel ex_client, submission_request ex_client rid ex_submission)],
             closed := closed w1 @ [cl_channel ex_client]\<rparr>\<rparr>)"
proof -
  have "isl (fst (world_request_id (rc_world (ex_recovering [])))) = False" by code_simp
  then obtain rid w1 where id: "world_request_id (rc_world (ex_recovering [])) = (Inr rid, w1)"
    by (cases "world_request_id (rc_world (ex_recovering []))"; cases "fst (world_request_id (rc_world (ex_recovering [])))") auto
  have "net (snd (world_request_id (rc_world (ex_recovering [])))) = []" by code_simp
  then have net: "net w1 = []" by (simp add: id)
  have live: "rc_connection (ex_recovering []) = Some ex_client" "rc_epoch (ex_recovering []) \<noteq> MAX_CONNECTION_EPOCH"
    by (simp_all add: ex_recovering_def MAX_CONNECTION_EPOCH_def)
  have lost: "op_exchange scripted (cl_channel ex_client) (submission_request ex_client rid ex_submission) (net w1)
      = (Inl (ConnectionClosed ''bridge closed an incomplete SDK frame''), [])" by (simp add: scripted_def net)
  have refused: "ex_unreachable (op_close scripted (cl_channel ex_client) []) = (Inl (OSError ''no socket''), [])"
    by (simp add: ex_unreachable_def scripted_def)
  from lost_submission_not_reopened [where config = ex_config and open_channel = ex_unreachable, OF live id lost _ refused] id
  show ?thesis by (simp add: is_connection_error_def)
qed

end
