(* ===== verification/Sdk_Lighting.thy ===== *)
theory Sdk_Lighting
  imports Sdk_Recovery "HOL-Library.Product_Lexorder" "HOL-Library.Multiset"
begin

text \<open>
  Lighting sessions, \<open>src/sdk/python/hyperflux_sdk/lighting.py\<close>: targets taken from the integration
  view, the lease a session holds on their resources, and the transactions it submits.

  The bridge a session works on is the interface \<open>LightingBridge\<close>, a record of operations on a state
  \<open>'b\<close>; \<open>client_bridge\<close> and \<open>recovering_bridge\<close> are the two implementations in the SDK.  A session
  operation maps the pair of bridge state and session to its result and the pair after it.  A session has no lock:
  operations follow each other, and other threads acting between two bridge calls of one operation are not modelled.
\<close>

section \<open>Targets and updates\<close>

datatype lighting_intent = LightingIntent_EFFECT_FRAME | LightingIntent_STATIC | LightingIntent_OFF

record lighting_target =
  tg_receiver_id :: receiver_id
  tg_generation_id :: generation_id
  tg_device_id :: logical_device_id
  tg_endpoint_id :: endpoint_id
  tg_receiver_profile :: profile_binding_view
  tg_device_profile :: profile_binding_view
  tg_application_slot_count :: led_count
  tg_resource :: resource_key

record lighting_update =
  up_target :: lighting_target
  up_colors :: "rgb_color list"

record 'b lighting_bridge =
  lb_connection_epoch :: "'b \<Rightarrow> int"
  lb_acquire_lease :: "resource_key list \<Rightarrow> lease_duration_ms \<Rightarrow> ('b, lease_result) io"
  lb_renew_lease :: "lease_id \<Rightarrow> lease_duration_ms \<Rightarrow> ('b, lease_result) io"
  lb_release_lease :: "lease_id \<Rightarrow> ('b, lease_result) io"
  lb_submit_transaction :: "transaction_submission \<Rightarrow> ('b, transaction_result) io"
  lb_next_transaction_id :: "('b, transaction_id) io"

definition rgb :: "int \<Rightarrow> int \<Rightarrow> int \<Rightarrow> sdk_exn + rgb_color" where
  "rgb red green blue =
     rbind (int_wrapper ''ColorChannel'' red) (\<lambda>r.
     rbind (int_wrapper ''ColorChannel'' green) (\<lambda>g.
     rbind (int_wrapper ''ColorChannel'' blue) (\<lambda>b.
     Inr \<lparr>rgb_red = r, rgb_green = g, rgb_blue = b\<rparr>)))"

definition lighting_target_of :: "controller_view \<Rightarrow> sdk_exn + lighting_target" where
  "lighting_target_of controller =
     (let resource = cv_resource controller
      in if rk_receiver_id resource \<noteq> cv_receiver_id controller
            \<or> rk_generation_id resource \<noteq> cv_generation_id controller
            \<or> rk_device_id resource \<noteq> cv_device_id controller
            \<or> rk_kind resource \<noteq> ResourceKind_LIGHTING
            \<or> lt_application_slot_count (cv_lighting controller) = 0
            \<or> ''lighting.direct-frame'' \<notin> set (cv_capabilities controller)
         then Inl (InvalidController ''integration controller lacks an exact writable lighting binding'')
         else Inr \<lparr>tg_receiver_id = cv_receiver_id controller, tg_generation_id = cv_generation_id controller,
           tg_device_id = cv_device_id controller, tg_endpoint_id = cv_endpoint_id controller,
           tg_receiver_profile = cv_receiver_profile controller,
           tg_device_profile = cv_device_profile controller,
           tg_application_slot_count = lt_application_slot_count (cv_lighting controller),
           tg_resource = resource\<rparr>)"

type_synonym resource_sort_key = "string \<times> int \<times> string \<times> string"

definition resource_key_of :: "resource_key \<Rightarrow> resource_sort_key" where
  "resource_key_of r = (rk_receiver_id r, rk_generation_id r, rk_device_id r, resource_kind_value (rk_kind r))"

definition sorted_resources :: "resource_key list \<Rightarrow> resource_key list" where
  "sorted_resources rs = sort_key resource_key_of rs"

definition resources_of :: "lighting_target list \<Rightarrow> resource_key list" where
  "resources_of targets = sorted_resources (map tg_resource targets)"

definition check_grant ::
  "lease_result \<Rightarrow> resource_key list \<Rightarrow> lease_state \<Rightarrow> lease_id option \<Rightarrow> sdk_exn + lease_grant" where
  "check_grant result expected_resources expected_state expected_lease =
     (case result of
        LeaseResultConflict detail \<Rightarrow>
          Inl (OwnershipConflict (''HyperFlux lighting is controlled by '' @ lc_conflicting_client detail))
      | LeaseResultRejected detail \<Rightarrow>
          Inl (OwnershipConflict (''the bridge rejected the lighting lease ['' @ lj_finding_id detail @ '']''))
      | LeaseResultGranted grant \<Rightarrow>
          if lg_state grant \<noteq> expected_state
             \<or> sorted_resources (lg_resources grant) \<noteq> expected_resources
             \<or> (expected_lease \<noteq> None \<and> Some (lg_lease_id grant) \<noteq> expected_lease)
          then Inl (OwnershipConflict ''bridge returned a lease grant with mismatched authority'')
          else Inr grant)"

section \<open>Sessions\<close>

record lighting_session =
  ses_targets :: "lighting_target list"
  ses_grant :: "lease_grant option"
  ses_connection_epoch :: int

definition session_init ::
  "'b lighting_bridge \<Rightarrow> lighting_target list \<Rightarrow> lease_grant \<Rightarrow> ('b, lighting_session) io" where
  "session_init B targets grant b =
     (Inr \<lparr>ses_targets = targets, ses_grant = Some grant, ses_connection_epoch = lb_connection_epoch B b\<rparr>, b)"

text \<open>One round of the loop of \<open>acquire\<close>: the keys seen and the authority of each receiver so far.\<close>

definition acquire_check_target ::
  "resource_sort_key list \<times> (string \<rightharpoonup> generation_id \<times> profile_binding_view) \<Rightarrow> lighting_target
    \<Rightarrow> sdk_exn + resource_sort_key list \<times> (string \<rightharpoonup> generation_id \<times> profile_binding_view)" where
  "acquire_check_target st target =
     (let (seen, receiver_authority) = st; resource = tg_resource target; key = resource_key_of resource
      in if tg_application_slot_count target = 0
            \<or> rk_kind resource \<noteq> ResourceKind_LIGHTING
            \<or> rk_receiver_id resource \<noteq> tg_receiver_id target
            \<or> rk_generation_id resource \<noteq> tg_generation_id target
            \<or> rk_device_id resource \<noteq> tg_device_id target
            \<or> key \<in> set seen
         then Inl (InvalidController ''a lighting target has duplicate or mismatched authority'')
         else let current = (tg_generation_id target, tg_receiver_profile target)
              in case receiver_authority (tg_receiver_id target) of
                   None \<Rightarrow> Inr (key # seen, receiver_authority(tg_receiver_id target \<mapsto> current))
                 | Some previous \<Rightarrow>
                     if previous \<noteq> current
                     then Inl (InvalidController ''one receiver has conflicting generation authority'')
                     else Inr (key # seen, receiver_authority))"

definition acquire_checks :: "lighting_target list \<Rightarrow> sdk_exn + unit" where
  "acquire_checks targets =
     (if \<not> (1 \<le> length targets \<and> length targets \<le> 32)
      then Inl (InvalidController ''a lighting session requires between one and 32 controllers'')
      else rbind (foldM acquire_check_target ([], Map.empty) targets) (\<lambda>_. Inr ()))"

definition session_acquire ::
  "'b lighting_bridge \<Rightarrow> lighting_target list \<Rightarrow> lease_duration_ms \<Rightarrow> ('b, lighting_session) io" where
  "session_acquire B targets duration_ms =
     io_bind (io_lift (acquire_checks targets)) (\<lambda>_.
     io_bind (lb_acquire_lease B (resources_of targets) duration_ms) (\<lambda>result.
     io_bind (io_lift (check_grant result (resources_of targets) LeaseState_GRANTED None)) (\<lambda>grant.
     session_init B targets grant)))"

definition session_active :: "lighting_session \<Rightarrow> bool" where
  "session_active ses \<longleftrightarrow> ses_grant ses \<noteq> None"

definition session_lease_id :: "lighting_session \<Rightarrow> lease_id option" where
  "session_lease_id ses = map_option lg_lease_id (ses_grant ses)"

definition session_expires_at_ms :: "lighting_session \<Rightarrow> monotonic_ms option" where
  "session_expires_at_ms ses = map_option lg_expires_at_ms (ses_grant ses)"

definition session_matches :: "lighting_session \<Rightarrow> lighting_target \<Rightarrow> bool" where
  "session_matches ses target \<longleftrightarrow> session_active ses \<and> target \<in> set (ses_targets ses)"

definition abandon :: "lighting_session \<Rightarrow> lighting_session" where
  "abandon ses = ses\<lparr>ses_grant := None\<rparr>"

definition on_bridge :: "('b, 'a) io \<Rightarrow> ('b \<times> lighting_session, 'a) io" where
  "on_bridge m st = (let (r, b) = m (fst st) in (r, (b, snd st)))"

definition set_grant :: "lease_grant option \<Rightarrow> ('b \<times> lighting_session, unit) io" where
  "set_grant g st = (Inr (), (fst st, (snd st)\<lparr>ses_grant := g\<rparr>))"

text \<open>\<open>except BaseException: self.abandon(); raise\<close>\<close>

definition abandon_on_raise :: "('b \<times> lighting_session, 'a) io \<Rightarrow> ('b \<times> lighting_session, 'a) io" where
  "abandon_on_raise m = io_catch m (\<lambda>e st. (Inl e, (fst st, abandon (snd st))))"

definition require_grant :: "'b lighting_bridge \<Rightarrow> ('b \<times> lighting_session, lease_grant) io" where
  "require_grant B st =
     (case ses_grant (snd st) of
        None \<Rightarrow> (Inl (SessionInactive ''the HyperFlux lighting session is no longer active''), st)
      | Some grant \<Rightarrow>
          if lb_connection_epoch B (fst st) \<noteq> ses_connection_epoch (snd st)
          then (Inl (SessionInactive ''the bridge connection changed and invalidated the lighting lease''),
                (fst st, abandon (snd st)))
          else (Inr grant, st))"

definition session_renew :: "'b lighting_bridge \<Rightarrow> lease_duration_ms \<Rightarrow> ('b \<times> lighting_session, unit) io" where
  "session_renew B duration_ms =
     io_bind (require_grant B) (\<lambda>grant.
       abandon_on_raise (
         io_bind (on_bridge (lb_renew_lease B (lg_lease_id grant) duration_ms)) (\<lambda>result st.
         io_bind (io_lift (check_grant result (resources_of (ses_targets (snd st)))
             LeaseState_RENEWED (Some (lg_lease_id grant)))) (\<lambda>g. set_grant (Some g)) st)))"

definition session_release :: "'b lighting_bridge \<Rightarrow> ('b \<times> lighting_session, unit) io" where
  "session_release B st =
     (if ses_grant (snd st) = None then (Inr (), st)
      else io_bind (require_grant B) (\<lambda>grant.
        io_bind (abandon_on_raise (
          io_bind (on_bridge (lb_release_lease B (lg_lease_id grant))) (\<lambda>result st.
          io_lift (check_grant result (resources_of (ses_targets (snd st)))
              LeaseState_RELEASED (Some (lg_lease_id grant))) st))) (\<lambda>_.
        set_grant None)) st)"

definition session_exit :: "'b lighting_bridge \<Rightarrow> bool \<Rightarrow> ('b \<times> lighting_session, unit) io" where
  "session_exit B raised =
     (if \<not> raised then session_release B
      else io_catch (session_release B) (\<lambda>_ st. (Inr (), (fst st, abandon (snd st)))))"

section \<open>Submitting\<close>

definition lit :: "rgb_color \<Rightarrow> bool" where
  "lit color \<longleftrightarrow> rgb_red color \<noteq> 0 \<or> rgb_green color \<noteq> 0 \<or> rgb_blue color \<noteq> 0"

definition submit_check_update ::
  "lighting_intent \<Rightarrow> lighting_target list \<Rightarrow> lighting_target \<Rightarrow> resource_sort_key list \<Rightarrow> lighting_update
    \<Rightarrow> sdk_exn + resource_sort_key list" where
  "submit_check_update intent targets authority seen update =
     (let target = up_target update; key = resource_key_of (tg_resource target)
      in if tg_receiver_id target \<noteq> tg_receiver_id authority
            \<or> tg_generation_id target \<noteq> tg_generation_id authority
            \<or> tg_receiver_profile target \<noteq> tg_receiver_profile authority
         then Inl (InvalidLightingFrame ''one lighting transaction must stay inside one receiver generation'')
         else if target \<notin> set targets \<or> key \<in> set seen
         then Inl (InvalidLightingFrame ''lighting transaction names a duplicate or unowned controller'')
         else if int (length (up_colors update)) \<noteq> tg_application_slot_count target
         then Inl (InvalidLightingFrame ''lighting frame does not match the qualified application slot count'')
         else if intent = LightingIntent_OFF \<and> list_ex lit (up_colors update)
         then Inl (InvalidLightingFrame ''an Off intent may contain only black values'')
         else Inr (key # seen))"

definition submission_class :: "lighting_intent \<Rightarrow> transaction_class" where
  "submission_class intent = (if intent = LightingIntent_EFFECT_FRAME then TransactionClass_EFFECT_FRAME
     else TransactionClass_STATIC_LIGHTING)"

definition submission_intents :: "lighting_intent \<Rightarrow> lighting_update list \<Rightarrow> stable_lighting_intent list" where
  "submission_intents intent updates =
     (if intent = LightingIntent_EFFECT_FRAME then []
      else let mode = (if intent = LightingIntent_OFF then StableLightingMode_OFF else StableLightingMode_STATIC)
           in map (\<lambda>u. \<lparr>sli_device_id = tg_device_id (up_target u), sli_mode = mode\<rparr>) updates)"

definition submission_profiles :: "lighting_update list \<Rightarrow> device_profile_binding list" where
  "submission_profiles updates =
     map (\<lambda>u. \<lparr>dpb_device_id = tg_device_id (up_target u),
        dpb_profile_id = pb_profile_id (tg_device_profile (up_target u)),
        dpb_profile_digest = pb_profile_digest (tg_device_profile (up_target u)),
        dpb_application_slot_count = tg_application_slot_count (up_target u)\<rparr>) updates"

definition submission_frames :: "lighting_update list \<Rightarrow> lighting_frame list" where
  "submission_frames updates =
     map (\<lambda>(index, u). \<lparr>lf_device_id = tg_device_id (up_target u), lf_frame_index = int index,
        lf_colors = up_colors u\<rparr>) (enumerate 0 updates)"

definition submission_of ::
  "lighting_intent \<Rightarrow> lighting_update list \<Rightarrow> monotonic_ms \<Rightarrow> lease_grant \<Rightarrow> lighting_target \<Rightarrow> transaction_id
    \<Rightarrow> transaction_submission" where
  "submission_of intent updates deadline_ms grant authority transaction_id =
     \<lparr>ts_transaction_id = transaction_id, ts_lease_id = lg_lease_id grant,
      ts_receiver_id = tg_receiver_id authority, ts_generation_id = tg_generation_id authority,
      ts_receiver_profile_id = pb_profile_id (tg_receiver_profile authority),
      ts_receiver_profile_digest = pb_profile_digest (tg_receiver_profile authority),
      ts_device_profiles = submission_profiles updates,
      ts_transaction_class = submission_class intent,
      ts_stable_intents = submission_intents intent updates, ts_deadline_ms = deadline_ms,
      ts_resources = sorted_resources (map (\<lambda>u. tg_resource (up_target u)) updates),
      ts_frames = submission_frames updates\<rparr>"

text \<open>The checks of \<open>submit\<close> on its updates; the first update is the authority.\<close>

definition submit_checks ::
  "lighting_intent \<Rightarrow> lighting_target list \<Rightarrow> lighting_update list \<Rightarrow> sdk_exn + lighting_target" where
  "submit_checks intent targets updates =
     (case updates of
        [] \<Rightarrow> Inl (InvalidLightingFrame ''a lighting transaction requires at least one frame'')
      | u # _ \<Rightarrow> rbind (foldM (submit_check_update intent targets (up_target u)) [] updates)
          (\<lambda>_. Inr (up_target u)))"

definition session_submit ::
  "'b lighting_bridge \<Rightarrow> lighting_intent \<Rightarrow> lighting_update list \<Rightarrow> monotonic_ms
    \<Rightarrow> ('b \<times> lighting_session, transaction_result) io" where
  "session_submit B intent updates deadline_ms =
     io_bind (require_grant B) (\<lambda>grant st.
     io_bind (io_lift (submit_checks intent (ses_targets (snd st)) updates)) (\<lambda>authority.
     io_bind (on_bridge (lb_next_transaction_id B)) (\<lambda>transaction_id.
     on_bridge (lb_submit_transaction B
       (submission_of intent updates deadline_ms grant authority transaction_id)))) st)"

section \<open>The bridges of the SDK\<close>

text \<open>A client with the world it works in; the client itself does not change.\<close>

definition on_client :: "(client \<Rightarrow> ('w world, 'a) io) \<Rightarrow> (client \<times> 'w world, 'a) io" where
  "on_client f st = (let (r, w) = f (fst st) (snd st) in (r, (fst st, w)))"

definition client_bridge :: "'w rpc_channel \<Rightarrow> (client \<times> 'w world) lighting_bridge" where
  "client_bridge ops =
     \<lparr>lb_connection_epoch = (\<lambda>st. connection_epoch (fst st)),
      lb_acquire_lease = (\<lambda>resources d. on_client (\<lambda>c. acquire_lease ops c resources d)),
      lb_renew_lease = (\<lambda>lease d. on_client (\<lambda>c. renew_lease ops c lease d)),
      lb_release_lease = (\<lambda>lease. on_client (\<lambda>c. release_lease ops c lease)),
      lb_submit_transaction = (\<lambda>submission. on_client (\<lambda>c. submit_transaction ops c submission)),
      lb_next_transaction_id = on_client client_next_transaction_id\<rparr>"

definition recovering_bridge ::
  "'w rpc_channel \<Rightarrow> ('w world, client) io \<Rightarrow> 'w recovering_client lighting_bridge" where
  "recovering_bridge ops factory =
     \<lparr>lb_connection_epoch = rc_epoch,
      lb_acquire_lease = r_acquire_lease ops factory,
      lb_renew_lease = r_renew_lease ops factory,
      lb_release_lease = r_release_lease ops factory,
      lb_submit_transaction = r_submit_transaction ops factory,
      lb_next_transaction_id = r_next_transaction_id ops factory\<rparr>"

section \<open>What the checks accept\<close>

definition target_ok :: "lighting_target \<Rightarrow> bool" where
  "target_ok t \<longleftrightarrow> tg_application_slot_count t \<noteq> 0 \<and> rk_kind (tg_resource t) = ResourceKind_LIGHTING
     \<and> rk_receiver_id (tg_resource t) = tg_receiver_id t
     \<and> rk_generation_id (tg_resource t) = tg_generation_id t
     \<and> rk_device_id (tg_resource t) = tg_device_id t"

abbreviation target_key :: "lighting_target \<Rightarrow> resource_sort_key" where
  "target_key t \<equiv> resource_key_of (tg_resource t)"

abbreviation target_authority :: "lighting_target \<Rightarrow> generation_id \<times> profile_binding_view" where
  "target_authority t \<equiv> (tg_generation_id t, tg_receiver_profile t)"

definition one_authority :: "lighting_target list \<Rightarrow> bool" where
  "one_authority ts \<longleftrightarrow>
     (\<forall>t \<in> set ts. \<forall>u \<in> set ts. tg_receiver_id t = tg_receiver_id u \<longrightarrow> target_authority t = target_authority u)"

lemma acquire_check_target_Inr:
  "acquire_check_target (seen, auth) t = Inr (seen', auth') \<longleftrightarrow>
     target_ok t \<and> target_key t \<notin> set seen \<and> auth (tg_receiver_id t) \<in> {None, Some (target_authority t)}
     \<and> seen' = target_key t # seen \<and> auth' = auth(tg_receiver_id t \<mapsto> target_authority t)"
  by (auto simp: acquire_check_target_def target_ok_def Let_def fun_upd_idem split: option.splits if_splits)

lemma one_authority_Cons:
  "one_authority (t # ts) \<longleftrightarrow> one_authority ts
     \<and> (\<forall>u \<in> set ts. tg_receiver_id t = tg_receiver_id u \<longrightarrow> target_authority t = target_authority u)"
  unfolding one_authority_def list.set(2) by (metis insert_iff)

lemma authority_upd:
  assumes "m r \<in> {None, Some v}"
  shows "(m(r \<mapsto> v)) q \<in> {None, Some w} \<longleftrightarrow> m q \<in> {None, Some w} \<and> (r = q \<longrightarrow> v = w)"
  using assms by auto

lemma fresh_keys_Cons:
  "((ok t \<and> key t \<notin> S \<and> m t) \<and> (\<forall>x \<in> set ts. ok x \<and> key x \<notin> insert (key t) S \<and> m x \<and> c x)
      \<and> distinct (map key ts) \<and> one)
    \<longleftrightarrow> (\<forall>x \<in> set (t # ts). ok x \<and> key x \<notin> S \<and> m x) \<and> distinct (map key (t # ts)) \<and> one \<and> (\<forall>u \<in> set ts. c u)"
  by (auto simp: image_iff)

lemma acquire_fold_Inr:
  "(\<exists>st. foldM acquire_check_target (seen, auth) ts = Inr st) \<longleftrightarrow>
     (\<forall>t \<in> set ts. target_ok t \<and> target_key t \<notin> set seen
        \<and> auth (tg_receiver_id t) \<in> {None, Some (target_authority t)})
     \<and> distinct (map target_key ts) \<and> one_authority ts"
proof (induction ts arbitrary: seen auth)
  case Nil
  show ?case by (simp add: one_authority_def)
next
  case (Cons t ts)
  let ?auth = "auth(tg_receiver_id t \<mapsto> target_authority t)"
  have step: "(\<exists>st. foldM acquire_check_target (seen, auth) (t # ts) = Inr st) \<longleftrightarrow>
      (target_ok t \<and> target_key t \<notin> set seen \<and> auth (tg_receiver_id t) \<in> {None, Some (target_authority t)})
      \<and> (\<exists>st. foldM acquire_check_target (target_key t # seen, ?auth) ts = Inr st)"
    using acquire_check_target_Inr by (auto simp: rbind_Inr_iff)
  show ?case
  proof (cases "target_ok t \<and> target_key t \<notin> set seen \<and> auth (tg_receiver_id t) \<in> {None, Some (target_authority t)}")
    case True
    then have "auth (tg_receiver_id t) \<in> {None, Some (target_authority t)}" by blast
    note upd = authority_upd [of auth "tg_receiver_id t" "target_authority t", OF this]
    show ?thesis
      unfolding step Cons.IH upd one_authority_Cons list.set(2) [of _ seen]
      by (rule fresh_keys_Cons [where ok = target_ok and key = target_key and S = "set seen"
          and m = "\<lambda>x. auth (tg_receiver_id x) \<in> {None, Some (target_authority x)}"])
  qed (use step in auto)
qed

lemma acquire_checks_Inr:
  "acquire_checks ts = Inr () \<longleftrightarrow> 1 \<le> length ts \<and> length ts \<le> 32 \<and> list_all target_ok ts
     \<and> distinct (map target_key ts) \<and> one_authority ts"
  using acquire_fold_Inr [of "[]" Map.empty ts]
  by (auto simp: acquire_checks_def rbind_Inr_iff list_all_iff)

definition update_ok :: "lighting_intent \<Rightarrow> lighting_target list \<Rightarrow> lighting_target \<Rightarrow> lighting_update \<Rightarrow> bool" where
  "update_ok intent targets authority u \<longleftrightarrow>
     tg_receiver_id (up_target u) = tg_receiver_id authority
     \<and> target_authority (up_target u) = target_authority authority
     \<and> up_target u \<in> set targets
     \<and> int (length (up_colors u)) = tg_application_slot_count (up_target u)
     \<and> (intent = LightingIntent_OFF \<longrightarrow> \<not> list_ex lit (up_colors u))"

lemma submit_check_update_Inr:
  "submit_check_update intent targets a seen u = Inr seen' \<longleftrightarrow>
     update_ok intent targets a u \<and> target_key (up_target u) \<notin> set seen
     \<and> seen' = target_key (up_target u) # seen"
  by (auto simp: submit_check_update_def update_ok_def Let_def split: if_splits)

lemma submit_fold_Inr:
  "(\<exists>st. foldM (submit_check_update intent targets a) seen us = Inr st) \<longleftrightarrow>
     list_all (update_ok intent targets a) us
     \<and> distinct (map (\<lambda>u. target_key (up_target u)) us)
     \<and> set (map (\<lambda>u. target_key (up_target u)) us) \<inter> set seen = {}"
proof (induction us arbitrary: seen)
  case Nil
  show ?case by simp
next
  case (Cons u us)
  have step: "(\<exists>st. foldM (submit_check_update intent targets a) seen (u # us) = Inr st) \<longleftrightarrow>
      (update_ok intent targets a u \<and> target_key (up_target u) \<notin> set seen)
      \<and> (\<exists>st. foldM (submit_check_update intent targets a) (target_key (up_target u) # seen) us = Inr st)"
    by (auto simp: rbind_Inr_iff submit_check_update_Inr)
  show ?case unfolding step Cons.IH by auto
qed

lemma submit_checks_Inr:
  "submit_checks intent targets us = Inr a \<longleftrightarrow>
     us \<noteq> [] \<and> a = up_target (hd us) \<and> list_all (update_ok intent targets a) us
     \<and> distinct (map (\<lambda>u. target_key (up_target u)) us)"
proof (cases us)
  case (Cons u vs)
  then show ?thesis
    using submit_fold_Inr [of intent targets "up_target u" "[]" us]
    by (auto simp: submit_checks_def rbind_Inr_iff)
qed (simp add: submit_checks_def)

lemma check_grant_Inr:
  "check_grant result expected state lease = Inr g \<longleftrightarrow>
     result = LeaseResultGranted g \<and> lg_state g = state \<and> sorted_resources (lg_resources g) = expected
     \<and> (lease = None \<or> lease = Some (lg_lease_id g))"
  by (auto simp: check_grant_def split: lease_result.splits if_splits)

section \<open>The session invariant\<close>

text \<open>
  A session's targets passed the checks of \<open>acquire\<close> and, while it is active, its grant covers exactly
  their resources.
\<close>

definition session_ok :: "lighting_session \<Rightarrow> bool" where
  "session_ok ses \<longleftrightarrow> acquire_checks (ses_targets ses) = Inr ()
     \<and> (case ses_grant ses of None \<Rightarrow> True
        | Some g \<Rightarrow> sorted_resources (lg_resources g) = resources_of (ses_targets ses))"

lemma session_acquire_Inr:
  "session_acquire B ts d b = (Inr ses, b') \<longleftrightarrow>
     acquire_checks ts = Inr () \<and>
     (\<exists>g. lb_acquire_lease B (resources_of ts) d b = (Inr (LeaseResultGranted g), b')
        \<and> lg_state g = LeaseState_GRANTED \<and> sorted_resources (lg_resources g) = resources_of ts
        \<and> ses = \<lparr>ses_targets = ts, ses_grant = Some g, ses_connection_epoch = lb_connection_epoch B b'\<rparr>)"
  by (auto simp: session_acquire_def io_bind_Inr check_grant_Inr session_init_def)

lemma session_acquire_ok: "session_acquire B ts d b = (Inr ses, b') \<Longrightarrow> session_ok ses"
  by (auto simp: session_acquire_Inr session_ok_def)

text \<open>What every operation keeps of the session: the invariant, the targets and the epoch.\<close>

definition session_rel :: "'b \<times> lighting_session \<Rightarrow> 'b \<times> lighting_session \<Rightarrow> bool" where
  "session_rel st st' \<longleftrightarrow> (session_ok (snd st) \<longrightarrow> session_ok (snd st'))
     \<and> ses_targets (snd st') = ses_targets (snd st)
     \<and> ses_connection_epoch (snd st') = ses_connection_epoch (snd st)"

interpretation ses: step_relation session_rel
  by unfold_locales (auto simp: session_rel_def)

lemma abandon_ok: "session_ok ses \<Longrightarrow> session_ok (abandon ses)"
  by (simp add: session_ok_def abandon_def)

lemma abandon_fields [simp]:
  "ses_targets (abandon ses) = ses_targets ses" "ses_connection_epoch (abandon ses) = ses_connection_epoch ses"
  "ses_grant (abandon ses) = None"
  by (simp_all add: abandon_def)

lemma session_parts_rel:
  "keeps session_rel (on_bridge m)"
  "keeps session_rel (require_grant B)"
  "keeps session_rel (set_grant None)"
  "keeps session_rel m' \<Longrightarrow> keeps session_rel (abandon_on_raise m')"
proof -
  show "keeps session_rel (on_bridge m)"
    by (auto simp: keeps_def on_bridge_def session_rel_def Let_def split: prod.splits)
  show "keeps session_rel (require_grant B)"
    by (auto simp: keeps_def require_grant_def session_rel_def abandon_ok split: option.splits if_splits)
  show "keeps session_rel (set_grant None)"
    by (auto simp: keeps_def set_grant_def session_rel_def session_ok_def)
  have "keeps session_rel (\<lambda>st. (Inl e, (fst st, abandon (snd st))))" for e
    by (simp add: keeps_def session_rel_def abandon_ok)
  then show "keeps session_rel (abandon_on_raise m')" if "keeps session_rel m'"
    unfolding abandon_on_raise_def by (intro ses.catch_keeps that)
qed

lemma renew_grant_rel:
  "keeps session_rel (\<lambda>st. io_bind (io_lift (check_grant result (resources_of (ses_targets (snd st))) state lease))
     (\<lambda>g. set_grant (Some g)) st)"
  by (auto simp: keeps_def io_bind_def check_grant_Inr set_grant_def session_rel_def session_ok_def
      split: sum.splits)

lemma session_renew_rel: "keeps session_rel (session_renew B d)"
  unfolding session_renew_def
  by (intro ses.bind_keeps session_parts_rel renew_grant_rel)

lemma session_release_rel: "keeps session_rel (session_release B)"
proof -
  have "keeps session_rel (io_bind (require_grant B) (\<lambda>grant.
        io_bind (abandon_on_raise (
          io_bind (on_bridge (lb_release_lease B (lg_lease_id grant))) (\<lambda>result st.
          io_lift (check_grant result (resources_of (ses_targets (snd st)))
              LeaseState_RELEASED (Some (lg_lease_id grant))) st))) (\<lambda>_. set_grant None)))"
    by (intro ses.bind_keeps session_parts_rel ses.lift_state_keeps)
  then show ?thesis
    by (auto simp: keeps_def session_release_def ses.refl)
qed

lemma session_submit_rel: "keeps session_rel (session_submit B intent us d)"
  unfolding session_submit_def
  by (intro ses.bind_keeps session_parts_rel ses.bind_lift_keeps)

lemma session_exit_rel: "keeps session_rel (session_exit B raised)"
proof -
  have "keeps session_rel (\<lambda>st. (Inr (), (fst st, abandon (snd st))))"
    by (simp add: keeps_def session_rel_def abandon_ok)
  then show ?thesis
    unfolding session_exit_def by (intro ses.if_keeps ses.catch_keeps session_release_rel)
qed

section \<open>Histories of a session\<close>

text \<open>
  The states a session can be in: \<open>b0\<close> is the bridge right after \<open>acquire\<close> returned, and \<open>later\<close>
  relates the bridge states before and after what other callers of the bridge do in between.
\<close>

inductive session_reach ::
  "'b lighting_bridge \<Rightarrow> ('b \<Rightarrow> 'b \<Rightarrow> bool) \<Rightarrow> 'b \<Rightarrow> 'b \<times> lighting_session \<Rightarrow> bool"
  for B later b0 where
  acquired: "session_acquire B ts d b = (Inr ses, b0) \<Longrightarrow> session_reach B later b0 (b0, ses)"
| moved: "session_reach B later b0 (b, ses) \<Longrightarrow> later b b' \<Longrightarrow> session_reach B later b0 (b', ses)"
| renewed: "session_reach B later b0 st \<Longrightarrow> session_renew B d st = (r, st') \<Longrightarrow> session_reach B later b0 st'"
| released: "session_reach B later b0 st \<Longrightarrow> session_release B st = (r, st') \<Longrightarrow> session_reach B later b0 st'"
| submitted: "session_reach B later b0 st \<Longrightarrow> session_submit B intent us dl st = (r, st')
    \<Longrightarrow> session_reach B later b0 st'"
| exited: "session_reach B later b0 st \<Longrightarrow> session_exit B raised st = (r, st') \<Longrightarrow> session_reach B later b0 st'"
| abandoned: "session_reach B later b0 (b, ses) \<Longrightarrow> session_reach B later b0 (b, abandon ses)"

lemma session_reach_ok:
  "session_reach B later b0 st \<Longrightarrow>
     session_ok (snd st) \<and> ses_connection_epoch (snd st) = lb_connection_epoch B b0"
proof (induction rule: session_reach.induct)
  case (acquired ts d b ses)
  then show ?case by (auto simp: session_acquire_ok) (auto simp: session_acquire_Inr)
next
  case (renewed st d r st')
  then show ?case using keepsD [OF session_renew_rel renewed(2)] by (auto simp: session_rel_def)
next
  case (released st r st')
  then show ?case using keepsD [OF session_release_rel released(2)] by (auto simp: session_rel_def)
next
  case (submitted st intent us dl r st')
  then show ?case using keepsD [OF session_submit_rel submitted(2)] by (auto simp: session_rel_def)
next
  case (exited st raised r st')
  then show ?case using keepsD [OF session_exit_rel exited(2)] by (auto simp: session_rel_def)
qed (auto simp: abandon_ok)

section \<open>What sessions rely on in a bridge\<close>

text \<open>A relation on bridge states, on the states of a session over that bridge.\<close>

definition st_later :: "('b \<Rightarrow> 'b \<Rightarrow> bool) \<Rightarrow> 'b \<times> lighting_session \<Rightarrow> 'b \<times> lighting_session \<Rightarrow> bool" where
  "st_later later st st' \<longleftrightarrow> later (fst st) (fst st')"

text \<open>
  The contract of a bridge: \<open>conn\<close> is the channel of its live connection and \<open>traffic\<close> what it sent.
  At an unchanged epoch the connection is unchanged, or is gone for good and no identity is issued;
  a submission goes out on the live connection only.
\<close>

locale lighting_bridge_contract =
  fixes B :: "'b lighting_bridge"
    and later :: "'b \<Rightarrow> 'b \<Rightarrow> bool"
    and conn :: "'b \<Rightarrow> nat option"
    and traffic :: "'b \<Rightarrow> (nat \<times> rpc_request) list"
  assumes later_refl: "later b b"
    and later_trans: "later b b' \<Longrightarrow> later b' b'' \<Longrightarrow> later b b''"
    and renew_later: "keeps later (lb_renew_lease B l d)"
    and release_later: "keeps later (lb_release_lease B l)"
    and submit_later: "keeps later (lb_submit_transaction B sub)"
    and next_later: "keeps later (lb_next_transaction_id B)"
    and acquire_conn: "lb_acquire_lease B rs d b = (Inr x, b') \<Longrightarrow> conn b' \<noteq> None"
    and same_epoch: "later b b' \<Longrightarrow> lb_connection_epoch B b' = lb_connection_epoch B b \<Longrightarrow> conn b = Some ch
      \<Longrightarrow> conn b' = Some ch
          \<or> (\<exists>e b''. lb_next_transaction_id B b' = (Inl e, b'') \<and> traffic b'' = traffic b')"
    and next_conn: "conn b = Some ch \<Longrightarrow> lb_next_transaction_id B b = (r, b')
      \<Longrightarrow> conn b' = Some ch \<and> traffic b' = traffic b"
    and submit_conn: "conn b = Some ch \<Longrightarrow> lb_submit_transaction B sub b = (res, b')
      \<Longrightarrow> \<exists>xs. traffic b' = traffic b @ xs \<and> (\<forall>x \<in> set xs. submits (snd x) \<longrightarrow> fst x = ch)"

sublocale lighting_bridge_contract \<subseteq> sl: step_relation "st_later later"
  by unfold_locales (auto simp: st_later_def intro: later_refl later_trans)

context lighting_bridge_contract
begin

lemma on_bridge_later: "keeps later m \<Longrightarrow> keeps (st_later later) (on_bridge m)"
  by (auto simp: keeps_def on_bridge_def st_later_def Let_def split: prod.splits)

lemma parts_later:
  "keeps (st_later later) (require_grant B)" "keeps (st_later later) (set_grant g)"
  "keeps (st_later later) m \<Longrightarrow> keeps (st_later later) (abandon_on_raise m)"
proof -
  show "keeps (st_later later) (require_grant B)"
    by (auto simp: keeps_def require_grant_def st_later_def later_refl split: option.splits if_splits)
  show "keeps (st_later later) (set_grant g)"
    by (auto simp: keeps_def set_grant_def st_later_def later_refl)
  show "keeps (st_later later) m \<Longrightarrow> keeps (st_later later) (abandon_on_raise m)"
    unfolding abandon_on_raise_def
    by (rule sl.catch_keeps) (auto simp: keeps_def st_later_def later_refl)
qed

lemma renew_st_later: "keeps (st_later later) (session_renew B d)"
  unfolding session_renew_def
  by (intro sl.bind_keeps parts_later on_bridge_later renew_later sl.bind_lift_keeps)

lemma release_st_later: "keeps (st_later later) (session_release B)"
proof -
  have "keeps (st_later later) (io_bind (require_grant B) (\<lambda>grant.
        io_bind (abandon_on_raise (
          io_bind (on_bridge (lb_release_lease B (lg_lease_id grant))) (\<lambda>result st.
          io_lift (check_grant result (resources_of (ses_targets (snd st)))
              LeaseState_RELEASED (Some (lg_lease_id grant))) st))) (\<lambda>_. set_grant None)))"
    by (intro sl.bind_keeps parts_later on_bridge_later release_later sl.lift_state_keeps)
  then show ?thesis
    by (auto simp: keeps_def session_release_def sl.refl)
qed

lemma submit_st_later: "keeps (st_later later) (session_submit B intent us dl)"
  unfolding session_submit_def
  by (intro sl.bind_keeps parts_later on_bridge_later submit_later next_later sl.bind_lift_keeps)

lemma exit_st_later: "keeps (st_later later) (session_exit B raised)"
proof -
  have "keeps (st_later later) (\<lambda>st. (Inr (), (fst st, abandon (snd st))))"
    by (simp add: keeps_def st_later_def later_refl)
  then show ?thesis
    unfolding session_exit_def by (intro sl.if_keeps sl.catch_keeps release_st_later)
qed

lemma reach_later: "session_reach B later b0 st \<Longrightarrow> later b0 (fst st)"
proof (induction rule: session_reach.induct)
  case (moved b ses b')
  then show ?case using later_trans by auto
next
  case (renewed st d r st')
  then show ?case using keepsD [OF renew_st_later renewed(2)] later_trans by (auto simp: st_later_def)
next
  case (released st r st')
  then show ?case using keepsD [OF release_st_later released(2)] later_trans by (auto simp: st_later_def)
next
  case (submitted st intent us dl r st')
  then show ?case using keepsD [OF submit_st_later submitted(2)] later_trans by (auto simp: st_later_def)
next
  case (exited st raised r st')
  then show ?case using keepsD [OF exit_st_later exited(2)] later_trans by (auto simp: st_later_def)
qed (auto simp: later_refl)

lemma reach_conn: "session_reach B later b0 st \<Longrightarrow> conn b0 \<noteq> None"
  by (induction rule: session_reach.induct) (auto simp: session_acquire_Inr dest: acquire_conn)

text \<open>What a session submits goes out on the connection its lease was granted on.\<close>

lemma submit_on_granting_connection:
  assumes reach: "session_reach B later b0 (b, ses)"
    and run: "session_submit B intent us dl (b, ses) = (r, (b', ses'))"
  shows "\<exists>ch xs. conn b0 = Some ch \<and> traffic b' = traffic b @ xs
    \<and> (\<forall>x \<in> set xs. submits (snd x) \<longrightarrow> fst x = ch)"
proof -
  obtain ch where ch: "conn b0 = Some ch" using reach_conn [OF reach] by blast
  show ?thesis
  proof (cases "b' = b")
    case True
    then show ?thesis using ch by auto
  next
    case False
    then obtain g a where steps: "require_grant B (b, ses) = (Inr g, (b, ses))"
        "submit_checks intent (ses_targets ses) us = Inr a"
      using run by (auto simp: session_submit_def io_bind_def require_grant_def
          split: option.splits if_splits sum.splits)
    then have epoch: "lb_connection_epoch B b = lb_connection_epoch B b0"
      using session_reach_ok [OF reach] by (auto simp: require_grant_def split: option.splits if_splits)
    obtain q b1 where nx: "lb_next_transaction_id B b = (q, b1)" by force
    have rest: "(case q of Inl e \<Rightarrow> (Inl e, (b1, ses))
        | Inr tid \<Rightarrow> on_bridge (lb_submit_transaction B (submission_of intent us dl g a tid)) (b1, ses))
        = (r, (b', ses'))"
      using run steps nx by (auto simp: session_submit_def io_bind_def on_bridge_def split: sum.splits)
    have now: "conn b = Some ch \<or> (\<exists>e. q = Inl e \<and> traffic b1 = traffic b)"
      using same_epoch [OF reach_later [OF reach]] epoch ch nx by auto
    show ?thesis
    proof (cases q)
      case (Inl e)
      then have "traffic b' = traffic b" using rest now next_conn [OF _ nx] by auto
      then show ?thesis using ch by auto
    next
      case (Inr tid)
      then have "conn b1 = Some ch" "traffic b1 = traffic b" using now next_conn [OF _ nx] by auto
      moreover obtain xs where "traffic b' = traffic b1 @ xs"
          "\<forall>x \<in> set xs. submits (snd x) \<longrightarrow> fst x = ch"
        using rest Inr submit_conn [OF \<open>conn b1 = Some ch\<close>]
        by (force simp: on_bridge_def Let_def split: prod.splits)
      ultimately show ?thesis using ch by auto
    qed
  qed
qed

end

section \<open>The SDK's bridges keep the contract\<close>

lemma submit_transaction_channel:
  assumes "submit_transaction ops c sub w = (r, w')"
  shows "\<exists>xs. sent w' = sent w @ xs \<and> (\<forall>x \<in> set xs. fst x = cl_channel c)"
  using assms
  by (auto simp: submit_transaction_def exchange_session_def io_bind_def
      split: prod.splits sum.splits dest!: world_request_id_sent channel_exchange_run)

interpretation plain: lighting_bridge_contract "client_bridge ops" "\<lambda>st st'. fst st' = fst st"
  "\<lambda>st. Some (cl_channel (fst st))" "\<lambda>st. sent (snd st)" for ops
proof unfold_locales
  show "Some (cl_channel (fst b')) = Some ch \<and> sent (snd b') = sent (snd b)"
    if "Some (cl_channel (fst b)) = Some ch" "lb_next_transaction_id (client_bridge ops) b = (r, b')" for b ch r b'
    using that
    by (auto simp: client_bridge_def on_client_def client_next_transaction_id_def Let_def
        split: prod.splits dest: world_transaction_id_sent)
  show "\<exists>xs. sent (snd b') = sent (snd b) @ xs \<and> (\<forall>x\<in>set xs. submits (snd x) \<longrightarrow> fst x = ch)"
    if "Some (cl_channel (fst b)) = Some ch" "lb_submit_transaction (client_bridge ops) sub b = (res, b')"
    for b ch sub res b'
    using that
    by (force simp: client_bridge_def on_client_def Let_def split: prod.splits
        dest!: submit_transaction_channel)
qed (auto simp: client_bridge_def keeps_def on_client_def Let_def split: prod.splits)

definition rc_channel :: "'w recovering_client \<Rightarrow> nat option" where
  "rc_channel rc = map_option cl_channel (rc_connection rc)"

lemma ensure_connected_Inr: "ensure_connected ops factory rc = (Inr c, rc') \<Longrightarrow> rc_connection rc' = Some c"
  by (auto simp: ensure_connected_def reconnect_def io_bind_def install_connection_def
      split: option.splits prod.splits sum.splits)

lemma reconnect_Inr: "reconnect ops factory rc = (Inr c, rc') \<Longrightarrow> rc_connection rc' = Some c"
  by (auto simp: reconnect_def io_bind_def install_connection_def split: prod.splits sum.splits)

lemma on_world_connection: "on_world m rc = (r, rc') \<Longrightarrow> rc_connection rc' = rc_connection rc"
  by (auto simp: on_world_def Let_def split: prod.splits)

lemma retry_read_connection:
  assumes "retry_read ops factory operation rc = (Inr x, rc')"
  shows "rc_connection rc' \<noteq> None"
proof -
  obtain c rc1 where c: "ensure_connected ops factory rc = (Inr c, rc1)"
    and run: "io_catch (on_world (operation c)) (\<lambda>e.
         if is_connection_error e then io_bind (reconnect ops factory) (\<lambda>c'. on_world (operation c'))
         else io_raise e) rc1 = (Inr x, rc')"
    using assms by (auto simp: retry_read_def io_bind_Inr)
  obtain q rc2 where op: "on_world (operation c) rc1 = (q, rc2)" by force
  show ?thesis
  proof (cases q)
    case (Inr y)
    then show ?thesis
      using run op ensure_connected_Inr [OF c] on_world_connection [OF op] by (simp add: io_catch_def)
  next
    case (Inl e)
    then obtain c' rc3 where "reconnect ops factory rc2 = (Inr c', rc3)" "on_world (operation c') rc3 = (Inr x, rc')"
      using run op by (auto simp: io_catch_def io_bind_Inr split: if_splits)
    then show ?thesis using reconnect_Inr on_world_connection by fastforce
  qed
qed

lemma world_transaction_id_no_connection_error:
  "world_transaction_id w = (Inl e, w') \<Longrightarrow> \<not> is_connection_error e"
  by (auto simp: world_transaction_id_def next_transaction_id_def string_wrapper_def Let_def is_connection_error_def
      split: prod.splits option.splits if_splits)

lemma r_next_connected:
  assumes conn: "rc_connection rc = Some c" and run: "r_next_transaction_id ops factory rc = (r, rc')"
  shows "rc_connection rc' = Some c \<and> rc_sent rc' = rc_sent rc"
proof -
  obtain q w where ids: "world_transaction_id (rc_world rc) = (q, w)" by force
  have "(r, rc') = (q, rc\<lparr>rc_world := w\<rparr>)"
    using run conn ids world_transaction_id_no_connection_error [of "rc_world rc" _ w]
    by (cases q) (simp_all add: r_next_transaction_id_def retry_read_def ensure_connected_def io_bind_def io_catch_def
      client_next_transaction_id_def on_world_def)
  then show ?thesis using conn world_transaction_id_sent [OF ids] by simp
qed

lemma r_next_exhausted:
  assumes "rc_connection rc = None" and "rc_epoch rc = MAX_CONNECTION_EPOCH"
  shows "\<exists>e. r_next_transaction_id ops factory rc = (Inl e, rc)"
  using assms
  by (simp add: r_next_transaction_id_def retry_read_def ensure_connected_def reconnect_def
      drop_connection_def advance_epoch_def io_bind_def)

lemma r_submit_connected:
  assumes "client_factory factory" and conn: "rc_connection rc = Some c"
    and run: "r_submit_transaction ops factory sub rc = (r, rc')"
  shows "\<exists>xs. rc_sent rc' = rc_sent rc @ xs \<and> (\<forall>x \<in> set xs. submits (snd x) \<longrightarrow> fst x = cl_channel c)"
proof -
  let ?handler = "\<lambda>e. if is_connection_error e
         then io_catch
           (io_bind (reconnect ops factory) (\<lambda>c'.
              on_world (transaction_outcome ops c' (ts_transaction_id sub))))
           (\<lambda>e'. if is_sdk_error e' then io_return (unknown_outcome (ts_transaction_id sub))
                 else io_raise e')
         else io_raise e"
  obtain q rc1 where first: "on_world (submit_transaction ops c sub) rc = (q, rc1)" by force
  then obtain xs where xs: "rc_sent rc1 = rc_sent rc @ xs" "\<forall>x \<in> set xs. fst x = cl_channel c"
    using submit_transaction_channel [of ops c sub "rc_world rc"]
    by (force simp: on_world_def Let_def split: prod.splits)
  have handler: "sends_at_most (\<lambda>rc. rc_sent rc) submits (0 + 0 + 0) (?handler e)" for e
    by (intro sends_at_most_bind sends_at_most_catch sends_at_most_if sends_at_most_pure on_world_at_most
        sends_at_most_none operations_send_no_submit client_factory.factory_sends_no [OF assms(1)]
        submits_not_negotiates)
  have rest: "(case q of Inl e \<Rightarrow> ?handler e rc1 | Inr x \<Rightarrow> (Inr x, rc1)) = (r, rc')"
    using run conn first by (simp add: r_submit_transaction_def ensure_connected_def io_bind_def io_catch_def)
  show ?thesis
  proof (cases q)
    case (Inr x)
    then show ?thesis using rest xs by auto
  next
    case (Inl e)
    then have "?handler e rc1 = (r, rc')" using rest by simp
    then obtain ys where "rc_sent rc' = rc_sent rc1 @ ys" "length (filter (\<lambda>x. submits (snd x)) ys) \<le> 0"
      using at_most_snd [OF handler [of e], of rc1] by auto
    then show ?thesis using xs by (intro exI [of _ "xs @ ys"]) (auto simp: filter_empty_conv)
  qed
qed

interpretation recovering: lighting_bridge_contract
  "recovering_bridge ops (unix_client_factory ops open_channel config)" epoch_rel rc_channel "\<lambda>rc. rc_sent rc"
  for ops open_channel config
proof unfold_locales
  let ?f = "unix_client_factory ops open_channel config"
  show "keeps epoch_rel (lb_renew_lease (recovering_bridge ops ?f) l d)"
    "keeps epoch_rel (lb_release_lease (recovering_bridge ops ?f) l)"
    "keeps epoch_rel (lb_submit_transaction (recovering_bridge ops ?f) sub)"
    "keeps epoch_rel (lb_next_transaction_id (recovering_bridge ops ?f))" for l d sub
    by (simp_all add: recovering_bridge_def r_renew_lease_def r_release_lease_def r_next_transaction_id_def
        lease_call_epoch submit_epoch retry_read_epoch)
  show "rc_channel b' \<noteq> None" if "lb_acquire_lease (recovering_bridge ops ?f) rs d b = (Inr x, b')" for rs d b x b'
    using that by (auto simp: recovering_bridge_def r_acquire_lease_def rc_channel_def dest: retry_read_connection)
  show "rc_channel b' = Some ch \<or> (\<exists>e b''. lb_next_transaction_id (recovering_bridge ops ?f) b' = (Inl e, b'')
      \<and> rc_sent b'' = rc_sent b')"
    if "epoch_rel b b'" "lb_connection_epoch (recovering_bridge ops ?f) b' = lb_connection_epoch (recovering_bridge ops ?f) b"
      "rc_channel b = Some ch" for b b' ch
    using that r_next_exhausted [of b' ops ?f]
    by (auto simp: recovering_bridge_def epoch_rel_def rc_channel_def)
  show "rc_channel b' = Some ch \<and> rc_sent b' = rc_sent b"
    if "rc_channel b = Some ch" "lb_next_transaction_id (recovering_bridge ops ?f) b = (r, b')" for b ch r b'
    using that r_next_connected [of b _ ops ?f r b'] by (auto simp: recovering_bridge_def rc_channel_def)
  show "\<exists>xs. rc_sent b' = rc_sent b @ xs \<and> (\<forall>x\<in>set xs. submits (snd x) \<longrightarrow> fst x = ch)"
    if "rc_channel b = Some ch" "lb_submit_transaction (recovering_bridge ops ?f) sub b = (res, b')" for b ch sub res b'
    using that r_submit_connected [OF unix.client_factory_axioms [of ops open_channel config], of b _ ops sub res b']
    by (auto simp: recovering_bridge_def rc_channel_def)
qed (auto intro: epoch.refl epoch.trans)

section \<open>Properties\<close>

lemma sorted_resources_mset [simp]: "mset (sorted_resources rs) = mset rs"
  by (simp add: sorted_resources_def)

lemma sorted_resources_set [simp]: "set (sorted_resources rs) = set rs"
  by (simp add: sorted_resources_def)

lemma sorted_resources_distinct [simp]: "distinct (sorted_resources rs) \<longleftrightarrow> distinct rs"
  by (simp add: sorted_resources_def distinct_sort)

lemma resource_key_of_inj: "resource_key_of r = resource_key_of q \<Longrightarrow> r = q"
  by (cases "rk_kind r"; cases "rk_kind q") (simp_all add: resource_key_of_def)

lemma on_bridge_run: "on_bridge m st = (r, st') \<longleftrightarrow> m (fst st) = (r, fst st') \<and> snd st' = snd st"
  by (cases st') (auto simp: on_bridge_def split: prod.splits)

lemma session_submit_Inr:
  "session_submit B intent us dl (b, ses) = (Inr x, st') \<longleftrightarrow>
     (\<exists>g a tid b1. ses_grant ses = Some g \<and> lb_connection_epoch B b = ses_connection_epoch ses
        \<and> submit_checks intent (ses_targets ses) us = Inr a
        \<and> lb_next_transaction_id B b = (Inr tid, b1)
        \<and> lb_submit_transaction B (submission_of intent us dl g a tid) b1 = (Inr x, fst st')
        \<and> snd st' = ses)"
  by (fastforce simp: session_submit_def io_bind_Inr require_grant_def on_bridge_run split: option.splits if_splits)

text \<open>What the frames and profiles of a submission are, update by update.\<close>

lemma submission_frames_length [simp]: "length (submission_frames us) = length us"
  by (simp add: submission_frames_def)

lemma submission_frames_nth:
  "i < length us \<Longrightarrow> submission_frames us ! i =
     \<lparr>lf_device_id = tg_device_id (up_target (us ! i)), lf_frame_index = int i, lf_colors = up_colors (us ! i)\<rparr>"
  by (simp add: submission_frames_def nth_enumerate_eq)

lemma submission_frames_devices: "map lf_device_id (submission_frames us) = map (\<lambda>u. tg_device_id (up_target u)) us"
  by (rule nth_equalityI) (simp_all add: submission_frames_nth)

lemma submission_frames_colors: "f \<in> set (submission_frames us) \<Longrightarrow> \<exists>u \<in> set us. lf_colors f = up_colors u"
  by (auto simp: in_set_conv_nth [of f] submission_frames_nth)

text \<open>The updates a reachable session lets through are on its own targets, one receiver generation.\<close>

definition within_targets :: "lighting_intent \<Rightarrow> lighting_target list \<Rightarrow> lighting_target \<Rightarrow> lighting_update \<Rightarrow> bool" where
  "within_targets intent targets a u \<longleftrightarrow> up_target u \<in> set targets \<and> target_ok (up_target u)
     \<and> tg_receiver_id (up_target u) = tg_receiver_id a \<and> tg_generation_id (up_target u) = tg_generation_id a
     \<and> int (length (up_colors u)) = tg_application_slot_count (up_target u)
     \<and> (intent = LightingIntent_OFF \<longrightarrow> \<not> list_ex lit (up_colors u))"

lemma submit_checks_within:
  assumes "submit_checks intent targets us = Inr a" and "\<And>t. t \<in> set targets \<Longrightarrow> target_ok t"
  shows "\<And>u. u \<in> set us \<Longrightarrow> within_targets intent targets a u"
    and "distinct (map (\<lambda>u. tg_resource (up_target u)) us)"
    and "distinct (map (\<lambda>u. tg_device_id (up_target u)) us)"
proof -
  show within: "within_targets intent targets a u" if "u \<in> set us" for u
  proof -
    have "update_ok intent targets a u"
      using assms(1) that unfolding submit_checks_Inr list_all_iff by blast
    then show ?thesis
      using assms(2) [of "up_target u"] by (simp add: update_ok_def within_targets_def)
  qed
  have keys: "distinct us" "inj_on (\<lambda>u. target_key (up_target u)) (set us)"
    using assms(1) unfolding submit_checks_Inr distinct_map by blast+
  then show "distinct (map (\<lambda>u. tg_resource (up_target u)) us)"
    by (auto simp: distinct_map inj_on_def)
  have "target_key (up_target u) = target_key (up_target v)"
    if "u \<in> set us" "v \<in> set us" "tg_device_id (up_target u) = tg_device_id (up_target v)" for u v
    using within [OF that(1)] within [OF that(2)] that(3)
    by (simp add: within_targets_def target_ok_def resource_key_of_def)
  then show "distinct (map (\<lambda>u. tg_device_id (up_target u)) us)"
    using keys unfolding distinct_map inj_on_def by blast
qed

text \<open>A concrete session on the scripted bridge.\<close>

definition ex_profile :: profile_binding_view where
  "ex_profile = \<lparr>pb_profile_id = ''pro'', pb_profile_digest = ''dig''\<rparr>"

definition ex_target :: "string \<Rightarrow> lighting_target" where
  "ex_target dev = \<lparr>tg_receiver_id = ''rx'', tg_generation_id = 1, tg_device_id = dev, tg_endpoint_id = ''ep'',
     tg_receiver_profile = ex_profile, tg_device_profile = ex_profile, tg_application_slot_count = 2,
     tg_resource = \<lparr>rk_receiver_id = ''rx'', rk_generation_id = 1, rk_device_id = dev,
       rk_kind = ResourceKind_LIGHTING\<rparr>\<rparr>"

definition ex_targets :: "lighting_target list" where
  "ex_targets = [ex_target ''mouse'', ex_target ''mat'']"

definition ex_grant :: "lease_state \<Rightarrow> lease_grant" where
  "ex_grant state = \<lparr>lg_lease_id = ''lease'', lg_client_id = ''cli'',
     lg_resources = map tg_resource ex_targets, lg_expires_at_ms = 1000, lg_state = state\<rparr>"

definition ex_session :: "int \<Rightarrow> lighting_session" where
  "ex_session epoch = \<lparr>ses_targets = ex_targets, ses_grant = Some (ex_grant LeaseState_GRANTED),
     ses_connection_epoch = epoch\<rparr>"

definition ex_lease_script :: answers where
  "ex_lease_script =
     [Inr (RpcResponseAcquireLeaseSuccess (ex_success ''p-r-1'' (LeaseResultGranted (ex_grant LeaseState_GRANTED)))),
      Inr (RpcResponseSubmitTransactionSuccess (ex_success ''p-r-2'' ex_unavailable))]"

definition ex_black :: rgb_color where
  "ex_black = \<lparr>rgb_red = 0, rgb_green = 0, rgb_blue = 0\<rparr>"

definition ex_updates :: "lighting_update list" where
  "ex_updates = map (\<lambda>t. \<lparr>up_target = t, up_colors = [ex_black, ex_black]\<rparr>) ex_targets"

definition ex_acquired :: "answers recovering_client" where
  "ex_acquired = (ex_recovering (tl ex_lease_script))\<lparr>rc_world := (scripted_world (tl ex_lease_script))\<lparr>
     sent := [(0, RpcRequestAcquireLease (session_envelope ex_client
        \<lparr>lr_request_id = ''p-r-1'', lr_client_id = ''cli'', lr_resources = resources_of ex_targets,
         lr_duration_ms = 500\<rparr> ''p-r-1''))],
     identities := \<lparr>id_prefix = ''p'', id_request = 1, id_transaction = 0\<rparr>\<rparr>\<rparr>"

abbreviation ex_bridge :: "answers recovering_client lighting_bridge" where
  "ex_bridge \<equiv> recovering_bridge scripted (unix_client_factory scripted (\<lambda>_. (Inr 3, [])) ex_config)"

lemma ex_acquire: "session_acquire ex_bridge ex_targets 500 (ex_recovering ex_lease_script) = (Inr (ex_session 1), ex_acquired)"
  by code_simp

lemma ex_reach: "session_reach ex_bridge epoch_rel ex_acquired (ex_acquired, ex_session 1)"
  using ex_acquire by (rule session_reach.acquired)

lemma ex_session_submit:
  "\<exists>st'. session_submit ex_bridge LightingIntent_OFF ex_updates 900 (ex_acquired, ex_session 1) = (Inr ex_unavailable, st')"
proof -
  have "fst (session_submit ex_bridge LightingIntent_OFF ex_updates 900 (ex_acquired, ex_session 1)) = Inr ex_unavailable"
    by code_simp
  then show ?thesis by (metis prod.collapse)
qed

text \<open>
  C9. A transaction of a session stays inside its lease: in every state a session can reach, a
  submission that goes through carries the session's lease and only resources that lease grants,
  without repeats and in key order, all of one receiver generation; its frames are the updates in
  order, numbered from 0, one per device, each as long as the slot count bound for its device; and an
  Off transaction is all black.
\<close>

theorem submission_within_lease:
  assumes "session_reach B later b0 (b, ses)"
    and "session_submit B intent us dl (b, ses) = (Inr x, st')"
  shows "\<exists>g tid b1 sub. ses_grant ses = Some g \<and> lb_next_transaction_id B b = (Inr tid, b1)
    \<and> lb_submit_transaction B sub b1 = (Inr x, fst st') \<and> snd st' = ses
    \<and> ts_transaction_id sub = tid \<and> ts_lease_id sub = lg_lease_id g
    \<and> set (ts_resources sub) \<subseteq> set (lg_resources g) \<and> distinct (ts_resources sub)
    \<and> sorted (map resource_key_of (ts_resources sub))
    \<and> (\<forall>r \<in> set (ts_resources sub). rk_receiver_id r = ts_receiver_id sub \<and> rk_generation_id r = ts_generation_id sub)
    \<and> distinct (map lf_device_id (ts_frames sub))
    \<and> length (ts_frames sub) = length us \<and> length (ts_device_profiles sub) = length us
    \<and> (\<forall>i < length us. lf_frame_index (ts_frames sub ! i) = int i
         \<and> lf_colors (ts_frames sub ! i) = up_colors (us ! i)
         \<and> lf_device_id (ts_frames sub ! i) = dpb_device_id (ts_device_profiles sub ! i)
         \<and> int (length (lf_colors (ts_frames sub ! i))) = dpb_application_slot_count (ts_device_profiles sub ! i))
    \<and> (intent = LightingIntent_OFF \<longrightarrow> (\<forall>f \<in> set (ts_frames sub). \<forall>c \<in> set (lf_colors f).
         rgb_red c = 0 \<and> rgb_green c = 0 \<and> rgb_blue c = 0))"
proof -
  obtain g a tid b1 where run: "ses_grant ses = Some g" "submit_checks intent (ses_targets ses) us = Inr a"
      "lb_next_transaction_id B b = (Inr tid, b1)" "snd st' = ses"
      "lb_submit_transaction B (submission_of intent us dl g a tid) b1 = (Inr x, fst st')"
    using assms(2) by (auto simp: session_submit_Inr)
  have ok: "session_ok ses" using session_reach_ok [OF assms(1)] by simp
  then have "\<And>t. t \<in> set (ses_targets ses) \<Longrightarrow> target_ok t"
    by (auto simp: session_ok_def acquire_checks_Inr list_all_iff)
  note checks = submit_checks_within [OF run(2) this]
  have "set (sorted_resources (lg_resources g)) = set (resources_of (ses_targets ses))"
    using ok run(1) by (simp add: session_ok_def)
  then have leased: "set (lg_resources g) = tg_resource ` set (ses_targets ses)"
    by (simp add: resources_of_def)
  have black: "\<forall>f \<in> set (submission_frames us). \<forall>c \<in> set (lf_colors f). rgb_red c = 0 \<and> rgb_green c = 0 \<and> rgb_blue c = 0"
    if "intent = LightingIntent_OFF"
    using checks(1) that by (fastforce simp: within_targets_def list_ex_iff lit_def dest!: submission_frames_colors)
  let ?sub = "submission_of intent us dl g a tid"
  have "set (ts_resources ?sub) \<subseteq> set (lg_resources g)"
    "\<forall>r \<in> set (ts_resources ?sub). rk_receiver_id r = ts_receiver_id ?sub \<and> rk_generation_id r = ts_generation_id ?sub"
    using checks(1) leased by (auto simp: submission_of_def within_targets_def target_ok_def)
  moreover have "\<forall>i < length us. int (length (up_colors (us ! i))) = tg_application_slot_count (up_target (us ! i))"
    using checks(1) by (simp add: within_targets_def)
  ultimately show ?thesis
    using run(1,3-5) checks(2,3) black
    by (intro exI [of _ g] exI [of _ tid] exI [of _ b1] exI [of _ ?sub])
      (simp add: submission_of_def submission_frames_devices submission_frames_nth submission_profiles_def
        sorted_resources_def [of "map _ us"])
qed

theorem submission_within_lease_witness:
  "\<exists>b1 sub st'. lb_submit_transaction ex_bridge sub b1 = (Inr ex_unavailable, fst st')
     \<and> ts_lease_id sub = ''lease'' \<and> set (ts_resources sub) \<subseteq> set (map tg_resource ex_targets)
     \<and> length (ts_frames sub) = 2"
proof -
  obtain st' where run: "session_submit ex_bridge LightingIntent_OFF ex_updates 900 (ex_acquired, ex_session 1)
      = (Inr ex_unavailable, st')" using ex_session_submit by blast
  have grant: "ses_grant (ex_session 1) = Some g \<longleftrightarrow> g = ex_grant LeaseState_GRANTED" for g
    by (auto simp: ex_session_def)
  from submission_within_lease [OF ex_reach run] obtain g b1 sub where
      "ses_grant (ex_session 1) = Some g" "lb_submit_transaction ex_bridge sub b1 = (Inr ex_unavailable, fst st')"
      "ts_lease_id sub = lg_lease_id g" "set (ts_resources sub) \<subseteq> set (lg_resources g)"
      "length (ts_frames sub) = length ex_updates" by blast
  then show ?thesis
    unfolding grant by (intro exI [of _ b1] exI [of _ sub] exI [of _ st'])
      (simp add: ex_grant_def ex_updates_def ex_targets_def)
qed

text \<open>
  C8. A lease is used only on the connection that granted it: whatever the reconnecting client went
  through since \<open>acquire\<close>, every transaction the session submits is sent on the connection the client
  had when the lease was granted.
\<close>

theorem lease_used_on_granting_connection:
  assumes "session_reach (recovering_bridge ops (unix_client_factory ops open_channel config)) epoch_rel rc0 (rc, ses)"
    and "session_submit (recovering_bridge ops (unix_client_factory ops open_channel config)) intent us dl (rc, ses)
      = (r, (rc', ses'))"
  shows "\<exists>c xs. rc_connection rc0 = Some c \<and> rc_sent rc' = rc_sent rc @ xs
    \<and> (\<forall>x \<in> set xs. submits (snd x) \<longrightarrow> fst x = cl_channel c)"
  using recovering.submit_on_granting_connection [OF assms] by (auto simp: rc_channel_def)

theorem lease_used_on_granting_connection_witness:
  "\<exists>rc' ses' c xs. session_submit ex_bridge LightingIntent_OFF ex_updates 900 (ex_acquired, ex_session 1)
        = (Inr ex_unavailable, (rc', ses'))
     \<and> rc_connection ex_acquired = Some c \<and> rc_sent rc' = rc_sent ex_acquired @ xs
     \<and> (\<forall>x \<in> set xs. submits (snd x) \<longrightarrow> fst x = cl_channel c)"
proof -
  obtain rc' ses' where run: "session_submit ex_bridge LightingIntent_OFF ex_updates 900 (ex_acquired, ex_session 1)
      = (Inr ex_unavailable, (rc', ses'))" using ex_session_submit by auto
  show ?thesis using lease_used_on_granting_connection [OF ex_reach run] run by blast
qed

text \<open>
  C14. \<open>acquire\<close> returns a session only on an exact lease: between one and 32 targets, each bound to
  its own lighting resource with at least one slot, no resource twice and one generation and profile
  per receiver; the lease asked for is on their resources in key order, and the grant is in state
  granted and covers exactly these resources.
\<close>

theorem acquire_holds_exact_lease:
  assumes "session_acquire B ts d b = (Inr ses, b')"
  shows "1 \<le> length ts \<and> length ts \<le> 32 \<and> list_all target_ok ts \<and> distinct (map tg_resource ts)
    \<and> (\<forall>t \<in> set ts. \<forall>u \<in> set ts. tg_receiver_id t = tg_receiver_id u \<longrightarrow>
         tg_generation_id t = tg_generation_id u \<and> tg_receiver_profile t = tg_receiver_profile u)
    \<and> ses_targets ses = ts \<and> ses_connection_epoch ses = lb_connection_epoch B b'
    \<and> (\<exists>g rs. ses_grant ses = Some g \<and> lb_acquire_lease B rs d b = (Inr (LeaseResultGranted g), b')
         \<and> sorted (map resource_key_of rs) \<and> mset rs = mset (map tg_resource ts)
         \<and> mset (lg_resources g) = mset (map tg_resource ts) \<and> lg_state g = LeaseState_GRANTED)"
proof -
  obtain g where g: "lb_acquire_lease B (resources_of ts) d b = (Inr (LeaseResultGranted g), b')"
      "lg_state g = LeaseState_GRANTED" "sorted_resources (lg_resources g) = resources_of ts"
      "ses = \<lparr>ses_targets = ts, ses_grant = Some g, ses_connection_epoch = lb_connection_epoch B b'\<rparr>"
      "acquire_checks ts = Inr ()"
    using assms by (auto simp: session_acquire_Inr)
  have "mset (lg_resources g) = mset (resources_of ts)"
    using arg_cong [OF g(3), of mset] by simp
  moreover have "mset (resources_of ts) = mset (map tg_resource ts)" "sorted (map resource_key_of (resources_of ts))"
    by (simp_all add: resources_of_def) (simp add: sorted_resources_def)
  moreover have checks: "one_authority ts" "list_all target_ok ts" "1 \<le> length ts" "length ts \<le> 32"
      "distinct (map resource_key_of (map tg_resource ts))"
    using g(5) unfolding acquire_checks_Inr map_map comp_def by blast+
  moreover have "distinct (map tg_resource ts)"
    using checks(5) unfolding distinct_map [of resource_key_of] by blast
  moreover have "\<forall>t \<in> set ts. \<forall>u \<in> set ts. tg_receiver_id t = tg_receiver_id u \<longrightarrow>
      tg_generation_id t = tg_generation_id u \<and> tg_receiver_profile t = tg_receiver_profile u"
    using checks(1) unfolding one_authority_def prod.inject by blast
  moreover have "ses_targets ses = ts" "ses_connection_epoch ses = lb_connection_epoch B b'" "ses_grant ses = Some g"
    by (simp_all add: g(4))
  ultimately show ?thesis
    using g(1,2) by (intro conjI exI [of _ g] exI [of _ "resources_of ts"]) (assumption | simp only:)+
qed

theorem acquire_holds_exact_lease_witness:
  "\<exists>g rs. ses_grant (ex_session 1) = Some g
     \<and> lb_acquire_lease ex_bridge rs 500 (ex_recovering ex_lease_script) = (Inr (LeaseResultGranted g), ex_acquired)
     \<and> mset rs = mset (map tg_resource ex_targets)"
  using acquire_holds_exact_lease [OF ex_acquire] by blast

text \<open>
  C15. A session of a connection that is gone does nothing: when the bridge's epoch is not the
  session's, \<open>renew\<close>, \<open>release\<close> and \<open>submit\<close> raise \<open>SessionInactive\<close> without calling the bridge, and
  the session has given up its lease.
\<close>

theorem stale_session_is_inert:
  assumes "ses_grant ses = Some g" and "lb_connection_epoch B b \<noteq> ses_connection_epoch ses"
  shows "session_renew B d (b, ses)
      = (Inl (SessionInactive ''the bridge connection changed and invalidated the lighting lease''), (b, abandon ses))
    \<and> session_release B (b, ses)
      = (Inl (SessionInactive ''the bridge connection changed and invalidated the lighting lease''), (b, abandon ses))
    \<and> session_submit B intent us dl (b, ses)
      = (Inl (SessionInactive ''the bridge connection changed and invalidated the lighting lease''), (b, abandon ses))"
  using assms by (simp add: session_renew_def session_release_def session_submit_def require_grant_def io_bind_def)

theorem stale_session_is_inert_witness:
  "session_submit ex_bridge LightingIntent_OFF ex_updates 900 (ex_acquired, ex_session 0)
     = (Inl (SessionInactive ''the bridge connection changed and invalidated the lighting lease''),
        (ex_acquired, abandon (ex_session 0)))"
  using stale_session_is_inert [of "ex_session 0" "ex_grant LeaseState_GRANTED" ex_bridge ex_acquired]
  by (simp add: ex_session_def recovering_bridge_def ex_acquired_def ex_recovering_def)

lemma no_grant:
  "require_grant B st = (Inl e, st') \<Longrightarrow> ses_grant (snd st') = None"
  "abandon_on_raise m st = (Inl e, st') \<Longrightarrow> ses_grant (snd st') = None"
  by (auto simp: require_grant_def abandon_on_raise_def io_catch_def
      split: option.splits if_splits prod.splits sum.splits)

text \<open>
  C16. A session never outlives its lease: after \<open>release\<close>, returned or raised, after leaving the
  \<open>with\<close> block, and after a \<open>renew\<close> that raised, it holds no grant.
\<close>

theorem session_gives_up_lease:
  "ses_grant (snd (snd (session_release B st))) = None
   \<and> ses_grant (snd (snd (session_exit B raised st))) = None
   \<and> (is_ok (fst (session_renew B d st)) \<or> ses_grant (snd (snd (session_renew B d st))) = None)"
proof (intro conjI)
  have release: "ses_grant (snd st') = None" if "session_release B st = (r, st')" for r st'
  proof (cases "ses_grant (snd st) = None")
    case False
    then show ?thesis
      using that
      by (auto simp: session_release_def io_bind_def set_grant_def dest: no_grant split: prod.splits sum.splits)
  qed (use that in \<open>simp add: session_release_def\<close>)
  then show "ses_grant (snd (snd (session_release B st))) = None" by (metis prod.collapse)
  show "ses_grant (snd (snd (session_exit B raised st))) = None"
    using release by (auto simp: session_exit_def io_catch_def split: prod.splits sum.splits)
  show "is_ok (fst (session_renew B d st)) \<or> ses_grant (snd (snd (session_renew B d st))) = None"
  proof -
    obtain r st' where run: "session_renew B d st = (r, st')" by (meson surj_pair)
    show ?thesis
    proof (cases r)
      case (Inl e)
      from run [unfolded Inl session_renew_def io_bind_Inl] have "ses_grant (snd st') = None"
        by (elim disjE exE conjE) (erule no_grant)+
      then show ?thesis by (simp add: run)
    qed (simp add: run)
  qed
qed

text \<open>
  A controller the bridge lists as writable is a target \<open>acquire\<close> accepts: what \<open>lighting_target\<close>
  builds passes the checks of a session of its own.
\<close>

lemma lighting_target_acquirable:
  assumes "lighting_target_of controller = Inr t"
  shows "acquire_checks [t] = Inr () \<and> ''lighting.direct-frame'' \<in> set (cv_capabilities controller)
    \<and> tg_resource t = cv_resource controller"
  using assms
  by (auto simp: lighting_target_of_def Let_def acquire_checks_Inr target_ok_def one_authority_def split: if_splits)

end
