(* ===== verification/Sdk_Codec.thy ===== *)
theory Sdk_Codec
  imports Sdk_Base
begin

text \<open>
  The wire codec of the Python SDK, \<open>src/sdk/python/hyperflux_sdk/codec.py\<close>.

  The codec inspects the generated classes at run time.  \<open>wire_type\<close> is what it sees of a type: for a
  record its class name and the names and types of its fields, for a tagged class the attribute that
  holds its tag (\<open>METHOD\<close>, \<open>TYPE\<close>, \<open>OUTCOME\<close>, \<open>STATE\<close>), for a domain wrapper its class name, whose ranges
  are those of \<open>Protocol_V5\<close>.  A generic class with its arguments is its record with the arguments in
  place of the type variables.  \<open>sdk_value\<close> is a value of such a type; an object of another class is
  \<open>VOther\<close>.

  \<open>json.dumps\<close> and \<open>json.loads\<close> are parameters of \<open>encode_message\<close> and \<open>decode_message\<close>: the text of a
  document, and the objects of a text as lists of pairs with possible duplicates.
\<close>

section \<open>Types and values\<close>

datatype wire_type =
    TBool
  | TStr
  | TInt
  | TNull
  | TEnum string "string list"
  | TDomain string
  | TTuple wire_type
  | TUnion "wire_type list"
  | TRecord string "(string \<times> wire_type) list"
  | TTagged string string string wire_type

datatype sdk_value =
    VNull
  | VBool bool
  | VStr string
  | VInt int
  | VEnum string string
  | VDomInt string int
  | VDomStr string string
  | VTuple "sdk_value list"
  | VRecord string "(string \<times> sdk_value) list"
  | VTagged string string string sdk_value
  | VOther string

definition TAG_ATTRIBUTES :: "(string \<times> string \<times> string) list" where
  "TAG_ATTRIBUTES = [(''METHOD'', ''method'', ''request''), (''TYPE'', ''type'', ''response''),
     (''OUTCOME'', ''outcome'', ''detail''), (''STATE'', ''state'', ''detail'')]"

definition tag_name :: "string \<Rightarrow> string" where
  "tag_name attribute = (case map_of TAG_ATTRIBUTES attribute of None \<Rightarrow> [] | Some (t, c) \<Rightarrow> t)"

definition content_name :: "string \<Rightarrow> string" where
  "content_name attribute = (case map_of TAG_ATTRIBUTES attribute of None \<Rightarrow> [] | Some (t, c) \<Rightarrow> c)"

definition decimal_string :: "string \<Rightarrow> bool" where
  "decimal_string cls = (case map_of domain_ranges cls of Some (d, _) \<Rightarrow> d | None \<Rightarrow> False)"

section \<open>Encoding\<close>

fun exceeds_limit :: "string \<Rightarrow> string \<Rightarrow> nat option \<Rightarrow> bool" where
  "exceeds_limit cls field None = False"
| "exceeds_limit cls field (Some n) =
     (case map_of FIELD_LIMITS (cls, field) of None \<Rightarrow> False | Some limit \<Rightarrow> n > limit)"

definition limit_error :: "string \<Rightarrow> string \<Rightarrow> sdk_exn" where
  "limit_error cls field = CodecError (cls @ ''.'' @ field @ '' exceeds ''
     @ (case map_of FIELD_LIMITS (cls, field) of None \<Rightarrow> [] | Some limit \<Rightarrow> str_nat limit) @ '' items'')"

fun tuple_length :: "sdk_value \<Rightarrow> nat option" where
  "tuple_length (VTuple vs) = Some (length vs)"
| "tuple_length _ = None"

fun to_wire :: "sdk_value \<Rightarrow> sdk_exn + json"
and items_to_wire :: "sdk_value list \<Rightarrow> sdk_exn + json list"
and record_to_wire :: "string \<Rightarrow> (string \<times> sdk_value) list \<Rightarrow> sdk_exn + (string \<times> json) list" where
  "to_wire VNull = Inr JNull"
| "to_wire (VBool b) = Inr (JBool b)"
| "to_wire (VStr s) = Inr (JStr s)"
| "to_wire (VInt n) = Inr (JInt n)"
| "to_wire (VEnum cls s) = Inr (JStr s)"
| "to_wire (VDomInt cls n) = Inr (if decimal_string cls then JStr (str_int n) else JInt n)"
| "to_wire (VDomStr cls s) = Inr (JStr s)"
| "to_wire (VTuple vs) = rbind (items_to_wire vs) (\<lambda>js. Inr (JArr js))"
| "to_wire (VRecord cls members) =
     rbind (record_to_wire cls members) (\<lambda>kvs.
       Inr (if cls = ''ErrorEnvelope'' then JObj [(''type'', JStr ''error''), (''response'', JObj kvs)] else JObj kvs))"
| "to_wire (VTagged cls attribute tag v) =
     rbind (to_wire v) (\<lambda>j. Inr (JObj [(tag_name attribute, JStr tag), (content_name attribute, j)]))"
| "to_wire (VOther cls) = Inl (CodecError (''unsupported SDK value: '' @ cls))"
| "items_to_wire [] = Inr []"
| "items_to_wire (v # vs) = rbind (to_wire v) (\<lambda>j. rbind (items_to_wire vs) (\<lambda>js. Inr (j # js)))"
| "record_to_wire cls [] = Inr []"
| "record_to_wire cls ((f, v) # members) =
     (if exceeds_limit cls f (tuple_length v) then Inl (limit_error cls f)
      else rbind (to_wire v) (\<lambda>j. rbind (record_to_wire cls members) (\<lambda>kvs. Inr ((f, j) # kvs))))"

section \<open>Decoding\<close>

text \<open>\<open>int(text)\<close> of ASCII decimal digits; Python refuses texts of more than 4300 digits with \<open>ValueError\<close>.\<close>

fun digits_value :: "nat \<Rightarrow> string \<Rightarrow> nat" where
  "digits_value acc [] = acc"
| "digits_value acc (c # cs) = digits_value (10 * acc + (of_char c - 48)) cs"

definition parse_decimal :: "string \<Rightarrow> string \<Rightarrow> sdk_exn + int" where
  "parse_decimal cls s =
     (if s = [] \<or> \<not> list_all is_digit s then Inl (CodecError (cls @ '' requires a decimal string''))
      else if length s > 4300 then Inl (ValueError ''Exceeds the limit (4300 digits) for integer string conversion'')
      else Inr (int (digits_value 0 s)))"

text \<open>\<open>value_class(raw)\<close> with its checks, whose \<open>TypeError\<close> and \<open>ValueError\<close> become a \<open>CodecError\<close>.\<close>

definition domain_value :: "string \<Rightarrow> json \<Rightarrow> sdk_exn + sdk_value" where
  "domain_value cls raw =
     (let invalid = CodecError (''invalid '' @ cls)
      in case raw of
           JInt n \<Rightarrow> (case map_of domain_ranges cls of
               Some (_, lo, hi) \<Rightarrow> if lo \<le> n \<and> n \<le> hi then Inr (VDomInt cls n) else Inl invalid
             | None \<Rightarrow> Inl invalid)
         | JStr s \<Rightarrow> (case map_of domain_lengths cls of
               Some (lo, hi) \<Rightarrow> if lo \<le> length s \<and> length s \<le> hi then Inr (VDomStr cls s) else Inl invalid
             | None \<Rightarrow> Inl invalid)
         | _ \<Rightarrow> Inl invalid)"

definition decode_domain :: "string \<Rightarrow> json \<Rightarrow> sdk_exn + sdk_value" where
  "decode_domain cls v =
     (if decimal_string cls then
        (case v of
           JStr s \<Rightarrow> rbind (parse_decimal cls s) (\<lambda>n. domain_value cls (JInt n))
         | _ \<Rightarrow> Inl (CodecError (cls @ '' requires a decimal string'')))
      else domain_value cls v)"

definition key_detail :: "string \<Rightarrow> (string \<times> json) list \<Rightarrow> string list \<Rightarrow> sdk_exn" where
  "key_detail cls kvs expected =
     (let missing = missing_keys kvs expected; extras = unknown_keys kvs expected
      in CodecError (cls @ '': '' @ join ''; ''
           ((if missing = [] then [] else [''missing '' @ join '', '' missing])
            @ (if extras = [] then [] else [''unknown '' @ join '', '' extras]))))"

fun list_length :: "json \<Rightarrow> nat option" where
  "list_length (JArr xs) = Some (length xs)"
| "list_length _ = None"

text \<open>
  What the loop of \<open>_decode_union\<close> finds for an object: nothing, an exception, or the type and the part of
  the object to decode.  An alternative \<open>tuple[T, ...]\<close> makes \<open>zip(..., strict=True)\<close> raise.
\<close>

datatype union_pick =
    NoMatch
  | Refuse sdk_exn
  | DecodeAs wire_type json
  | DecodeTagged string string string wire_type json

fun choose_tagged :: "wire_type list \<Rightarrow> (string \<times> json) list \<Rightarrow> union_pick" where
  "choose_tagged [] kvs = NoMatch"
| "choose_tagged (TRecord cls members # ts) kvs =
     (if cls = ''ErrorEnvelope'' \<and> get_item kvs ''type'' = JStr ''error'' then
        (if set (map fst kvs) \<noteq> {''type'', ''response''}
         then Refuse (CodecError ''ErrorEnvelope contains unknown fields'')
         else DecodeAs (TRecord cls members) (get_item kvs ''response''))
      else choose_tagged ts kvs)"
| "choose_tagged (TTagged cls attribute tag t # ts) kvs =
     (if get_item kvs (tag_name attribute) \<noteq> JStr tag then choose_tagged ts kvs
      else if set (map fst kvs) \<noteq> {tag_name attribute, content_name attribute}
      then Refuse (CodecError (cls @ '' contains unknown fields''))
      else DecodeTagged cls attribute tag t (get_item kvs (content_name attribute)))"
| "choose_tagged (TTuple t # ts) kvs = Refuse (ValueError ''zip() argument 2 is longer than argument 1'')"
| "choose_tagged (_ # ts) kvs = choose_tagged ts kvs"

definition candidates :: "wire_type list \<Rightarrow> wire_type list" where
  "candidates ts = filter (\<lambda>t. t \<noteq> TNull) ts"

definition union_choice :: "wire_type list \<Rightarrow> json \<Rightarrow> union_pick" where
  "union_choice ts v =
     (case (case v of JObj kvs \<Rightarrow> choose_tagged (candidates ts) kvs | _ \<Rightarrow> NoMatch) of
        NoMatch \<Rightarrow> (case candidates ts of [t] \<Rightarrow> DecodeAs t v
          | _ \<Rightarrow> Refuse (CodecError ''wire value does not match a tagged SDK union''))
      | c \<Rightarrow> c)"

fun pick_size :: "union_pick \<Rightarrow> nat" where
  "pick_size (DecodeAs t v) = size t"
| "pick_size (DecodeTagged cls attribute tag t v) = size t"
| "pick_size _ = 0"

lemma choose_tagged_size: "pick_size (choose_tagged ts kvs) \<le> size_list size ts"
proof (induction ts)
  case (Cons t ts)
  then show ?case by (cases t) (simp_all del: image_is_empty)
qed simp

lemma candidates_size: "size_list size (candidates ts) \<le> size_list size ts"
  by (induction ts) (auto simp: candidates_def)

lemma union_pick_size: "pick_size (union_choice ts v) \<le> size_list size ts"
proof -
  have tagged: "pick_size (choose_tagged (candidates ts) kvs) \<le> size_list size ts" for kvs
    using choose_tagged_size [of "candidates ts" kvs] candidates_size [of ts] by linarith
  have only: "size t \<le> size_list size ts" if "candidates ts = [t]" for t
    using candidates_size [of ts] that by simp
  have last: "pick_size (case candidates ts of [t] \<Rightarrow> DecodeAs t v | _ \<Rightarrow> Refuse e) \<le> size_list size ts" for e
    using only by (cases "candidates ts" rule: remdups_adj.cases) simp_all
  define c where "c = (case v of JObj kvs \<Rightarrow> choose_tagged (candidates ts) kvs | _ \<Rightarrow> NoMatch)"
  have "pick_size c \<le> size_list size ts" using tagged by (cases v) (simp_all add: c_def)
  then show ?thesis
    unfolding union_choice_def c_def [symmetric] using last by (cases c) simp_all
qed

lemma choice_part_size:
  "union_choice ts v = DecodeAs t x \<Longrightarrow> size t < Suc (size_list size ts)"
  "union_choice ts v = DecodeTagged cls attribute tag t x \<Longrightarrow> size t < Suc (size_list size ts)"
  using union_pick_size [of ts v] by simp_all

lemma member_size: "(f, t) \<in> set members \<Longrightarrow> size t < Suc (size_list (size_prod (\<lambda>_. 0) size) members)"
  by (induction members) auto

function from_wire :: "wire_type \<Rightarrow> json \<Rightarrow> sdk_exn + sdk_value" where
  "from_wire TBool v = (case v of JBool b \<Rightarrow> Inr (VBool b) | _ \<Rightarrow> Inl (CodecError ''boolean expected''))"
| "from_wire TStr v = (case v of JStr s \<Rightarrow> Inr (VStr s) | _ \<Rightarrow> Inl (CodecError ''string expected''))"
| "from_wire TInt v = (case v of JInt n \<Rightarrow> Inr (VInt n) | _ \<Rightarrow> Inl (CodecError ''integer expected''))"
| "from_wire TNull v = (if v = JNull then Inr VNull else Inl (CodecError ''unsupported SDK type: <class 'NoneType'>''))"
| "from_wire (TEnum cls values) v = (case v of
     JStr s \<Rightarrow> if s \<in> set values then Inr (VEnum cls s) else Inl (CodecError (''invalid '' @ cls))
   | _ \<Rightarrow> Inl (CodecError (''invalid '' @ cls)))"
| "from_wire (TDomain cls) v = decode_domain cls v"
| "from_wire (TTuple t) v = (case v of
     JArr xs \<Rightarrow> rbind (mapM (from_wire t) xs) (\<lambda>vs. Inr (VTuple vs))
   | _ \<Rightarrow> Inl (CodecError ''wire array expected''))"
| "from_wire (TUnion ts) v =
     (if v = JNull \<and> TNull \<in> set ts then Inr VNull
      else case union_choice ts v of
        DecodeAs t x \<Rightarrow> from_wire t x
      | DecodeTagged cls attribute tag t x \<Rightarrow> rbind (from_wire t x) (\<lambda>y. Inr (VTagged cls attribute tag y))
      | Refuse e \<Rightarrow> Inl e
      | NoMatch \<Rightarrow> Inl (CodecError ''wire value does not match a tagged SDK union''))"
| "from_wire (TRecord cls members) v = (case v of
     JObj kvs \<Rightarrow>
       if set (map fst kvs) \<noteq> set (map fst members) then Inl (key_detail cls kvs (map fst members))
       else rbind (mapM (\<lambda>(f, t).
           if exceeds_limit cls f (list_length (get_item kvs f)) then Inl (limit_error cls f)
           else rbind (from_wire t (get_item kvs f)) (\<lambda>y. Inr (f, y))) members) (\<lambda>vs. Inr (VRecord cls vs))
   | _ \<Rightarrow> Inl (CodecError (cls @ '' requires an object'')))"
| "from_wire (TTagged cls attribute tag t) v = (case v of
     JObj kvs \<Rightarrow>
       if set (map fst kvs) \<noteq> {content_name attribute} then Inl (key_detail cls kvs [content_name attribute])
       else if exceeds_limit cls (content_name attribute) (list_length (get_item kvs (content_name attribute)))
       then Inl (limit_error cls (content_name attribute))
       else rbind (from_wire t (get_item kvs (content_name attribute))) (\<lambda>y. Inr (VTagged cls attribute tag y))
   | _ \<Rightarrow> Inl (CodecError (cls @ '' requires an object'')))"
  by pat_completeness auto
termination
proof (relation "measure (\<lambda>(t, v). size t)")
  show "((t, x), TUnion ts, v) \<in> measure (\<lambda>(t, v). size t)" if "union_choice ts v = DecodeAs t x" for ts v t x
    using choice_part_size(1) [OF that] by simp
  show "((t, x), TUnion ts, v) \<in> measure (\<lambda>(t, v). size t)" if "union_choice ts v = DecodeTagged cls attribute tag t x"
    for ts v cls attribute tag t x
    using choice_part_size(2) [OF that] by simp
  show "((t, get_item kvs f), TRecord cls members, v) \<in> measure (\<lambda>(t, v). size t)" if "z \<in> set members" "(f, t) = z"
    for cls members v kvs z f t
    using member_size [of f t members] that by simp
qed simp_all

section \<open>Messages\<close>

text \<open>A decoded document with its objects as pairs, before duplicate fields are refused.\<close>

datatype parsed =
    PNull
  | PBool bool
  | PInt int
  | PFloat rat
  | PStr string
  | PArr "parsed list"
  | PObj "(string \<times> parsed) list"

definition reject_duplicate_pairs :: "(string \<times> json) list \<Rightarrow> sdk_exn + (string \<times> json) list" where
  "reject_duplicate_pairs kvs =
     foldM (\<lambda>result (k, v). if k \<in> fst ` set result then Inl (CodecError (''duplicate JSON field: '' @ k))
       else Inr (result @ [(k, v)])) [] kvs"

fun hook :: "parsed \<Rightarrow> sdk_exn + json" where
  "hook PNull = Inr JNull"
| "hook (PBool b) = Inr (JBool b)"
| "hook (PInt n) = Inr (JInt n)"
| "hook (PFloat q) = Inr (JFloat q)"
| "hook (PStr s) = Inr (JStr s)"
| "hook (PArr xs) = rbind (mapM hook xs) (\<lambda>js. Inr (JArr js))"
| "hook (PObj kvs) =
     rbind (mapM (\<lambda>(k, p). rbind (hook p) (\<lambda>j. Inr (k, j))) kvs) (\<lambda>pairs.
     rbind (reject_duplicate_pairs pairs) (\<lambda>members. Inr (JObj members)))"

function bounded_depth :: "json \<Rightarrow> nat \<Rightarrow> sdk_exn + unit" where
  "bounded_depth v depth =
     (if depth > MAX_JSON_DEPTH then Inl (CodecError ''JSON nesting exceeds the protocol bound'')
      else case v of
        JObj kvs \<Rightarrow> each (\<lambda>(k, x). bounded_depth x (depth + 1)) kvs
      | JArr xs \<Rightarrow> each (\<lambda>x. bounded_depth x (depth + 1)) xs
      | _ \<Rightarrow> Inr ())"
  by pat_completeness auto
termination
  by (relation "measure (\<lambda>(v, depth). size v)") (auto dest: json_size_arr json_size_obj)

declare bounded_depth.simps [simp del]

text \<open>
  \<open>sort_keys=True\<close>: \<open>json.dumps\<close> writes the fields of every object in the order of their names.
\<close>

function sort_keys :: "json \<Rightarrow> json" where
  "sort_keys JNull = JNull"
| "sort_keys (JBool b) = JBool b"
| "sort_keys (JInt n) = JInt n"
| "sort_keys (JFloat q) = JFloat q"
| "sort_keys (JStr s) = JStr s"
| "sort_keys (JArr xs) = JArr (map sort_keys xs)"
| "sort_keys (JObj kvs) = JObj (sort_key fst (map (\<lambda>(k, x). (k, sort_keys x)) kvs))"
  by pat_completeness auto
termination
  by (relation "measure size") (auto dest: json_size_arr json_size_obj)

definition encode_message :: "(json \<Rightarrow> nat list) \<Rightarrow> sdk_value \<Rightarrow> sdk_exn + nat list" where
  "encode_message dumps v =
     rbind (to_wire v) (\<lambda>j.
       let payload = dumps (sort_keys j)
       in if length payload > MAX_WIRE_MESSAGE_BYTES
          then Inl (CodecError ''encoded SDK message exceeds the protocol bound'')
          else Inr payload)"

text \<open>
  What \<open>json.loads\<close> does with a payload: the document, or the objects that were complete when it stopped
  with a \<open>JSONDecodeError\<close> or \<open>UnicodeDecodeError\<close>, or with another exception (\<open>RecursionError\<close>, and
  \<open>ValueError\<close> for a number of more than 4300 digits), which \<open>decode_message\<close> does not catch.
\<close>

datatype load_result =
    Loaded parsed
  | Malformed "parsed list"
  | Failed "parsed list" sdk_exn

definition decode_message :: "(nat list \<Rightarrow> load_result) \<Rightarrow> wire_type \<Rightarrow> nat list \<Rightarrow> sdk_exn + sdk_value" where
  "decode_message loads t payload =
     (if payload = [] \<or> length payload > MAX_WIRE_MESSAGE_BYTES
      then Inl (CodecError ''SDK message length is outside the protocol bound'')
      else case loads payload of
        Malformed ps \<Rightarrow> rbind (mapM hook ps) (\<lambda>_. Inl (CodecError ''SDK message is not canonical JSON''))
      | Failed ps e \<Rightarrow> rbind (mapM hook ps) (\<lambda>_. Inl e)
      | Loaded p \<Rightarrow> rbind (hook p) (\<lambda>document.
          rbind (bounded_depth document 0) (\<lambda>_. from_wire t document)))"

section \<open>Typed values\<close>

inductive typed :: "wire_type \<Rightarrow> sdk_value \<Rightarrow> bool" where
  t_bool: "typed TBool (VBool b)"
| t_str: "typed TStr (VStr s)"
| t_int: "typed TInt (VInt n)"
| t_null: "typed TNull VNull"
| t_enum: "s \<in> set values \<Longrightarrow> typed (TEnum cls values) (VEnum cls s)"
| t_dom_int: "map_of domain_ranges cls = Some (d, lo, hi) \<Longrightarrow> lo \<le> n \<Longrightarrow> n \<le> hi \<Longrightarrow> typed (TDomain cls) (VDomInt cls n)"
| t_dom_str: "map_of domain_lengths cls = Some (least, most) \<Longrightarrow> least \<le> length s \<Longrightarrow> length s \<le> most
    \<Longrightarrow> typed (TDomain cls) (VDomStr cls s)"
| t_tuple: "(\<And>v. v \<in> set vs \<Longrightarrow> typed t v) \<Longrightarrow> typed (TTuple t) (VTuple vs)"
| t_union: "t \<in> set ts \<Longrightarrow> typed t v \<Longrightarrow> typed (TUnion ts) v"
| t_record: "map fst vs = map fst members
    \<Longrightarrow> (\<And>i. i < length members \<Longrightarrow> typed (snd (members ! i)) (snd (vs ! i)) \<and>
          \<not> exceeds_limit cls (fst (vs ! i)) (tuple_length (snd (vs ! i))))
    \<Longrightarrow> typed (TRecord cls members) (VRecord cls vs)"
| t_tagged: "typed t v \<Longrightarrow> typed (TTagged cls attribute tag t) (VTagged cls attribute tag v)"

lemma domain_value_no_tuple: "domain_value cls raw = Inr v \<Longrightarrow> tuple_length v = None"
  unfolding domain_value_def Let_def by (auto split: json.splits option.splits if_splits)

lemma decode_domain_no_tuple: "decode_domain cls raw = Inr v \<Longrightarrow> tuple_length v = None"
  unfolding decode_domain_def by (auto simp: rbind_Inr_iff split: json.splits if_splits dest: domain_value_no_tuple)

lemma choose_tagged_record: "choose_tagged ts kvs = DecodeAs t x \<Longrightarrow> \<exists>cls members. t = TRecord cls members"
proof (induction ts)
  case (Cons u ts)
  then show ?case by (cases u) (auto split: if_splits)
qed simp

lemma union_choice_part: "union_choice ts j = DecodeAs t x \<Longrightarrow> x = j \<or> (\<exists>cls members. t = TRecord cls members)"
  unfolding union_choice_def
  by (auto split: union_pick.splits list.splits json.splits dest: choose_tagged_record)

lemma record_no_tuple: "from_wire (TRecord cls members) j = Inr v \<Longrightarrow> tuple_length v = None"
  by (auto simp: rbind_Inr_iff split: json.splits if_splits)

lemma from_wire_tuple_length:
  "from_wire t j = Inr v \<Longrightarrow> tuple_length v = Some n \<Longrightarrow> list_length j = Some n"
proof (induction t j arbitrary: v rule: from_wire.induct)
  case (6 cls j)
  then show ?case by (auto dest: decode_domain_no_tuple)
next
  case (8 ts j)
  show ?case
  proof (cases "j = JNull \<and> TNull \<in> set ts")
    case False
    show ?thesis
    proof (cases "union_choice ts j")
      case (DecodeAs t x)
      have decoded: "from_wire t x = Inr v" using 8(3) False DecodeAs by auto
      then have "x = j" using union_choice_part [OF DecodeAs] record_no_tuple 8(4) by force
      then show ?thesis using 8(1) [OF False DecodeAs decoded 8(4)] by simp
    qed (use 8(3,4) False in \<open>auto simp: rbind_Inr_iff\<close>)
  qed (use 8(3,4) in auto)
qed (auto simp: rbind_Inr_iff dest: mapM_length split: json.splits if_splits)

lemma domain_value_typed: "domain_value cls raw = Inr v \<Longrightarrow> typed (TDomain cls) v"
  by (auto simp: domain_value_def Let_def split: json.splits option.splits if_splits intro: t_dom_int t_dom_str)

lemma decode_domain_typed: "decode_domain cls raw = Inr v \<Longrightarrow> typed (TDomain cls) v"
  by (auto simp: decode_domain_def rbind_Inr_iff split: json.splits if_splits intro: domain_value_typed)

lemma choose_tagged_member:
  "choose_tagged ts kvs = DecodeAs t x \<Longrightarrow> t \<in> set ts"
  "choose_tagged ts kvs = DecodeTagged cls attribute tag t x \<Longrightarrow> TTagged cls attribute tag t \<in> set ts"
proof (induction ts)
  case (Cons u ts)
  { case 1
    then show ?case using Cons by (cases u) (simp_all split: if_splits)
  next
    case 2
    then show ?case using Cons by (cases u) (simp_all split: if_splits) }
qed simp_all

lemma union_choice_member:
  "union_choice ts v = DecodeAs t x \<Longrightarrow> t \<in> set ts"
  "union_choice ts v = DecodeTagged cls attribute tag t x \<Longrightarrow> TTagged cls attribute tag t \<in> set ts"
proof -
  define c where "c = (case v of JObj kvs \<Rightarrow> choose_tagged (candidates ts) kvs | _ \<Rightarrow> NoMatch)"
  have sub: "set (candidates ts) \<subseteq> set ts" by (auto simp: candidates_def)
  have c: "\<And>t x. c = DecodeAs t x \<Longrightarrow> t \<in> set ts"
    "\<And>cls attribute tag t x. c = DecodeTagged cls attribute tag t x \<Longrightarrow> TTagged cls attribute tag t \<in> set ts"
    using sub choose_tagged_member unfolding c_def by (auto split: json.splits)
  have only: "candidates ts = [u] \<Longrightarrow> u \<in> set ts" for u using sub by auto
  show "union_choice ts v = DecodeAs t x \<Longrightarrow> t \<in> set ts"
    "union_choice ts v = DecodeTagged cls attribute tag t x \<Longrightarrow> TTagged cls attribute tag t \<in> set ts"
    unfolding union_choice_def c_def [symmetric] using c only
    by (auto split: union_pick.splits list.splits)
qed

lemma from_wire_typed: "from_wire t j = Inr v \<Longrightarrow> typed t v"
proof (induction t j arbitrary: v rule: from_wire.induct)
  case (6 cls j)
  then show ?case by (auto intro: decode_domain_typed)
next
  case (7 t j)
  then obtain xs vs where "j = JArr xs" "mapM (from_wire t) xs = Inr vs" "v = VTuple vs"
    by (auto simp: rbind_Inr_iff split: json.splits)
  then show ?case using 7 by (auto intro!: t_tuple elim: mapM_in_set)
next
  case (8 ts j)
  show ?case
  proof (cases "j = JNull \<and> TNull \<in> set ts")
    case True
    then show ?thesis using 8(3) by (auto intro: t_union t_null)
  next
    case False
    show ?thesis
    proof (cases "union_choice ts j")
      case (DecodeAs t x)
      then show ?thesis using 8(1) [OF False DecodeAs] 8(3) False by (auto intro: t_union dest: union_choice_member)
    next
      case (DecodeTagged cls attribute tag t x)
      then obtain y where y: "from_wire t x = Inr y" "v = VTagged cls attribute tag y"
        using 8(3) False by (auto simp: rbind_Inr_iff)
      have "typed t y" by (rule 8(2) [OF False DecodeTagged y(1)])
      then show ?thesis using union_choice_member(2) [OF DecodeTagged] y(2) by (auto intro: t_union t_tagged)
    qed (use 8(3) False in auto)
  qed
next
  case (9 cls members j)
  let ?decode = "\<lambda>kvs (f, t). if exceeds_limit cls f (list_length (get_item kvs f)) then Inl (limit_error cls f)
           else rbind (from_wire t (get_item kvs f)) (\<lambda>y. Inr (f, y))"
  obtain kvs vs where j: "j = JObj kvs" and keys: "set (map fst kvs) = set (map fst members)"
    and vs: "mapM (?decode kvs) members = Inr vs" and v: "v = VRecord cls vs"
    using 9(2) by (auto simp: rbind_Inr_iff split: json.splits if_splits)
  have len: "length vs = length members" using mapM_length [OF vs] .
  have member: "fst (vs ! i) = fst (members ! i) \<and> typed (snd (members ! i)) (snd (vs ! i))
      \<and> \<not> exceeds_limit cls (fst (vs ! i)) (tuple_length (snd (vs ! i)))" if i: "i < length members" for i
  proof -
    obtain f t where ft: "members ! i = (f, t)" by (cases "members ! i")
    have "?decode kvs (f, t) = Inr (vs ! i)"
      using vs i len unfolding mapM_Inr_iff list_all2_conv_all_nth ft [symmetric] by simp
    then obtain y where y: "\<not> exceeds_limit cls f (list_length (get_item kvs f))" "from_wire t (get_item kvs f) = Inr y"
        "vs ! i = (f, y)"
      by (auto simp: rbind_Inr_iff split: if_splits)
    have mem: "(f, t) \<in> set members" using i ft by (metis nth_mem)
    have "typed t y"
      using 9(1) [OF j _ mem refl y(1) y(2)] keys by simp
    moreover have "\<not> exceeds_limit cls f (tuple_length y)"
    proof (cases "tuple_length y")
      case (Some n)
      then show ?thesis using from_wire_tuple_length [OF y(2) Some] y(1) by simp
    qed simp
    ultimately show ?thesis by (simp add: ft y(3))
  qed
  have "map fst vs = map fst members" by (rule nth_equalityI) (use len member in auto)
  then show ?case unfolding v by (rule t_record) (use member in blast)
next
  case (10 cls attribute tag t j)
  then show ?case by (auto simp: rbind_Inr_iff split: json.splits if_splits intro: t_tagged)
qed (auto split: json.splits if_splits intro: typed.intros)

section \<open>Round trip\<close>

text \<open>
  The types for which the wire form determines the value.  A tagged class and \<open>ErrorEnvelope\<close> carry their
  tag only as alternatives of a union; a union has one alternative besides \<open>None\<close>, or alternatives with
  distinct tags.
\<close>

fun tag_key :: "wire_type \<Rightarrow> (string \<times> string) option" where
  "tag_key (TTagged cls attribute tag t) = Some (tag_name attribute, tag)"
| "tag_key (TRecord cls members) = (if cls = ''ErrorEnvelope'' then Some (''type'', ''error'') else None)"
| "tag_key _ = None"

definition unambiguous :: "wire_type list \<Rightarrow> bool" where
  "unambiguous cs \<longleftrightarrow> length cs = 1 \<or> (None \<notin> set (map tag_key cs) \<and> distinct (map tag_key cs))"

fun round_trip_type :: "bool \<Rightarrow> wire_type \<Rightarrow> bool" where
  "round_trip_type alternative (TTuple t) \<longleftrightarrow> round_trip_type False t"
| "round_trip_type alternative (TUnion ts) \<longleftrightarrow>
     \<not> alternative \<and> unambiguous (candidates ts) \<and> (\<forall>t \<in> set ts. round_trip_type True t)"
| "round_trip_type alternative (TRecord cls members) \<longleftrightarrow>
     (alternative \<or> cls \<noteq> ''ErrorEnvelope'') \<and> distinct (map fst members)
     \<and> (\<forall>(f, t) \<in> set members. round_trip_type False t)"
| "round_trip_type alternative (TTagged cls attribute tag t) \<longleftrightarrow>
     alternative \<and> attribute \<in> set (map fst TAG_ATTRIBUTES) \<and> round_trip_type False t"
| "round_trip_type alternative _ \<longleftrightarrow> True"

subsection \<open>Decimal strings\<close>

lemma digits_value_append: "digits_value acc (xs @ ys) = digits_value (digits_value acc xs) ys"
  by (induction xs arbitrary: acc) simp_all

lemma digit_char_value: "d < 10 \<Longrightarrow> of_char (digit_char d) = 48 + d"
  by (simp add: digit_char_def)

lemma digit_char_digit: "d < 10 \<Longrightarrow> is_digit (digit_char d)"
  by (simp add: is_digit_def less_eq_char_def digit_char_value)

lemma str_nat_digits: "str_nat n \<noteq> [] \<and> list_all is_digit (str_nat n)"
proof (induction n rule: str_nat.induct)
  case (1 n)
  then show ?case by (subst (1 2) str_nat.simps) (simp add: digit_char_digit)
qed

lemma digits_value_str_nat: "digits_value 0 (str_nat n) = n"
proof (induction n rule: str_nat.induct)
  case (1 n)
  then show ?case
    by (subst str_nat.simps) (simp add: digits_value_append digit_char_value)
qed

lemma str_nat_length: "n < 10 ^ Suc k \<Longrightarrow> length (str_nat n) \<le> Suc k"
proof (induction k arbitrary: n)
  case 0
  then show ?case by (subst str_nat.simps) simp
next
  case (Suc k)
  have "length (str_nat (n div 10)) \<le> Suc k" by (rule Suc.IH) (use Suc.prems in simp)
  then show ?case by (subst str_nat.simps) simp
qed

lemma parse_decimal_str_int:
  assumes "0 \<le> n" and "n \<le> 18446744073709551615"
  shows "parse_decimal cls (str_int n) = Inr n"
proof -
  have "length (str_nat (nat n)) \<le> Suc 19" by (rule str_nat_length) (use assms in simp)
  then show ?thesis
    using assms str_nat_digits [of "nat n"] by (simp add: parse_decimal_def str_int_def digits_value_str_nat)
qed

lemma domain_ranges_decimal:
  "list_all (\<lambda>(cls, d, lo, hi). 0 \<le> lo \<and> hi \<le> 18446744073709551615 \<and> map_of domain_lengths cls = None) domain_ranges"
  by code_simp

lemma domain_range_bounds:
  assumes "map_of domain_ranges cls = Some (d, lo, hi)"
  shows "0 \<le> lo" and "hi \<le> 18446744073709551615" and "map_of domain_lengths cls = None"
  using domain_ranges_decimal map_of_SomeD [OF assms] unfolding list_all_iff by blast+

lemma domain_int_round_trip:
  assumes "map_of domain_ranges cls = Some (d, lo, hi)" and "lo \<le> n" and "n \<le> hi"
  shows "rbind (to_wire (VDomInt cls n)) (decode_domain cls) = Inr (VDomInt cls n)"
  using assms domain_range_bounds [OF assms(1)] parse_decimal_str_int [of n cls]
  by (simp add: decode_domain_def domain_value_def)

lemma domain_str_round_trip:
  assumes "map_of domain_lengths cls = Some (lo, hi)" and "lo \<le> length s" and "length s \<le> hi"
  shows "rbind (to_wire (VDomStr cls s)) (decode_domain cls) = Inr (VDomStr cls s)"
proof -
  have "map_of domain_ranges cls = None"
    using domain_range_bounds(3) [of cls] assms(1) by (cases "map_of domain_ranges cls") auto
  then show ?thesis using assms by (simp add: decode_domain_def domain_value_def decimal_string_def)
qed

subsection \<open>Arrays, records and unions\<close>

definition wire_of :: "sdk_value \<Rightarrow> json" where
  "wire_of v = projr (to_wire v)"

definition restores :: "wire_type \<Rightarrow> sdk_value \<Rightarrow> bool" where
  "restores t v \<longleftrightarrow> to_wire v = Inr (wire_of v) \<and> from_wire t (wire_of v) = Inr v"

lemma restoresI: "to_wire v = Inr j \<Longrightarrow> from_wire t j = Inr v \<Longrightarrow> restores t v"
  by (simp add: restores_def wire_of_def)

lemma restores_rbind: "restores t v \<longleftrightarrow> rbind (to_wire v) (from_wire t) = Inr v"
  by (auto simp: restores_def wire_of_def rbind_Inr_iff)

lemma items_to_wire_wire_of:
  "(\<And>v. v \<in> set vs \<Longrightarrow> to_wire v = Inr (wire_of v)) \<Longrightarrow> items_to_wire vs = Inr (map wire_of vs)"
  by (induction vs) simp_all

lemma record_to_wire_wire_of:
  "\<forall>(f, v) \<in> set vs. to_wire v = Inr (wire_of v) \<and> \<not> exceeds_limit cls f (tuple_length v)
    \<Longrightarrow> record_to_wire cls vs = Inr (map (\<lambda>(f, v). (f, wire_of v)) vs)"
  by (induction vs) auto

lemma items_to_wire_length: "items_to_wire vs = Inr js \<Longrightarrow> length js = length vs"
  by (induction vs arbitrary: js) (auto simp: rbind_Inr_iff)

lemma to_wire_length: "to_wire v = Inr j \<Longrightarrow> list_length j = tuple_length v"
  by (cases v) (auto simp: rbind_Inr_iff dest: items_to_wire_length)

lemma tuple_restores: "(\<And>v. v \<in> set vs \<Longrightarrow> restores t v) \<Longrightarrow> restores (TTuple t) (VTuple vs)"
proof (rule restoresI)
  assume items: "\<And>v. v \<in> set vs \<Longrightarrow> restores t v"
  show "to_wire (VTuple vs) = Inr (JArr (map wire_of vs))"
    using items by (simp add: items_to_wire_wire_of restores_def)
  have "mapM (from_wire t) (map wire_of vs) = Inr vs"
    using items by (simp add: mapM_Inr_iff list_all2_conv_all_nth restores_def)
  then show "from_wire (TTuple t) (JArr (map wire_of vs)) = Inr (VTuple vs)" by simp
qed

lemma get_item_wire_of:
  assumes "distinct (map fst vs)" and "i < length vs"
  shows "get_item (map (\<lambda>(f, v). (f, wire_of v)) vs) (fst (vs ! i)) = wire_of (snd (vs ! i))"
proof -
  have "map_of (map (\<lambda>(f, v). (f, wire_of v)) vs) (fst (vs ! i)) = Some (wire_of (snd (vs ! i)))"
    using assms by (intro map_of_is_SomeI) (auto simp: comp_def case_prod_beta image_iff intro!: bexI [of _ "vs ! i"])
  then show ?thesis by (simp add: get_item_def)
qed

lemma record_restores:
  assumes keys: "map fst vs = map fst members" and dist: "distinct (map fst members)"
    and member: "\<And>i. i < length members \<Longrightarrow> restores (snd (members ! i)) (snd (vs ! i)) \<and>
          \<not> exceeds_limit cls (fst (vs ! i)) (tuple_length (snd (vs ! i)))"
  shows "record_to_wire cls vs = Inr (map (\<lambda>(f, v). (f, wire_of v)) vs)"
    and "from_wire (TRecord cls members) (JObj (map (\<lambda>(f, v). (f, wire_of v)) vs)) = Inr (VRecord cls vs)"
proof -
  have len: "length vs = length members" using keys by (metis length_map)
  have fst_eq: "fst (members ! i) = fst (vs ! i)" if "i < length members" for i
    using arg_cong [OF keys, of "\<lambda>ks. ks ! i"] that len by simp
  show "record_to_wire cls vs = Inr (map (\<lambda>(f, v). (f, wire_of v)) vs)"
    by (rule record_to_wire_wire_of) (use member len in \<open>force simp: in_set_conv_nth restores_def\<close>)
  let ?kvs = "map (\<lambda>(f, v). (f, wire_of v)) vs"
  let ?decode = "\<lambda>(f, t). if exceeds_limit cls f (list_length (get_item ?kvs f)) then Inl (limit_error cls f)
           else rbind (from_wire t (get_item ?kvs f)) (\<lambda>y. Inr (f, y))"
  have decode: "?decode (members ! i) = Inr (vs ! i)" if i: "i < length members" for i
  proof -
    have item: "get_item ?kvs (fst (members ! i)) = wire_of (snd (vs ! i))"
      using get_item_wire_of [of vs i] dist keys i len fst_eq by simp
    have wire: "from_wire (snd (members ! i)) (wire_of (snd (vs ! i))) = Inr (snd (vs ! i))"
      "list_length (wire_of (snd (vs ! i))) = tuple_length (snd (vs ! i))"
      using member [OF i] to_wire_length by (simp_all add: restores_def)
    show ?thesis using item wire member [OF i] fst_eq [OF i] by (simp add: case_prod_beta)
  qed
  then have "mapM ?decode members = Inr vs"
    unfolding mapM_Inr_iff list_all2_conv_all_nth using len by simp
  moreover have "set (map fst ?kvs) = set (map fst members)"
    unfolding keys [symmetric] by (simp add: comp_def case_prod_beta)
  ultimately show "from_wire (TRecord cls members) (JObj ?kvs) = Inr (VRecord cls vs)"
    unfolding from_wire.simps(9) by simp
qed

lemma tag_names:
  assumes "attribute \<in> set (map fst TAG_ATTRIBUTES)"
  shows "tag_name attribute \<in> {''method'', ''type'', ''outcome'', ''state''}"
    and "content_name attribute \<notin> {''method'', ''type'', ''outcome'', ''state''}"
  using assms by (auto simp: TAG_ATTRIBUTES_def tag_name_def content_name_def)

text \<open>The wire form of a tagged value selects the alternative with its tag.\<close>

lemma choose_tagged_skip:
  assumes "tag_key u = Some key" and "key \<noteq> (name, tag)" and "round_trip_type True u"
    and "content \<notin> {''method'', ''type'', ''outcome'', ''state''}"
  shows "choose_tagged (u # us) [(name, JStr tag), (content, j)] = choose_tagged us [(name, JStr tag), (content, j)]"
proof (cases u)
  case (TTagged cls attribute tag' t)
  then have "tag_name attribute \<noteq> content" using tag_names(1) [of attribute] assms(3,4) by auto
  then show ?thesis using TTagged assms(1,2) by (auto simp: get_item_def)
next
  case (TRecord cls members)
  then show ?thesis using assms(1,2,4) by (auto simp: get_item_def split: if_splits)
qed (use assms(1) in simp_all)

lemma choose_tagged_found:
  assumes "t \<in> set us" and "\<And>us. choose_tagged (t # us) kvs = c"
    and "\<And>u us'. u \<in> set us \<Longrightarrow> u \<noteq> t \<Longrightarrow> choose_tagged (u # us') kvs = choose_tagged us' kvs"
  shows "choose_tagged us kvs = c"
  using assms(1,3)
proof (induction us)
  case (Cons u us)
  show ?case
  proof (cases "u = t")
    case False
    then show ?thesis using Cons by simp
  qed (simp add: assms(2))
qed simp

lemma choose_tagged_alternative:
  assumes t: "t \<in> set cs" "tag_key t = Some (name, tag)" and "unambiguous cs" and "\<forall>u \<in> set cs. round_trip_type True u"
    and content: "content \<notin> {''method'', ''type'', ''outcome'', ''state''}"
    and found: "\<And>us. choose_tagged (t # us) [(name, JStr tag), (content, j)] = c"
  shows "choose_tagged cs [(name, JStr tag), (content, j)] = c"
proof (rule choose_tagged_found [OF t(1) found])
  fix u us'
  assume u: "u \<in> set cs" "u \<noteq> t"
  then have many: "None \<notin> set (map tag_key cs)" "distinct (map tag_key cs)"
    using assms(3) t(1) by (auto simp: unambiguous_def length_Suc_conv)
  obtain key where key: "tag_key u = Some key" using many(1) u(1) by (cases "tag_key u") force+
  have "key \<noteq> (name, tag)" using many(2) u t key by (metis distinct_map inj_onD)
  then show "choose_tagged (u # us') [(name, JStr tag), (content, j)] = choose_tagged us' [(name, JStr tag), (content, j)]"
    using choose_tagged_skip key content assms(4) u(1) by blast
qed

fun alternative_restores :: "wire_type \<Rightarrow> sdk_value \<Rightarrow> bool" where
  "alternative_restores (TTagged cls attribute tag t) v \<longleftrightarrow> (\<exists>y. v = VTagged cls attribute tag y \<and> restores t y)"
| "alternative_restores (TRecord cls members) v \<longleftrightarrow>
     (if cls = ''ErrorEnvelope''
      then \<exists>vs kvs. v = VRecord cls vs \<and> record_to_wire cls vs = Inr kvs \<and> from_wire (TRecord cls members) (JObj kvs) = Inr v
      else restores (TRecord cls members) v)"
| "alternative_restores t v \<longleftrightarrow> restores t v"

lemma union_tagged:
  assumes "union_choice ts j = DecodeTagged cls attribute tag t x" and "j \<noteq> JNull" and "from_wire t x = Inr y"
  shows "from_wire (TUnion ts) j = Inr (VTagged cls attribute tag y)"
  using assms by simp

lemma tagged_alternative:
  assumes t: "TTagged cls attribute tag t \<in> set (candidates ts)" and "unambiguous (candidates ts)"
    and wf: "\<forall>u \<in> set (candidates ts). round_trip_type True u" and y: "restores t y"
  shows "restores (TUnion ts) (VTagged cls attribute tag y)"
proof (rule restoresI)
  let ?kvs = "[(tag_name attribute, JStr tag), (content_name attribute, wire_of y)]"
  have attribute: "attribute \<in> set (map fst TAG_ATTRIBUTES)" using wf t by auto
  note names = tag_names [OF attribute]
  then have diff: "tag_name attribute \<noteq> content_name attribute" by metis
  show "to_wire (VTagged cls attribute tag y) = Inr (JObj ?kvs)" using y by (simp add: restores_def)
  have "choose_tagged (candidates ts) ?kvs = DecodeTagged cls attribute tag t (wire_of y)"
    by (rule choose_tagged_alternative [OF t]) (use assms names diff in \<open>simp_all add: get_item_def\<close>)
  then have "union_choice ts (JObj ?kvs) = DecodeTagged cls attribute tag t (wire_of y)"
    by (simp add: union_choice_def)
  then show "from_wire (TUnion ts) (JObj ?kvs) = Inr (VTagged cls attribute tag y)"
    by (rule union_tagged) (use y in \<open>simp_all add: restores_def\<close>)
qed

lemma envelope_alternative:
  assumes t: "TRecord ''ErrorEnvelope'' members \<in> set (candidates ts)" and "unambiguous (candidates ts)"
    and "\<forall>u \<in> set (candidates ts). round_trip_type True u"
    and kvs: "record_to_wire ''ErrorEnvelope'' vs = Inr kvs"
    and decoded: "from_wire (TRecord ''ErrorEnvelope'' members) (JObj kvs) = Inr v" and v: "v = VRecord ''ErrorEnvelope'' vs"
  shows "restores (TUnion ts) v"
proof (rule restoresI)
  let ?kvs = "[(''type'', JStr ''error''), (''response'', JObj kvs)]"
  show "to_wire v = Inr (JObj ?kvs)" using kvs v by simp
  have "choose_tagged (candidates ts) ?kvs = DecodeAs (TRecord ''ErrorEnvelope'' members) (JObj kvs)"
    by (rule choose_tagged_alternative [OF t]) (use assms in \<open>simp_all add: get_item_def\<close>)
  then have "union_choice ts (JObj ?kvs) = DecodeAs (TRecord ''ErrorEnvelope'' members) (JObj kvs)"
    by (simp add: union_choice_def)
  then show "from_wire (TUnion ts) (JObj ?kvs) = Inr v" using decoded by (simp del: from_wire.simps(9))
qed

lemma from_wire_null: "from_wire t JNull = Inr v \<Longrightarrow> t = TNull \<or> (\<exists>ts. t = TUnion ts)"
  by (cases t) (auto simp: decode_domain_def domain_value_def split: if_splits)

lemma plain_alternative:
  assumes t: "t \<in> set (candidates ts)" and "unambiguous (candidates ts)" and key: "tag_key t = None"
    and "round_trip_type True t" and v: "restores t v"
  shows "restores (TUnion ts) v"
proof (rule restoresI)
  show wire: "to_wire v = Inr (wire_of v)" using v by (simp add: restores_def)
  have only: "candidates ts = [t]"
    using assms(1-3) by (auto simp: unambiguous_def length_Suc_conv image_iff)
  have decoded: "from_wire t (wire_of v) = Inr v" using v by (simp add: restores_def)
  have "t \<noteq> TNull" using t by (simp add: candidates_def)
  then have nonnull: "wire_of v \<noteq> JNull" using from_wire_null decoded assms(4) by fastforce
  have "(case wire_of v of JObj kvs \<Rightarrow> choose_tagged [t] kvs | _ \<Rightarrow> NoMatch) = NoMatch"
    using key decoded assms(4) by (cases t) (auto split: json.splits if_splits)
  then have "union_choice ts (wire_of v) = DecodeAs t (wire_of v)"
    unfolding union_choice_def only by simp
  then show "from_wire (TUnion ts) (wire_of v) = Inr v" using nonnull decoded by simp
qed

lemma union_restores:
  assumes t: "t \<in> set (candidates ts)" and "unambiguous (candidates ts)"
    and "\<forall>u \<in> set (candidates ts). round_trip_type True u" and v: "alternative_restores t v"
  shows "restores (TUnion ts) v"
proof (cases "tag_key t")
  case None
  then have "restores t v" using v by (cases t) (auto split: if_splits)
  then show ?thesis using plain_alternative None assms by blast
next
  case (Some key)
  show ?thesis
  proof (cases t)
    case (TTagged cls attribute tag u)
    then show ?thesis using v tagged_alternative assms by auto
  next
    case (TRecord cls members)
    then show ?thesis using Some v envelope_alternative [of members ts] assms(1-3) by (auto split: if_splits)
  qed (use Some in simp_all)
qed

inductive_cases typed_nullE: "typed TNull v"

lemma typed_restores:
  "typed t v \<Longrightarrow> (round_trip_type False t \<longrightarrow> restores t v) \<and> (round_trip_type True t \<longrightarrow> alternative_restores t v)"
proof (induction rule: typed.induct)
  case (t_dom_int cls d lo hi n)
  then show ?case using domain_int_round_trip [of cls d lo hi n] by (simp add: restores_rbind)
next
  case (t_dom_str cls least most s)
  then show ?case using domain_str_round_trip [of cls least most s] by (simp add: restores_rbind)
next
  case (t_tuple vs t)
  then show ?case by (simp add: tuple_restores)
next
  case (t_union t ts v)
  have "restores (TUnion ts) v" if wf: "round_trip_type False (TUnion ts)"
  proof (cases "t = TNull")
    case True
    then have "v = VNull" using t_union(2) by (auto elim: typed_nullE)
    then show ?thesis using True t_union(1) by (intro restoresI [of _ JNull]) simp_all
  next
    case False
    then have "t \<in> set (candidates ts)" using t_union(1) by (simp add: candidates_def)
    moreover have "alternative_restores t v" using t_union wf by simp
    ultimately show ?thesis using wf by (intro union_restores [of t]) (auto simp: candidates_def)
  qed
  then show ?case by simp
next
  case (t_record vs members cls)
  let ?kvs = "map (\<lambda>(f, v). (f, wire_of v)) vs"
  have wire: "record_to_wire cls vs = Inr ?kvs \<and> from_wire (TRecord cls members) (JObj ?kvs) = Inr (VRecord cls vs)"
    if wf: "round_trip_type alternative (TRecord cls members)" for alternative
  proof -
    have dist: "distinct (map fst members)" using wf by simp
    have member: "restores (snd (members ! i)) (snd (vs ! i)) \<and> \<not> exceeds_limit cls (fst (vs ! i)) (tuple_length (snd (vs ! i)))"
      if i: "i < length members" for i
    proof -
      have "round_trip_type False (snd (members ! i))" using wf nth_mem [OF i] by (auto simp: case_prod_beta)
      then show ?thesis using t_record(2) [OF i] by blast
    qed
    show ?thesis using record_restores [OF t_record(1) dist member] by blast
  qed
  have "restores (TRecord cls members) (VRecord cls vs)"
    if "cls \<noteq> ''ErrorEnvelope''" "round_trip_type alternative (TRecord cls members)" for alternative
    by (rule restoresI [of _ "JObj ?kvs"]) (use that(1) wire [OF that(2)] in \<open>simp_all del: from_wire.simps(9)\<close>)
  then show ?case using wire [of True] by (simp del: from_wire.simps(9)) blast
next
  case (t_tagged t v cls attribute tag)
  then show ?case by simp
qed (simp_all add: restores_def wire_of_def)

lemma round_trip:
  assumes "typed t v" and "round_trip_type False t"
  shows "rbind (to_wire v) (from_wire t) = Inr v"
  using typed_restores [OF assms(1)] assms(2) by (simp add: restores_rbind)

section \<open>Accepted messages\<close>

fun json_depth :: "json \<Rightarrow> nat" where
  "json_depth (JArr xs) = Max (insert 0 (Suc ` json_depth ` set xs))"
| "json_depth (JObj kvs) = Max (insert 0 (Suc ` (json_depth \<circ> snd) ` set kvs))"
| "json_depth _ = 0"

fun unique_fields :: "parsed \<Rightarrow> bool" where
  "unique_fields (PArr xs) \<longleftrightarrow> (\<forall>x \<in> set xs. unique_fields x)"
| "unique_fields (PObj kvs) \<longleftrightarrow> distinct (map fst kvs) \<and> (\<forall>(k, x) \<in> set kvs. unique_fields x)"
| "unique_fields _ \<longleftrightarrow> True"

lemma depth_bound: "finite A \<Longrightarrow> d \<le> m \<Longrightarrow> (\<And>x. x \<in> A \<Longrightarrow> Suc (d + x) \<le> m) \<Longrightarrow> d + Max (insert 0 (Suc ` A)) \<le> (m :: nat)"
proof -
  assume A: "finite A" "d \<le> m" "\<And>x. x \<in> A \<Longrightarrow> Suc (d + x) \<le> m"
  have "\<forall>x \<in> insert 0 (Suc ` A). x \<le> m - d" using A(2,3) by fastforce
  then have "Max (insert 0 (Suc ` A)) \<le> m - d" using A(1) by (subst Max_le_iff) auto
  then show ?thesis using A(2) by linarith
qed

lemma bounded_depth_depth:
  "bounded_depth v depth = Inr () \<Longrightarrow> depth + json_depth v \<le> MAX_JSON_DEPTH"
proof (induction v depth rule: bounded_depth.induct)
  case (1 v depth)
  have ok: "\<not> depth > MAX_JSON_DEPTH" using 1(3) by (subst (asm) bounded_depth.simps) (simp split: if_splits)
  show ?case
  proof (cases v)
    case (JArr xs)
    then have "each (\<lambda>x. bounded_depth x (depth + 1)) xs = Inr ()"
      using 1(3) ok by (subst (asm) bounded_depth.simps) simp
    then have "\<forall>x \<in> set xs. bounded_depth x (depth + 1) = Inr ()" by (simp add: each_Inr_iff)
    then show ?thesis using 1(1) [OF ok JArr] ok JArr by (auto intro!: depth_bound)
  next
    case (JObj kvs)
    then have "each (\<lambda>(k, x). bounded_depth x (depth + 1)) kvs = Inr ()"
      using 1(3) ok by (subst (asm) bounded_depth.simps) simp
    then have "\<forall>(k, x) \<in> set kvs. bounded_depth x (depth + 1) = Inr ()" by (auto simp: each_Inr_iff)
    then show ?thesis using 1(2) [OF ok JObj] ok JObj by (fastforce intro!: depth_bound)
  qed (use ok in simp_all)
qed

lemma reject_duplicate_pairs_fold:
  "foldM (\<lambda>result (k, v). if k \<in> fst ` set result then Inl (CodecError (''duplicate JSON field: '' @ k))
       else Inr (result @ [(k, v)])) acc kvs = Inr out
    \<longleftrightarrow> out = acc @ kvs \<and> distinct (map fst kvs) \<and> fst ` set acc \<inter> fst ` set kvs = {}"
proof (induction kvs arbitrary: acc)
  case (Cons kv kvs)
  obtain k v where kv: "kv = (k, v)" by (cases kv)
  show ?case by (cases "k \<in> fst ` set acc") (auto simp: kv Cons.IH)
qed auto

lemma reject_duplicate_pairs_Inr: "reject_duplicate_pairs kvs = Inr out \<longleftrightarrow> out = kvs \<and> distinct (map fst kvs)"
  by (simp add: reject_duplicate_pairs_def reject_duplicate_pairs_fold)

lemma mapM_pairs_keys:
  "mapM (\<lambda>(k, p). rbind (f p) (\<lambda>j. Inr (k, j))) kvs = Inr out \<Longrightarrow> map fst out = map fst kvs"
  by (induction kvs arbitrary: out) (auto simp: rbind_Inr_iff)

lemma mapM_Inr_in: "mapM f xs = Inr ys \<Longrightarrow> x \<in> set xs \<Longrightarrow> \<exists>y. f x = Inr y"
  by (auto simp: mapM_Inr_iff list_all2_conv_all_nth in_set_conv_nth)

lemma hook_unique: "hook p = Inr d \<Longrightarrow> unique_fields p"
proof (induction p arbitrary: d rule: hook.induct)
  case (6 xs)
  then show ?case by (auto simp: rbind_Inr_iff dest: mapM_Inr_in)
next
  case (7 kvs)
  then obtain pairs where pairs: "mapM (\<lambda>(k, p). rbind (hook p) (\<lambda>j. Inr (k, j))) kvs = Inr pairs"
      "distinct (map fst pairs)"
    by (auto simp: rbind_Inr_iff reject_duplicate_pairs_Inr)
  have "unique_fields x" if x: "(k, x) \<in> set kvs" for k x
    using mapM_Inr_in [OF pairs(1) x] 7(1) [OF x refl] by (auto simp: rbind_Inr_iff)
  then show ?case using mapM_pairs_keys [OF pairs(1)] pairs(2) by auto
qed simp_all

lemma decode_message_Inr:
  "decode_message loads t payload = Inr v \<longleftrightarrow>
     payload \<noteq> [] \<and> length payload \<le> MAX_WIRE_MESSAGE_BYTES \<and>
     (\<exists>p d. loads payload = Loaded p \<and> hook p = Inr d \<and> bounded_depth d 0 = Inr () \<and> from_wire t d = Inr v)"
  by (auto simp: decode_message_def rbind_Inr_iff split: load_result.splits)

text \<open>
  C36. What an accepted message guarantees.  A payload \<open>decode_message\<close> accepts is within the length bound,
  no object in it names a field twice, its document is not nested deeper than the protocol allows,
  and the value has the type asked for: ranges of domain wrappers, members of enumerations, all and
  only the fields of each record, and the item limits of its arrays.
\<close>

theorem accepted_message_is_typed:
  assumes "decode_message loads t payload = Inr v"
  shows "payload \<noteq> [] \<and> length payload \<le> MAX_WIRE_MESSAGE_BYTES \<and> typed t v \<and>
    (\<exists>p d. loads payload = Loaded p \<and> unique_fields p \<and> hook p = Inr d \<and> json_depth d \<le> MAX_JSON_DEPTH)"
proof -
  obtain p d where accepted: "payload \<noteq> []" "length payload \<le> MAX_WIRE_MESSAGE_BYTES" "loads payload = Loaded p"
      "hook p = Inr d" "bounded_depth d 0 = Inr ()" "from_wire t d = Inr v"
    using assms by (auto simp: decode_message_Inr)
  then show ?thesis
    using bounded_depth_depth [of d 0] hook_unique [of p d] from_wire_typed [of t d v] by auto
qed

text \<open>
  An optional 64-bit identifier: the text \<open>"7"\<close> in an array is read as the generation 7, whatever the
  payload, when \<open>json.loads\<close> gives that document.
\<close>

theorem accepted_message_is_typed_witness:
  "typed (TTuple (TDomain ''GenerationId'')) (VTuple [VDomInt ''GenerationId'' 7])"
proof -
  have "decode_message (\<lambda>_. Loaded (PArr [PStr ''7''])) (TTuple (TDomain ''GenerationId'')) [91, 34, 55, 34, 93]
      = Inr (VTuple [VDomInt ''GenerationId'' 7])"
    by (simp add: decode_message_def MAX_WIRE_MESSAGE_BYTES_def MAX_JSON_DEPTH_def bounded_depth.simps decode_domain_def
        domain_value_def parse_decimal_def decimal_string_def domain_ranges_def is_digit_def less_eq_char_def)
  from accepted_message_is_typed [OF this] show ?thesis by blast
qed

end
