(* ===== verification/Sdk_Wire_Types.thy ===== *)
theory Sdk_Wire_Types
  imports Sdk_Codec
begin

text \<open>
  The generated message classes of protocol 5 as the codec sees them
  (\<open>src/sdk/python/hyperflux_sdk/generated/protocol_v5_types.py\<close>, enumerations from \<open>domain_types.py\<close>): the class
  \<open>LeaseGrant\<close> is \<open>LeaseGrant_wire\<close>, a generic class takes the type that replaces its type variable.
  The codec's round trip is proved for every request and every response.
\<close>

section \<open>Enumerations\<close>

definition ActivityState_wire :: wire_type where
  "ActivityState_wire = TEnum ''ActivityState'' [
     ''active'', ''idle'', ''unknown'']"

definition ConnectionMode_wire :: wire_type where
  "ConnectionMode_wire = TEnum ''ConnectionMode'' [
     ''hyperflux-2.4ghz'', ''direct-usb'', ''bluetooth'', ''unknown'']"

definition ContactState_wire :: wire_type where
  "ContactState_wire = TEnum ''ContactState'' [
     ''on-mat'', ''off-mat'', ''unknown'', ''not-applicable'']"

definition ControllerAvailability_wire :: wire_type where
  "ControllerAvailability_wire = TEnum ''ControllerAvailability'' [
     ''ready'', ''sleeping'']"

definition DeviceApplicationState_wire :: wire_type where
  "DeviceApplicationState_wire = TEnum ''DeviceApplicationState'' [
     ''unverified'', ''confirmed'', ''rejected'']"

definition DeviceKind_wire :: wire_type where
  "DeviceKind_wire = TEnum ''DeviceKind'' [
     ''receiver'', ''mat'', ''mouse'', ''keyboard'', ''unknown'']"

definition ErrorSeverity_wire :: wire_type where
  "ErrorSeverity_wire = TEnum ''ErrorSeverity'' [
     ''info'', ''warning'', ''error'', ''critical'']"

definition EventKind_wire :: wire_type where
  "EventKind_wire = TEnum ''EventKind'' [
     ''receiver-available'', ''receiver-suspended'', ''receiver-unavailable'', ''device-available'',
     ''device-sleeping'', ''device-unavailable'', ''device-unknown'', ''battery-updated'',
     ''ownership-changed'', ''generation-replaced'', ''transaction-completed'', ''restore-completed'',
     ''diagnostic-raised'']"

definition EvidenceConfidence_wire :: wire_type where
  "EvidenceConfidence_wire = TEnum ''EvidenceConfidence'' [
     ''observed'', ''derived'', ''inferred'', ''unknown'']"

definition FreshnessState_wire :: wire_type where
  "FreshnessState_wire = TEnum ''FreshnessState'' [
     ''fresh'', ''stale'', ''unknown'']"

definition InventoryAvailability_wire :: wire_type where
  "InventoryAvailability_wire = TEnum ''InventoryAvailability'' [
     ''available'', ''sleeping'', ''unavailable'', ''unknown'', ''unpaired'', ''pairing-unknown'',
     ''receiver-unavailable'']"

definition LeaseState_wire :: wire_type where
  "LeaseState_wire = TEnum ''LeaseState'' [
     ''requested'', ''granted'', ''renewed'', ''released'', ''expired'', ''revoked'']"

definition PairingState_wire :: wire_type where
  "PairingState_wire = TEnum ''PairingState'' [
     ''paired'', ''unpaired'', ''unknown'']"

definition PowerState_wire :: wire_type where
  "PowerState_wire = TEnum ''PowerState'' [
     ''on'', ''off'', ''unknown'']"

definition PresenceState_wire :: wire_type where
  "PresenceState_wire = TEnum ''PresenceState'' [
     ''available'', ''sleeping'', ''unavailable'', ''unknown'']"

definition PrivacyClass_wire :: wire_type where
  "PrivacyClass_wire = TEnum ''PrivacyClass'' [
     ''public'', ''public-summary'', ''sensitive'', ''private'', ''forbidden'']"

definition ProtocolErrorKind_wire :: wire_type where
  "ProtocolErrorKind_wire = TEnum ''ProtocolErrorKind'' [
     ''incompatible-version'', ''unsupported-feature'', ''invalid-request'', ''ownership-conflict'',
     ''stale-generation'', ''deadline-exceeded'', ''queue-full'', ''transport-failure'',
     ''outcome-unknown'', ''outcome-evicted'', ''internal-failure'']"

definition QueueAdmission_wire :: wire_type where
  "QueueAdmission_wire = TEnum ''QueueAdmission'' [
     ''enqueued'', ''coalesced'', ''rejected-full'', ''rejected-deadline'', ''rejected-invalid'']"

definition ReceiverLifecycleState_wire :: wire_type where
  "ReceiverLifecycleState_wire = TEnum ''ReceiverLifecycleState'' [
     ''active'', ''suspended'', ''partially-suspended'', ''disconnecting'', ''unknown'']"

definition ResourceKind_wire :: wire_type where
  "ResourceKind_wire = TEnum ''ResourceKind'' [
     ''lighting'', ''settings'', ''pairing'', ''native-control'']"

definition RestoreState_wire :: wire_type where
  "RestoreState_wire = TEnum ''RestoreState'' [
     ''idle'', ''planned'', ''ownership-bound'', ''generation-bound'', ''queued'', ''applying'',
     ''succeeded'', ''failed'', ''invalidated'']"

definition RouteKind_wire :: wire_type where
  "RouteKind_wire = TEnum ''RouteKind'' [
     ''hyperflux-wireless'', ''direct-usb'', ''bluetooth'']"

definition RouteState_wire :: wire_type where
  "RouteState_wire = TEnum ''RouteState'' [
     ''available'', ''unavailable'', ''stale'', ''unknown'']"

definition SideEffectCertainty_wire :: wire_type where
  "SideEffectCertainty_wire = TEnum ''SideEffectCertainty'' [
     ''none'', ''possible'', ''partial'', ''committed'']"

definition SleepState_wire :: wire_type where
  "SleepState_wire = TEnum ''SleepState'' [
     ''awake'', ''asleep'', ''unknown'']"

definition StableLightingMode_wire :: wire_type where
  "StableLightingMode_wire = TEnum ''StableLightingMode'' [
     ''static'', ''off'']"

definition SupportLevel_wire :: wire_type where
  "SupportLevel_wire = TEnum ''SupportLevel'' [
     ''candidate'', ''identified'', ''read-only'', ''telemetry-qualified'', ''lighting-qualified'',
     ''settings-qualified'', ''pairing-qualified'', ''production-qualified'']"

definition TelemetryAvailability_wire :: wire_type where
  "TelemetryAvailability_wire = TEnum ''TelemetryAvailability'' [
     ''unknown'', ''unavailable'', ''reported'']"

definition TransactionClass_wire :: wire_type where
  "TransactionClass_wire = TEnum ''TransactionClass'' [
     ''effect-frame'', ''static-lighting'', ''device-setting'', ''restore'', ''pairing'']"

definition TransactionState_wire :: wire_type where
  "TransactionState_wire = TEnum ''TransactionState'' [
     ''created'', ''validated'', ''ownership-bound'', ''generation-bound'', ''queued'', ''sent'',
     ''health-pending'', ''succeeded'', ''failed'', ''revoked'', ''superseded'']"

section \<open>Records and unions\<close>

definition EmptyRequest_wire :: wire_type where
  "EmptyRequest_wire = TRecord ''EmptyRequest'' []"

definition RgbColor_wire :: wire_type where
  "RgbColor_wire = TRecord ''RgbColor'' [
     (''red'', TDomain ''ColorChannel''), (''green'', TDomain ''ColorChannel''),
     (''blue'', TDomain ''ColorChannel'')]"

definition ClientHello_wire :: wire_type where
  "ClientHello_wire = TRecord ''ClientHello'' [
     (''client_id'', TDomain ''ClientId''), (''client_name'', TDomain ''ClientName''),
     (''minimum_version'', TDomain ''ProtocolVersion''),
     (''maximum_version'', TDomain ''ProtocolVersion''),
     (''required_features'', TTuple (TDomain ''ProtocolFeatureId'')),
     (''optional_features'', TTuple (TDomain ''ProtocolFeatureId''))]"

definition ServerHello_wire :: wire_type where
  "ServerHello_wire = TRecord ''ServerHello'' [
     (''selected_version'', TDomain ''ProtocolVersion''),
     (''server_instance_id'', TDomain ''ServerInstanceId''),
     (''protocol_session_id'', TDomain ''ProtocolSessionId''),
     (''negotiation_token'', TDomain ''NegotiationToken''),
     (''bridge_version'', TDomain ''ComponentVersion''),
     (''enabled_features'', TTuple (TDomain ''ProtocolFeatureId'')),
     (''event_buffer_capacity'', TDomain ''QueueCapacity'')]"

definition ResourceKey_wire :: wire_type where
  "ResourceKey_wire = TRecord ''ResourceKey'' [
     (''receiver_id'', TDomain ''ReceiverId''), (''generation_id'', TDomain ''GenerationId''),
     (''device_id'', TDomain ''LogicalDeviceId''), (''kind'', ResourceKind_wire)]"

definition LeaseRequest_wire :: wire_type where
  "LeaseRequest_wire = TRecord ''LeaseRequest'' [
     (''request_id'', TDomain ''RequestId''), (''client_id'', TDomain ''ClientId''),
     (''resources'', TTuple (ResourceKey_wire)), (''duration_ms'', TDomain ''LeaseDurationMs'')]"

definition LeaseGrant_wire :: wire_type where
  "LeaseGrant_wire = TRecord ''LeaseGrant'' [
     (''lease_id'', TDomain ''LeaseId''), (''client_id'', TDomain ''ClientId''),
     (''resources'', TTuple (ResourceKey_wire)), (''expires_at_ms'', TDomain ''MonotonicMs''),
     (''state'', LeaseState_wire)]"

definition LeaseConflict_wire :: wire_type where
  "LeaseConflict_wire = TRecord ''LeaseConflict'' [
     (''conflicting_client'', TDomain ''ClientId''), (''conflicting_resource'', ResourceKey_wire)]"

definition LeaseRejection_wire :: wire_type where
  "LeaseRejection_wire = TRecord ''LeaseRejection'' [
     (''error_kind'', ProtocolErrorKind_wire), (''finding_id'', TDomain ''FindingId'')]"

definition RenewLeaseRequest_wire :: wire_type where
  "RenewLeaseRequest_wire = TRecord ''RenewLeaseRequest'' [
     (''request_id'', TDomain ''RequestId''), (''client_id'', TDomain ''ClientId''),
     (''lease_id'', TDomain ''LeaseId''), (''duration_ms'', TDomain ''LeaseDurationMs'')]"

definition ReleaseLeaseRequest_wire :: wire_type where
  "ReleaseLeaseRequest_wire = TRecord ''ReleaseLeaseRequest'' [
     (''request_id'', TDomain ''RequestId''), (''client_id'', TDomain ''ClientId''),
     (''lease_id'', TDomain ''LeaseId'')]"

definition EventCursor_wire :: wire_type where
  "EventCursor_wire = TRecord ''EventCursor'' [
     (''stream_id'', TDomain ''StreamId''), (''stream_epoch'', TDomain ''StreamEpoch''),
     (''projection_revision'', TDomain ''ProjectionRevision''),
     (''sequence'', TDomain ''SequenceNumber'')]"

definition EndpointSnapshot_wire :: wire_type where
  "EndpointSnapshot_wire = TRecord ''EndpointSnapshot'' [
     (''endpoint_id'', TDomain ''EndpointId''), (''route_kind'', RouteKind_wire),
     (''route_state'', RouteState_wire), (''connection_mode'', ConnectionMode_wire),
     (''power_state'', PowerState_wire), (''sleep_state'', SleepState_wire),
     (''activity_state'', ActivityState_wire), (''contact_state'', ContactState_wire),
     (''freshness'', FreshnessState_wire), (''confidence'', EvidenceConfidence_wire),
     (''evidence_claim_id'', TUnion [TDomain ''EvidenceClaimId'', TNull]),
     (''observed_at_ms'', TUnion [TDomain ''MonotonicMs'', TNull])]"

definition BatteryObservation_wire :: wire_type where
  "BatteryObservation_wire = TRecord ''BatteryObservation'' [
     (''availability'', TelemetryAvailability_wire),
     (''percentage'', TUnion [TDomain ''BatteryPercent'', TNull]),
     (''freshness'', FreshnessState_wire), (''confidence'', EvidenceConfidence_wire),
     (''observed_at_ms'', TUnion [TDomain ''MonotonicMs'', TNull])]"

definition ResourceOwnershipSnapshot_wire :: wire_type where
  "ResourceOwnershipSnapshot_wire = TRecord ''ResourceOwnershipSnapshot'' [
     (''resource'', ResourceKey_wire), (''client_id'', TDomain ''ClientId''),
     (''lease_id'', TDomain ''LeaseId''), (''expires_at_ms'', TDomain ''MonotonicMs'')]"

definition LogicalDeviceSnapshot_wire :: wire_type where
  "LogicalDeviceSnapshot_wire = TRecord ''LogicalDeviceSnapshot'' [
     (''device_id'', TDomain ''LogicalDeviceId''), (''device_kind'', DeviceKind_wire),
     (''product_id'', TDomain ''ProductId''), (''profile_id'', TUnion [TDomain ''ProfileId'', TNull]),
     (''profile_digest'', TUnion [TDomain ''ProfileDigest'', TNull]), (''pairing'', PairingState_wire),
     (''presence'', PresenceState_wire), (''support_level'', SupportLevel_wire),
     (''endpoints'', TTuple (EndpointSnapshot_wire)), (''battery'', BatteryObservation_wire),
     (''capabilities'', TTuple (TDomain ''CapabilityId''))]"

definition ReceiverSnapshot_wire :: wire_type where
  "ReceiverSnapshot_wire = TRecord ''ReceiverSnapshot'' [
     (''receiver_id'', TDomain ''ReceiverId''), (''generation_id'', TDomain ''GenerationId''),
     (''profile_id'', TUnion [TDomain ''ProfileId'', TNull]),
     (''profile_digest'', TUnion [TDomain ''ProfileDigest'', TNull]),
     (''lifecycle'', ReceiverLifecycleState_wire), (''devices'', TTuple (LogicalDeviceSnapshot_wire)),
     (''ownership'', TTuple (ResourceOwnershipSnapshot_wire)), (''stable_restore_enabled'', TBool),
     (''restore_state'', RestoreState_wire)]"

definition BridgeSnapshot_wire :: wire_type where
  "BridgeSnapshot_wire = TRecord ''BridgeSnapshot'' [
     (''cursor'', EventCursor_wire), (''receivers'', TTuple (ReceiverSnapshot_wire))]"

definition LightingFrame_wire :: wire_type where
  "LightingFrame_wire = TRecord ''LightingFrame'' [
     (''device_id'', TDomain ''LogicalDeviceId''), (''frame_index'', TDomain ''FrameIndex''),
     (''colors'', TTuple (RgbColor_wire))]"

definition DeviceProfileBinding_wire :: wire_type where
  "DeviceProfileBinding_wire = TRecord ''DeviceProfileBinding'' [
     (''device_id'', TDomain ''LogicalDeviceId''), (''profile_id'', TDomain ''ProfileId''),
     (''profile_digest'', TDomain ''ProfileDigest''),
     (''application_slot_count'', TDomain ''LedCount'')]"

definition StableLightingIntent_wire :: wire_type where
  "StableLightingIntent_wire = TRecord ''StableLightingIntent'' [
     (''device_id'', TDomain ''LogicalDeviceId''), (''mode'', StableLightingMode_wire)]"

definition TransactionRequest_wire :: wire_type where
  "TransactionRequest_wire = TRecord ''TransactionRequest'' [
     (''request_id'', TDomain ''RequestId''), (''transaction_id'', TDomain ''TransactionId''),
     (''client_id'', TDomain ''ClientId''), (''lease_id'', TDomain ''LeaseId''),
     (''receiver_id'', TDomain ''ReceiverId''), (''generation_id'', TDomain ''GenerationId''),
     (''receiver_profile_id'', TDomain ''ProfileId''),
     (''receiver_profile_digest'', TDomain ''ProfileDigest''),
     (''device_profiles'', TTuple (DeviceProfileBinding_wire)),
     (''transaction_class'', TransactionClass_wire),
     (''stable_intents'', TTuple (StableLightingIntent_wire)),
     (''deadline_ms'', TDomain ''MonotonicMs''), (''resources'', TTuple (ResourceKey_wire)),
     (''frames'', TTuple (LightingFrame_wire))]"

definition TransactionProgress_wire :: wire_type where
  "TransactionProgress_wire = TRecord ''TransactionProgress'' [
     (''request_id'', TDomain ''RequestId''), (''request_digest'', TDomain ''RequestDigest''),
     (''transaction_id'', TDomain ''TransactionId''), (''receiver_id'', TDomain ''ReceiverId''),
     (''generation_id'', TDomain ''GenerationId''), (''state'', TransactionState_wire),
     (''admission'', QueueAdmission_wire), (''declared_frames'', TDomain ''FrameCount''),
     (''delivered_frames'', TDomain ''DeliveredFrameCount''),
     (''side_effect_certainty'', SideEffectCertainty_wire), (''live_write_executed'', TBool)]"

definition TransactionTerminal_wire :: wire_type where
  "TransactionTerminal_wire = TRecord ''TransactionTerminal'' [
     (''request_id'', TDomain ''RequestId''), (''request_digest'', TDomain ''RequestDigest''),
     (''transaction_id'', TDomain ''TransactionId''), (''receiver_id'', TDomain ''ReceiverId''),
     (''generation_id'', TDomain ''GenerationId''), (''state'', TransactionState_wire),
     (''declared_frames'', TDomain ''FrameCount''),
     (''delivered_frames'', TDomain ''DeliveredFrameCount''),
     (''side_effect_certainty'', SideEffectCertainty_wire), (''live_write_executed'', TBool),
     (''automatic_retry'', TBool), (''device_application'', DeviceApplicationState_wire),
     (''terminal_sequence'', TDomain ''SequenceNumber''),
     (''error_kind'', TUnion [ProtocolErrorKind_wire, TNull]),
     (''superseded_by'', TUnion [TDomain ''TransactionId'', TNull])]"

definition TransactionUnavailable_wire :: wire_type where
  "TransactionUnavailable_wire = TRecord ''TransactionUnavailable'' [
     (''transaction_id'', TDomain ''TransactionId''), (''error_kind'', ProtocolErrorKind_wire),
     (''finding_id'', TDomain ''FindingId'')]"

definition TransactionLookup_wire :: wire_type where
  "TransactionLookup_wire = TRecord ''TransactionLookup'' [
     (''request_id'', TDomain ''RequestId''), (''client_id'', TDomain ''ClientId''),
     (''transaction_id'', TDomain ''TransactionId'')]"

definition SubscriptionRequest_wire :: wire_type where
  "SubscriptionRequest_wire = TRecord ''SubscriptionRequest'' [
     (''client_id'', TDomain ''ClientId''),
     (''subscription_id'', TUnion [TDomain ''SubscriptionId'', TNull]),
     (''expected_cursor'', TUnion [EventCursor_wire, TNull]),
     (''max_events'', TDomain ''EventBatchLimit'')]"

definition BridgeEvent_wire :: wire_type where
  "BridgeEvent_wire = TRecord ''BridgeEvent'' [
     (''sequence'', TDomain ''SequenceNumber''), (''kind'', EventKind_wire),
     (''receiver_id'', TUnion [TDomain ''ReceiverId'', TNull]),
     (''generation_id'', TUnion [TDomain ''GenerationId'', TNull]),
     (''device_id'', TUnion [TDomain ''LogicalDeviceId'', TNull]),
     (''lease_id'', TUnion [TDomain ''LeaseId'', TNull]),
     (''transaction_id'', TUnion [TDomain ''TransactionId'', TNull]),
     (''finding_id'', TUnion [TDomain ''FindingId'', TNull])]"

definition EventBatch_wire :: wire_type where
  "EventBatch_wire = TRecord ''EventBatch'' [
     (''subscription_id'', TDomain ''SubscriptionId''), (''next_cursor'', EventCursor_wire),
     (''events'', TTuple (BridgeEvent_wire)), (''oldest_available'', TDomain ''SequenceNumber''),
     (''latest_available'', TDomain ''SequenceNumber''),
     (''dropped_events'', TDomain ''DroppedEventCount''), (''cursor_gap'', TBool),
     (''has_more'', TBool)]"

definition DiagnosticFinding_wire :: wire_type where
  "DiagnosticFinding_wire = TRecord ''DiagnosticFinding'' [
     (''finding_id'', TDomain ''FindingId''), (''severity'', ErrorSeverity_wire),
     (''cause'', TDomain ''HumanMessage''), (''explanation'', TDomain ''HumanMessage''),
     (''safe_action'', TDomain ''HumanMessage''), (''privacy'', PrivacyClass_wire),
     (''documentation'', TDomain ''DocumentationPath'')]"

definition DiagnosticSnapshot_wire :: wire_type where
  "DiagnosticSnapshot_wire = TRecord ''DiagnosticSnapshot'' [
     (''sequence'', TDomain ''SequenceNumber''), (''findings'', TTuple (DiagnosticFinding_wire)),
     (''event_buffer_capacity'', TDomain ''QueueCapacity''),
     (''transaction_queue_capacity'', TDomain ''QueueCapacity'')]"

definition ProfileBindingView_wire :: wire_type where
  "ProfileBindingView_wire = TRecord ''ProfileBindingView'' [
     (''profile_id'', TDomain ''ProfileId''), (''profile_digest'', TDomain ''ProfileDigest'')]"

definition DeviceInventoryView_wire :: wire_type where
  "DeviceInventoryView_wire = TRecord ''DeviceInventoryView'' [
     (''device_id'', TDomain ''LogicalDeviceId''), (''device_kind'', DeviceKind_wire),
     (''product_id'', TDomain ''ProductId''), (''profile'', TUnion [ProfileBindingView_wire, TNull]),
     (''model_name'', TUnion [TDomain ''ModelName'', TNull]), (''pairing'', PairingState_wire),
     (''presence'', PresenceState_wire), (''availability'', InventoryAvailability_wire),
     (''support_level'', SupportLevel_wire), (''endpoints'', TTuple (EndpointSnapshot_wire)),
     (''battery'', BatteryObservation_wire), (''capabilities'', TTuple (TDomain ''CapabilityId''))]"

definition PresentationView_wire :: wire_type where
  "PresentationView_wire = TRecord ''PresentationView'' [
     (''upstream_id'', TDomain ''UpstreamId''), (''owner'', TDomain ''UpstreamOwner''),
     (''project_version'', TDomain ''ComponentVersion''),
     (''source_revision'', TDomain ''SourceRevision''), (''model_key'', TDomain ''PresentationKey''),
     (''layout_key'', TUnion [TDomain ''PresentationKey'', TNull]),
     (''transport_variant'', TDomain ''TransportVariant'')]"

definition LightingTopologyView_wire :: wire_type where
  "LightingTopologyView_wire = TRecord ''LightingTopologyView'' [
     (''physical_led_count'', TDomain ''LedCount''),
     (''application_slot_count'', TDomain ''LedCount''), (''rows'', TDomain ''LedCount''),
     (''columns'', TDomain ''LedCount'')]"

definition UnownedController_wire :: wire_type where
  "UnownedController_wire = TRecord ''UnownedController'' []"

definition ViewerOwnedController_wire :: wire_type where
  "ViewerOwnedController_wire = TRecord ''ViewerOwnedController'' [
     (''lease_id'', TDomain ''LeaseId''), (''expires_at_ms'', TDomain ''MonotonicMs'')]"

definition OtherOwnedController_wire :: wire_type where
  "OtherOwnedController_wire = TRecord ''OtherOwnedController'' [
     (''client_id'', TDomain ''ClientId''), (''lease_id'', TDomain ''LeaseId''),
     (''expires_at_ms'', TDomain ''MonotonicMs'')]"

definition ControllerActions_wire :: wire_type where
  "ControllerActions_wire = TRecord ''ControllerActions'' [
     (''can_acquire'', TBool), (''can_release'', TBool), (''can_submit_now'', TBool)]"

definition RpcError_wire :: wire_type where
  "RpcError_wire = TRecord ''RpcError'' [
     (''request_id'', TUnion [TDomain ''RequestId'', TNull]), (''kind'', ProtocolErrorKind_wire),
     (''message'', TDomain ''HumanMessage''), (''finding_id'', TDomain ''FindingId'')]"

definition LeaseResultGranted_wire :: wire_type where
  "LeaseResultGranted_wire = TTagged ''LeaseResultGranted'' ''OUTCOME'' ''granted''
     (LeaseGrant_wire)"

definition LeaseResultConflict_wire :: wire_type where
  "LeaseResultConflict_wire = TTagged ''LeaseResultConflict'' ''OUTCOME'' ''conflict''
     (LeaseConflict_wire)"

definition LeaseResultRejected_wire :: wire_type where
  "LeaseResultRejected_wire = TTagged ''LeaseResultRejected'' ''OUTCOME'' ''rejected''
     (LeaseRejection_wire)"

definition LeaseResult_wire :: wire_type where
  "LeaseResult_wire = TUnion [
     LeaseResultGranted_wire, LeaseResultConflict_wire, LeaseResultRejected_wire]"

definition TransactionResultProgress_wire :: wire_type where
  "TransactionResultProgress_wire = TTagged ''TransactionResultProgress'' ''OUTCOME'' ''progress''
     (TransactionProgress_wire)"

definition TransactionResultTerminal_wire :: wire_type where
  "TransactionResultTerminal_wire = TTagged ''TransactionResultTerminal'' ''OUTCOME'' ''terminal''
     (TransactionTerminal_wire)"

definition TransactionResultUnavailable_wire :: wire_type where
  "TransactionResultUnavailable_wire = TTagged ''TransactionResultUnavailable'' ''OUTCOME'' ''unavailable''
     (TransactionUnavailable_wire)"

definition TransactionResult_wire :: wire_type where
  "TransactionResult_wire = TUnion [
     TransactionResultProgress_wire, TransactionResultTerminal_wire, TransactionResultUnavailable_wire]"

definition ControllerOwnershipUnowned_wire :: wire_type where
  "ControllerOwnershipUnowned_wire = TTagged ''ControllerOwnershipUnowned'' ''STATE'' ''unowned''
     (UnownedController_wire)"

definition ControllerOwnershipOwnedByViewer_wire :: wire_type where
  "ControllerOwnershipOwnedByViewer_wire = TTagged ''ControllerOwnershipOwnedByViewer'' ''STATE'' ''owned-by-viewer''
     (ViewerOwnedController_wire)"

definition ControllerOwnershipOwnedByOther_wire :: wire_type where
  "ControllerOwnershipOwnedByOther_wire = TTagged ''ControllerOwnershipOwnedByOther'' ''STATE'' ''owned-by-other''
     (OtherOwnedController_wire)"

definition ControllerOwnership_wire :: wire_type where
  "ControllerOwnership_wire = TUnion [
     ControllerOwnershipUnowned_wire, ControllerOwnershipOwnedByViewer_wire,
     ControllerOwnershipOwnedByOther_wire]"

definition ControllerView_wire :: wire_type where
  "ControllerView_wire = TRecord ''ControllerView'' [
     (''receiver_id'', TDomain ''ReceiverId''), (''generation_id'', TDomain ''GenerationId''),
     (''device_id'', TDomain ''LogicalDeviceId''), (''endpoint_id'', TDomain ''EndpointId''),
     (''device_kind'', DeviceKind_wire), (''product_id'', TDomain ''ProductId''),
     (''receiver_profile'', ProfileBindingView_wire), (''device_profile'', ProfileBindingView_wire),
     (''model_name'', TDomain ''ModelName''), (''presentation'', PresentationView_wire),
     (''availability'', ControllerAvailability_wire), (''battery'', BatteryObservation_wire),
     (''capabilities'', TTuple (TDomain ''CapabilityId'')), (''lighting'', LightingTopologyView_wire),
     (''resource'', ResourceKey_wire), (''ownership'', ControllerOwnership_wire),
     (''actions'', ControllerActions_wire)]"

definition IntegrationReceiverView_wire :: wire_type where
  "IntegrationReceiverView_wire = TRecord ''IntegrationReceiverView'' [
     (''receiver_id'', TDomain ''ReceiverId''), (''generation_id'', TDomain ''GenerationId''),
     (''profile'', TUnion [ProfileBindingView_wire, TNull]),
     (''model_name'', TUnion [TDomain ''ModelName'', TNull]),
     (''lifecycle'', ReceiverLifecycleState_wire), (''stable_restore_enabled'', TBool),
     (''restore_state'', RestoreState_wire), (''inventory'', TTuple (DeviceInventoryView_wire)),
     (''controllers'', TTuple (ControllerView_wire))]"

definition IntegrationView_wire :: wire_type where
  "IntegrationView_wire = TRecord ''IntegrationView'' [
     (''cursor'', EventCursor_wire), (''receivers'', TTuple (IntegrationReceiverView_wire))]"

definition NegotiationRequestEnvelope_wire :: wire_type where
  "NegotiationRequestEnvelope_wire = TRecord ''NegotiationRequestEnvelope'' [
     (''request_id'', TDomain ''RequestId''), (''params'', ClientHello_wire)]"

definition SessionRequestEnvelope_wire :: "wire_type \<Rightarrow> wire_type" where
  "SessionRequestEnvelope_wire p = TRecord ''SessionRequestEnvelope'' [
     (''request_id'', TDomain ''RequestId''), (''protocol_session_id'', TDomain ''ProtocolSessionId''),
     (''negotiation_token'', TDomain ''NegotiationToken''), (''params'', p)]"

definition RpcRequestNegotiate_wire :: wire_type where
  "RpcRequestNegotiate_wire = TTagged ''RpcRequestNegotiate'' ''METHOD'' ''negotiate''
     (NegotiationRequestEnvelope_wire)"

definition RpcRequestSnapshot_wire :: wire_type where
  "RpcRequestSnapshot_wire = TTagged ''RpcRequestSnapshot'' ''METHOD'' ''snapshot''
     (SessionRequestEnvelope_wire EmptyRequest_wire)"

definition RpcRequestIntegrationView_wire :: wire_type where
  "RpcRequestIntegrationView_wire = TTagged ''RpcRequestIntegrationView'' ''METHOD'' ''integration-view''
     (SessionRequestEnvelope_wire EmptyRequest_wire)"

definition RpcRequestAcquireLease_wire :: wire_type where
  "RpcRequestAcquireLease_wire = TTagged ''RpcRequestAcquireLease'' ''METHOD'' ''acquire-lease''
     (SessionRequestEnvelope_wire LeaseRequest_wire)"

definition RpcRequestRenewLease_wire :: wire_type where
  "RpcRequestRenewLease_wire = TTagged ''RpcRequestRenewLease'' ''METHOD'' ''renew-lease''
     (SessionRequestEnvelope_wire RenewLeaseRequest_wire)"

definition RpcRequestReleaseLease_wire :: wire_type where
  "RpcRequestReleaseLease_wire = TTagged ''RpcRequestReleaseLease'' ''METHOD'' ''release-lease''
     (SessionRequestEnvelope_wire ReleaseLeaseRequest_wire)"

definition RpcRequestSubmitTransaction_wire :: wire_type where
  "RpcRequestSubmitTransaction_wire = TTagged ''RpcRequestSubmitTransaction'' ''METHOD'' ''submit-transaction''
     (SessionRequestEnvelope_wire TransactionRequest_wire)"

definition RpcRequestTransactionOutcome_wire :: wire_type where
  "RpcRequestTransactionOutcome_wire = TTagged ''RpcRequestTransactionOutcome'' ''METHOD'' ''transaction-outcome''
     (SessionRequestEnvelope_wire TransactionLookup_wire)"

definition RpcRequestSubscribe_wire :: wire_type where
  "RpcRequestSubscribe_wire = TTagged ''RpcRequestSubscribe'' ''METHOD'' ''subscribe''
     (SessionRequestEnvelope_wire SubscriptionRequest_wire)"

definition RpcRequestDiagnostics_wire :: wire_type where
  "RpcRequestDiagnostics_wire = TTagged ''RpcRequestDiagnostics'' ''METHOD'' ''diagnostics''
     (SessionRequestEnvelope_wire EmptyRequest_wire)"

definition RpcRequest_wire :: wire_type where
  "RpcRequest_wire = TUnion [
     RpcRequestNegotiate_wire, RpcRequestSnapshot_wire, RpcRequestIntegrationView_wire,
     RpcRequestAcquireLease_wire, RpcRequestRenewLease_wire, RpcRequestReleaseLease_wire,
     RpcRequestSubmitTransaction_wire, RpcRequestTransactionOutcome_wire, RpcRequestSubscribe_wire,
     RpcRequestDiagnostics_wire]"

definition SuccessEnvelope_wire :: "wire_type \<Rightarrow> wire_type" where
  "SuccessEnvelope_wire p = TRecord ''SuccessEnvelope'' [
     (''request_id'', TDomain ''RequestId''), (''server_instance_id'', TDomain ''ServerInstanceId''),
     (''result'', p)]"

definition ErrorEnvelope_wire :: wire_type where
  "ErrorEnvelope_wire = TRecord ''ErrorEnvelope'' [
     (''request_id'', TUnion [TDomain ''RequestId'', TNull]),
     (''server_instance_id'', TDomain ''ServerInstanceId''), (''error'', RpcError_wire)]"

definition RpcResponseNegotiateSuccess_wire :: wire_type where
  "RpcResponseNegotiateSuccess_wire = TTagged ''RpcResponseNegotiateSuccess'' ''TYPE'' ''negotiate-success''
     (SuccessEnvelope_wire ServerHello_wire)"

definition RpcResponseSnapshotSuccess_wire :: wire_type where
  "RpcResponseSnapshotSuccess_wire = TTagged ''RpcResponseSnapshotSuccess'' ''TYPE'' ''snapshot-success''
     (SuccessEnvelope_wire BridgeSnapshot_wire)"

definition RpcResponseIntegrationViewSuccess_wire :: wire_type where
  "RpcResponseIntegrationViewSuccess_wire = TTagged ''RpcResponseIntegrationViewSuccess'' ''TYPE'' ''integration-view-success''
     (SuccessEnvelope_wire IntegrationView_wire)"

definition RpcResponseAcquireLeaseSuccess_wire :: wire_type where
  "RpcResponseAcquireLeaseSuccess_wire = TTagged ''RpcResponseAcquireLeaseSuccess'' ''TYPE'' ''acquire-lease-success''
     (SuccessEnvelope_wire LeaseResult_wire)"

definition RpcResponseRenewLeaseSuccess_wire :: wire_type where
  "RpcResponseRenewLeaseSuccess_wire = TTagged ''RpcResponseRenewLeaseSuccess'' ''TYPE'' ''renew-lease-success''
     (SuccessEnvelope_wire LeaseResult_wire)"

definition RpcResponseReleaseLeaseSuccess_wire :: wire_type where
  "RpcResponseReleaseLeaseSuccess_wire = TTagged ''RpcResponseReleaseLeaseSuccess'' ''TYPE'' ''release-lease-success''
     (SuccessEnvelope_wire LeaseResult_wire)"

definition RpcResponseSubmitTransactionSuccess_wire :: wire_type where
  "RpcResponseSubmitTransactionSuccess_wire = TTagged ''RpcResponseSubmitTransactionSuccess'' ''TYPE'' ''submit-transaction-success''
     (SuccessEnvelope_wire TransactionResult_wire)"

definition RpcResponseTransactionOutcomeSuccess_wire :: wire_type where
  "RpcResponseTransactionOutcomeSuccess_wire = TTagged ''RpcResponseTransactionOutcomeSuccess'' ''TYPE'' ''transaction-outcome-success''
     (SuccessEnvelope_wire TransactionResult_wire)"

definition RpcResponseSubscribeSuccess_wire :: wire_type where
  "RpcResponseSubscribeSuccess_wire = TTagged ''RpcResponseSubscribeSuccess'' ''TYPE'' ''subscribe-success''
     (SuccessEnvelope_wire EventBatch_wire)"

definition RpcResponseDiagnosticsSuccess_wire :: wire_type where
  "RpcResponseDiagnosticsSuccess_wire = TTagged ''RpcResponseDiagnosticsSuccess'' ''TYPE'' ''diagnostics-success''
     (SuccessEnvelope_wire DiagnosticSnapshot_wire)"

definition RpcResponse_wire :: wire_type where
  "RpcResponse_wire = TUnion [
     RpcResponseNegotiateSuccess_wire, RpcResponseSnapshotSuccess_wire,
     RpcResponseIntegrationViewSuccess_wire, RpcResponseAcquireLeaseSuccess_wire,
     RpcResponseRenewLeaseSuccess_wire, RpcResponseReleaseLeaseSuccess_wire,
     RpcResponseSubmitTransactionSuccess_wire, RpcResponseTransactionOutcomeSuccess_wire,
     RpcResponseSubscribeSuccess_wire, RpcResponseDiagnosticsSuccess_wire, ErrorEnvelope_wire]"

section \<open>Requests and responses\<close>

lemma request_round_trip_type: "round_trip_type False RpcRequest_wire"
  by code_simp

lemma response_round_trip_type: "round_trip_type False RpcResponse_wire"
  by code_simp

text \<open>
  C35. Round trip.  Every value of the request type and every value of the response type of protocol 5 is
  encoded, and decoding its wire form gives the value back: identifiers of 64 bits go through
  decimal strings, optional fields through \<open>null\<close>, an error reply through its envelope, and the tags
  tell the alternatives apart.
\<close>

theorem rpc_messages_round_trip:
  assumes "typed t v" and "t = RpcRequest_wire \<or> t = RpcResponse_wire"
  shows "rbind (to_wire v) (from_wire t) = Inr v"
  using assms request_round_trip_type response_round_trip_type by (auto intro: round_trip)

definition sample_request :: json where
  "sample_request = JObj [(''method'', JStr ''snapshot''), (''request'', JObj [
     (''request_id'', JStr ''41''), (''protocol_session_id'', JStr ''18446744073709551615''),
     (''negotiation_token'', JStr (replicate 64 CHR ''a'')), (''params'', JObj [])])]"

lemma sample_request_decoded: "case from_wire RpcRequest_wire sample_request of Inl e \<Rightarrow> False | Inr v \<Rightarrow> True"
  by code_simp

theorem rpc_messages_round_trip_witness:
  "\<exists>v. from_wire RpcRequest_wire sample_request = Inr v \<and> rbind (to_wire v) (from_wire RpcRequest_wire) = Inr v"
proof -
  obtain v where v: "from_wire RpcRequest_wire sample_request = Inr v"
    using sample_request_decoded by (auto split: sum.splits)
  then show ?thesis using rpc_messages_round_trip [OF from_wire_typed [OF v]] by blast
qed

end
