(* ===== verification/Sdk_Channel.thy ===== *)
theory Sdk_Channel
  imports Sdk_Wire_Types
begin

text \<open>
  The Unix socket channel of the Python SDK, \<open>src/sdk/python/hyperflux_sdk/channel.py\<close>: the configuration with
  its default authority, the connection with the check of the peer's credentials, and the framed
  exchange of one request and one response.

  The operating system is a parameter: \<open>socket_os\<close> has the socket calls the module makes, on a world \<open>'w\<close>,
  each of which may raise; \<open>geteuid\<close>, \<open>getpwnam\<close> and \<open>fsencode\<close> are values and functions.  A path is its
  text.  Bytes are numbers.  The lock of a channel is held over the whole of \<open>exchange\<close> and \<open>close\<close>.
\<close>

section \<open>Configuration\<close>

definition BRIDGE_SERVICE_ACCOUNT :: string where
  "BRIDGE_SERVICE_ACCOUNT = ''hyperflux-next''"

definition BRIDGE_SOCKET_PATH :: string where
  "BRIDGE_SOCKET_PATH = ''/run/hyperflux-next/bridge.sock''"

definition DESKTOP_USER_RUNTIME_ROOT :: string where
  "DESKTOP_USER_RUNTIME_ROOT = ''/run/user''"

definition DESKTOP_BRIDGE_SOCKET_NAME :: string where
  "DESKTOP_BRIDGE_SOCKET_NAME = ''hyperflux-next-bridge.sock''"

record unix_channel_config =
  socket_path :: "string option"
  timeout_seconds :: rat
  expected_peer_uid :: "int option"
  expected_peer_user :: "string option"

definition config_post_init :: "nat \<Rightarrow> unix_channel_config \<Rightarrow> sdk_exn + unix_channel_config" where
  "config_post_init geteuid c =
     (if timeout_seconds c \<le> 0 then Inl (ValueError ''socket timeout must be greater than zero'')
      else if expected_peer_uid c \<noteq> None \<and> expected_peer_user c \<noteq> None
      then Inl (ValueError ''select an expected peer UID or account, not both'')
      else if socket_path c = None then
        (if geteuid = 0
         then Inr (c\<lparr>socket_path := Some BRIDGE_SOCKET_PATH, expected_peer_user := Some BRIDGE_SERVICE_ACCOUNT\<rparr>)
         else Inr (c\<lparr>socket_path := Some (DESKTOP_USER_RUNTIME_ROOT @ ''/'' @ str_nat geteuid @ ''/'' @ DESKTOP_BRIDGE_SOCKET_NAME),
               expected_peer_uid := Some 0\<rparr>))
      else if expected_peer_uid c = None \<and> expected_peer_user c = None
      then Inr (c\<lparr>expected_peer_user := Some BRIDGE_SERVICE_ACCOUNT\<rparr>)
      else Inr c)"

section \<open>Connection\<close>

record 'w socket_os =
  os_socket :: "('w, unit) io"
  os_settimeout :: "rat \<Rightarrow> ('w, unit) io"
  os_connect :: "string \<Rightarrow> ('w, unit) io"
  os_peercred :: "('w, int) io"
  os_close :: "('w, unit) io"
  os_sendall :: "nat list \<Rightarrow> ('w, unit) io"
  os_recv :: "nat \<Rightarrow> ('w, nat list) io"

text \<open>A channel: whether it still has its connection.\<close>

record unix_rpc_channel =
  ch_connected :: bool

text \<open>The user whose peer is accepted: the account, when one is configured, before the number.\<close>

definition expected_uid :: "(string \<Rightarrow> int option) \<Rightarrow> unix_channel_config \<Rightarrow> sdk_exn + int option" where
  "expected_uid getpwnam c = (case expected_peer_user c of
     None \<Rightarrow> Inr (expected_peer_uid c)
   | Some user \<Rightarrow> (case getpwnam user of
       None \<Rightarrow> Inl (PeerCredentialError ''configured bridge service account is unavailable'')
     | Some uid \<Rightarrow> Inr (Some uid)))"

definition check_peer :: "'w socket_os \<Rightarrow> int option \<Rightarrow> ('w, unit) io" where
  "check_peer os expected = (case expected of
     None \<Rightarrow> io_return ()
   | Some wanted \<Rightarrow> io_bind (os_peercred os) (\<lambda>uid.
       if uid \<noteq> wanted
       then io_raise (PeerCredentialError ''local bridge peer UID does not match the configured authority'')
       else io_return ()))"

definition connect_channel ::
  "'w socket_os \<Rightarrow> (string \<Rightarrow> nat list) \<Rightarrow> (string \<Rightarrow> int option) \<Rightarrow> unix_channel_config \<Rightarrow> ('w, unix_rpc_channel) io" where
  "connect_channel os fsencode getpwnam c =
     (case socket_path c of
        None \<Rightarrow> io_raise (ValueError ''bridge socket path was not resolved'')
      | Some path \<Rightarrow>
          if fsencode path = [] \<or> length (fsencode path) \<ge> 108
          then io_raise (ValueError ''bridge socket path is empty or exceeds the Unix socket bound'')
          else io_bind (io_lift (expected_uid getpwnam c)) (\<lambda>expected.
               io_bind (os_socket os) (\<lambda>_.
               io_catch
                 (io_bind (os_settimeout os (timeout_seconds c)) (\<lambda>_.
                  io_bind (os_connect os path) (\<lambda>_.
                  io_bind (check_peer os expected) (\<lambda>_.
                  io_return \<lparr>ch_connected = True\<rparr>))))
                 (\<lambda>e. io_bind (os_close os) (\<lambda>_. io_raise e)))))"

text \<open>\<open>family_unix\<close> is whether the socket's family is \<open>AF_UNIX\<close>.\<close>

definition adopt_connected_socket :: "bool \<Rightarrow> sdk_exn + unix_rpc_channel" where
  "adopt_connected_socket family_unix =
     (if \<not> family_unix then Inl (ValueError ''SDK channels require a connected Unix socket'')
      else Inr \<lparr>ch_connected = True\<rparr>)"

text \<open>\<open>close\<close>; a second call does nothing.  When the socket's own \<open>close\<close> raises, the connection is kept.\<close>

definition close_channel :: "'w socket_os \<Rightarrow> (unix_rpc_channel \<times> 'w, unit) io" where
  "close_channel os = (\<lambda>(ch, w).
     if \<not> ch_connected ch then (Inr (), ch, w)
     else case os_close os w of
       (Inl e, w') \<Rightarrow> (Inl e, ch, w')
     | (Inr _, w') \<Rightarrow> (Inr (), ch\<lparr>ch_connected := False\<rparr>, w'))"

section \<open>Exchange\<close>

text \<open>\<open>struct.pack("!I", n)\<close> and \<open>struct.unpack("!I", bytes)\<close>.\<close>

definition pack_length :: "nat \<Rightarrow> nat list" where
  "pack_length n = [n div 2 ^ 24 mod 256, n div 2 ^ 16 mod 256, n div 2 ^ 8 mod 256, n mod 256]"

definition unpack_length :: "nat list \<Rightarrow> nat" where
  "unpack_length bytes = foldl (\<lambda>n b. 256 * n + b) 0 bytes"

function read_loop :: "(nat \<Rightarrow> ('w, nat list) io) \<Rightarrow> nat \<Rightarrow> nat list \<Rightarrow> ('w, nat list) io" where
  "read_loop recv n got w =
     (if length got < n then
        (case recv (n - length got) w of
           (Inl e, w') \<Rightarrow> (Inl e, w')
         | (Inr [], w') \<Rightarrow> (Inl (ConnectionClosed ''bridge closed an incomplete SDK frame''), w')
         | (Inr (b # bs), w') \<Rightarrow> read_loop recv n (got @ b # bs) w')
      else (Inr got, w))"
  by pat_completeness auto
termination
  by (relation "measure (\<lambda>(recv, n, got, w). n - length got)") auto

declare read_loop.simps [simp del]

definition read_exact :: "'w socket_os \<Rightarrow> unix_rpc_channel \<Rightarrow> nat \<Rightarrow> ('w, nat list) io" where
  "read_exact os ch n =
     (if \<not> ch_connected ch then io_raise (ConnectionClosed ''bridge SDK channel is closed'')
      else read_loop (os_recv os) n [])"

definition read_frame :: "'w socket_os \<Rightarrow> unix_rpc_channel \<Rightarrow> ('w, nat list) io" where
  "read_frame os ch =
     io_bind (read_exact os ch 4) (\<lambda>header.
       if unpack_length header = 0 \<or> unpack_length header > MAX_WIRE_MESSAGE_BYTES
       then io_raise (FramingError ''bridge response length is outside the protocol bound'')
       else read_exact os ch (unpack_length header))"

text \<open>The handlers of \<open>exchange\<close>: \<open>TimeoutError\<close> before the other operating system errors.\<close>

fun framing_handler :: "sdk_exn \<Rightarrow> ('w, 'a) io" where
  "framing_handler (TimeoutError _) = io_raise (FramingError ''bridge SDK exchange exceeded its bounded timeout'')"
| "framing_handler (OSError _) = io_raise (FramingError ''bridge SDK exchange failed'')"
| "framing_handler e = io_raise e"

definition exchange ::
  "'w socket_os \<Rightarrow> (json \<Rightarrow> nat list) \<Rightarrow> (nat list \<Rightarrow> load_result) \<Rightarrow> unix_rpc_channel \<Rightarrow> sdk_value \<Rightarrow> ('w, sdk_value) io" where
  "exchange os dumps loads ch request =
     (if \<not> ch_connected ch then io_raise (ConnectionClosed ''bridge SDK channel is closed'')
      else io_bind (io_lift (encode_message dumps request)) (\<lambda>payload.
           io_bind (io_catch
               (io_bind (os_sendall os (pack_length (length payload) @ payload)) (\<lambda>_. read_frame os ch))
               framing_handler)
             (\<lambda>response. io_lift (decode_message loads RpcResponse_wire response))))"

section \<open>Frames\<close>

lemma unpack_pack: "n < 2 ^ 32 \<Longrightarrow> unpack_length (pack_length n) = n"
proof -
  assume n: "n < 2 ^ 32"
  define a b where "a = n div 256" and "b = a div 256"
  have parts: "n div 2 ^ 8 = a" "n div 2 ^ 16 = b" "n div 2 ^ 24 = b div 256"
    by (simp_all add: a_def b_def flip: div_mult2_eq)
  have top: "b div 256 mod 256 = b div 256" using n by (simp add: a_def b_def flip: div_mult2_eq)
  have "256 * (b div 256) + b mod 256 = b" "256 * b + a mod 256 = a" "256 * a + n mod 256 = n"
    by (simp_all add: a_def b_def)
  then show ?thesis unfolding unpack_length_def pack_length_def parts by (simp add: top)
qed

lemma length_pack [simp]: "length (pack_length n) = 4"
  by (simp add: pack_length_def)

text \<open>
  A stream that delivers: while bytes are pending, \<open>recv\<close> returns a non-empty part of at most the
  size asked for from their front.  How the bytes are cut into parts is left open.
\<close>

definition delivers :: "(nat \<Rightarrow> ('w, nat list) io) \<Rightarrow> ('w \<Rightarrow> nat list) \<Rightarrow> bool" where
  "delivers recv pending \<longleftrightarrow> (\<forall>k w. 0 < k \<longrightarrow> pending w \<noteq> [] \<longrightarrow>
     (\<exists>part w'. recv k w = (Inr part, w') \<and> part \<noteq> [] \<and> length part \<le> k \<and> pending w = part @ pending w'))"

lemma deliversE:
  assumes "delivers recv pending" and "0 < k" and "pending w \<noteq> []"
  obtains b bs w' where "recv k w = (Inr (b # bs), w')" and "length (b # bs) \<le> k"
    and "pending w = (b # bs) @ pending w'"
  using assms unfolding delivers_def by (metis neq_Nil_conv)

lemma append_split:
  assumes "xs @ ys = us @ vs" and "length us \<le> length xs"
  obtains zs where "xs = us @ zs" and "vs = zs @ ys"
proof
  have "take (length us) (xs @ ys) = us" using assms(1) by simp
  then show xs: "xs = us @ drop (length us) xs" using assms(2) by (metis append_take_drop_id diff_is_0_eq append_Nil2 take0 take_append)
  show "vs = drop (length us) xs @ ys" using assms by (metis append_eq_conv_conj diff_is_0_eq drop0 drop_append)
qed

lemma read_loop_delivers:
  assumes "delivers recv pending"
  shows "pending w = bytes @ rest \<Longrightarrow> length got + length bytes = n
    \<Longrightarrow> \<exists>w'. read_loop recv n got w = (Inr (got @ bytes), w') \<and> pending w' = rest"
proof (induction "length bytes" arbitrary: got bytes w rule: less_induct)
  case less
  show ?case
  proof (cases bytes)
    case Nil
    then show ?thesis using less.prems by (simp add: read_loop.simps)
  next
    case (Cons c cs)
    have k: "0 < n - length got" and nonempty: "pending w \<noteq> []" using less.prems Cons by auto
    obtain b bs w' where part: "recv (n - length got) w = (Inr (b # bs), w')"
        "length (b # bs) \<le> n - length got" "pending w = (b # bs) @ pending w'"
      by (rule deliversE [OF assms k nonempty])
    have short: "length (b # bs) \<le> length bytes" using part(2) less.prems(2) by linarith
    have "bytes @ rest = (b # bs) @ pending w'" using part(3) less.prems(1) by simp
    then obtain left where split: "bytes = (b # bs) @ left" "pending w' = left @ rest"
      by (rule append_split [OF _ short])
    have "\<exists>w''. read_loop recv n (got @ b # bs) w' = (Inr ((got @ b # bs) @ left), w'') \<and> pending w'' = rest"
      using split less.prems(2) by (intro less.hyps) auto
    then show ?thesis using part(1) k split by (subst read_loop.simps) simp
  qed
qed

lemma read_exact_delivers:
  assumes "delivers (os_recv os) pending" and "ch_connected ch" and "pending w = bytes @ rest" and "length bytes = n"
  shows "\<exists>w'. read_exact os ch n w = (Inr bytes, w') \<and> pending w' = rest"
  using read_loop_delivers [OF assms(1,3), of "[]" n] assms(2,4) by (simp add: read_exact_def)

lemma read_frame_delivers:
  assumes "delivers (os_recv os) pending" and "ch_connected ch"
    and "pending w = pack_length (length response) @ response @ rest"
    and "0 < length response" and "length response \<le> MAX_WIRE_MESSAGE_BYTES"
  shows "\<exists>w'. read_frame os ch w = (Inr response, w') \<and> pending w' = rest"
proof -
  obtain w1 where w1: "read_exact os ch 4 w = (Inr (pack_length (length response)), w1)" "pending w1 = response @ rest"
    using read_exact_delivers [OF assms(1-3), of 4] by auto
  have declared: "unpack_length (pack_length (length response)) = length response"
    by (rule unpack_pack) (use assms(5) in \<open>simp add: MAX_WIRE_MESSAGE_BYTES_def\<close>)
  show ?thesis
    using read_exact_delivers [OF assms(1,2) w1(2) refl] w1(1) assms(4,5) by (simp add: read_frame_def declared)
qed

text \<open>
  One exchange, one frame.  When the request can be encoded and sent and the peer's answer is a frame
  within the bounds, \<open>exchange\<close> decodes exactly the payload of that frame, however the socket cuts the
  bytes into parts, and leaves what follows the frame for the next exchange.
\<close>

lemma exchange_reads_one_frame:
  assumes "ch_connected ch" and "encode_message dumps request = Inr payload"
    and "os_sendall os (pack_length (length payload) @ payload) w = (Inr (), w1)"
    and "delivers (os_recv os) pending"
    and "pending w1 = pack_length (length response) @ response @ rest"
    and "0 < length response" and "length response \<le> MAX_WIRE_MESSAGE_BYTES"
  shows "\<exists>w2. exchange os dumps loads ch request w = (decode_message loads RpcResponse_wire response, w2) \<and> pending w2 = rest"
proof -
  obtain w2 where w2: "read_frame os ch w1 = (Inr response, w2)" "pending w2 = rest"
    using read_frame_delivers [OF assms(4,1,5,6,7)] by blast
  then show ?thesis using assms(1-3) by (simp add: exchange_def io_catch_def)
qed

text \<open>A socket that hands out one byte at a time.\<close>

definition byte_socket :: "nat list socket_os" where
  "byte_socket = \<lparr>os_socket = io_return (), os_settimeout = (\<lambda>_. io_return ()), os_connect = (\<lambda>_. io_return ()),
     os_peercred = io_return 0, os_close = io_return (), os_sendall = (\<lambda>_. io_return ()),
     os_recv = (\<lambda>k w. (Inr (take 1 w), drop 1 w))\<rparr>"

section \<open>Authority\<close>

lemma config_names_authority:
  "config_post_init geteuid c0 = Inr c \<Longrightarrow> expected_peer_uid c \<noteq> None \<or> expected_peer_user c \<noteq> None"
  by (auto simp: config_post_init_def split: if_splits)

lemma check_peer_Inr:
  "check_peer os expected w = (Inr u, w') \<longleftrightarrow>
     (case expected of None \<Rightarrow> w' = w | Some uid \<Rightarrow> os_peercred os w = (Inr uid, w'))"
  by (auto simp: check_peer_def io_bind_Inr split: option.splits if_splits)

lemma close_and_raise: "io_bind (os_close os) (\<lambda>_. io_raise e) w \<noteq> (Inr y, w')"
  by (simp add: io_bind_Inr)

lemma catch_Inr:
  "io_catch m h s = (Inr y, t) \<longleftrightarrow> m s = (Inr y, t) \<or> (\<exists>e u. m s = (Inl e, u) \<and> h e u = (Inr y, t))"
  by (auto simp: io_catch_def split: prod.splits sum.splits)

lemma connect_channel_Inr:
  assumes "connect_channel os fsencode getpwnam c w = (Inr ch, w')"
  shows "ch_connected ch \<and> (\<exists>expected w1. expected_uid getpwnam c = Inr expected \<and> check_peer os expected w1 = (Inr (), w'))"
  using assms unfolding connect_channel_def
  by (auto simp: catch_Inr close_and_raise io_bind_Inr split: option.splits if_splits)

text \<open>
  C39. A channel talks to the configured authority.  When a channel is opened with a configuration, its peer
  has the user of the configured account, or else the configured number: \<open>UnixChannelConfig\<close> always names
  one of them, and \<open>connect\<close> returns only after reading the peer's credentials last.
\<close>

theorem connected_peer_is_authority:
  assumes "config_post_init geteuid c0 = Inr c" and "connect_channel os fsencode getpwnam c w = (Inr ch, w')"
  shows "ch_connected ch \<and> (\<exists>uid w1. os_peercred os w1 = (Inr uid, w') \<and>
    (case expected_peer_user c of Some user \<Rightarrow> getpwnam user = Some uid | None \<Rightarrow> expected_peer_uid c = Some uid))"
proof -
  obtain expected w1 where opened: "ch_connected ch" "expected_uid getpwnam c = Inr expected" "check_peer os expected w1 = (Inr (), w')"
    using connect_channel_Inr [OF assms(2)] by blast
  have "\<exists>uid. expected = Some uid \<and>
    (case expected_peer_user c of Some user \<Rightarrow> getpwnam user = Some uid | None \<Rightarrow> expected_peer_uid c = Some uid)"
    using opened(2) config_names_authority [OF assms(1)]
    by (cases "expected_peer_user c") (auto simp: expected_uid_def split: option.splits dest: sym)
  then obtain uid where uid: "expected = Some uid"
    "case expected_peer_user c of Some user \<Rightarrow> getpwnam user = Some uid | None \<Rightarrow> expected_peer_uid c = Some uid"
    by blast
  then have "os_peercred os w1 = (Inr uid, w')" using opened(3) by (simp add: check_peer_Inr)
  with uid(2) opened(1) show ?thesis by blast
qed

definition root_config :: unix_channel_config where
  "root_config = \<lparr>socket_path = None, timeout_seconds = 5, expected_peer_uid = None, expected_peer_user = None\<rparr>"

theorem connected_peer_is_authority_witness:
  "\<exists>c. config_post_init 1000 root_config = Inr c \<and> (\<exists>w1. os_peercred byte_socket w1 = (Inr 0, []))
     \<and> expected_peer_uid c = Some 0"
proof -
  define c where "c = root_config\<lparr>socket_path := Some (DESKTOP_USER_RUNTIME_ROOT @ ''/'' @ str_nat 1000 @ ''/'' @ DESKTOP_BRIDGE_SOCKET_NAME),
      expected_peer_uid := Some 0\<rparr>"
  have config: "config_post_init 1000 root_config = Inr c"
    by (simp add: config_post_init_def root_config_def c_def)
  have "connect_channel byte_socket (\<lambda>_. [47]) (\<lambda>_. None) c [] = (Inr \<lparr>ch_connected = True\<rparr>, [])"
    by (simp add: connect_channel_def c_def root_config_def expected_uid_def check_peer_def byte_socket_def io_catch_def io_bind_def)
  from connected_peer_is_authority [OF config this] show ?thesis
    using config by (auto simp: c_def root_config_def)
qed

end
