(* ===== verification/Sdk_Field_Order.thy ===== *)
theory Sdk_Field_Order
  imports Sdk_Codec "HOL-Library.Multiset"
begin

text \<open>
  The order of the fields of a message.  \<open>encode_message\<close> of \<open>src/sdk/python/hyperflux_sdk/codec.py\<close> writes
  objects with sorted fields, while \<open>to_wire\<close> builds them in the order of the classes.  Decoding looks
  fields up by name, so it gives the same result, or the same exception, for both; a message therefore survives the
  way through the text although the document read is not the one that was built.
\<close>

section \<open>Documents without duplicate fields\<close>

fun distinct_fields :: "json \<Rightarrow> bool" where
  "distinct_fields (JArr xs) \<longleftrightarrow> (\<forall>x \<in> set xs. distinct_fields x)"
| "distinct_fields (JObj kvs) \<longleftrightarrow> distinct (map fst kvs) \<and> (\<forall>(k, x) \<in> set kvs. distinct_fields x)"
| "distinct_fields _ \<longleftrightarrow> True"

abbreviation sorted_fields :: "(string \<times> json) list \<Rightarrow> (string \<times> json) list" where
  "sorted_fields kvs \<equiv> sort_key fst (map (\<lambda>(k, x). (k, sort_keys x)) kvs)"

lemma names_kept: "map fst (map (\<lambda>(k, x). (k, f x)) kvs) = map fst kvs"
  by (induction kvs) auto

lemma sorted_fields_names:
  "set (map fst (sorted_fields kvs)) = set (map fst kvs)"
  "distinct (map fst kvs) \<Longrightarrow> distinct (map fst (sorted_fields kvs))"
proof -
  have same: "mset (map fst (sorted_fields kvs)) = mset (map fst kvs)"
    using names_kept [of sort_keys kvs] by (metis mset_map mset_sort)
  show "set (map fst (sorted_fields kvs)) = set (map fst kvs)" using same by (rule mset_eq_setD)
  show "distinct (map fst (sorted_fields kvs))" if "distinct (map fst kvs)"
    using same that by (metis mset_eq_imp_distinct_iff)
qed

lemma map_of_sorted_fields:
  assumes "distinct (map fst kvs)"
  shows "map_of (sorted_fields kvs) n = map_option sort_keys (map_of kvs n)"
proof -
  have "map_of (sorted_fields kvs) = map_of (map (\<lambda>(k, x). (k, sort_keys x)) kvs)"
    using assms sorted_fields_names(2) by (subst map_of_inject_set) (simp_all add: names_kept [of sort_keys kvs] del: map_map)
  then show ?thesis by (simp add: map_of_map)
qed

lemma get_item_sorted_fields:
  "distinct (map fst kvs) \<Longrightarrow> get_item (sorted_fields kvs) n = sort_keys (get_item kvs n)"
  by (simp add: get_item_def map_of_sorted_fields split: option.split)

lemma distinct_fields_item: "distinct_fields (JObj kvs) \<Longrightarrow> distinct_fields (get_item kvs n)"
  by (auto simp: get_item_def split: option.split dest: map_of_SomeD)

lemma distinct_fields_sort_keys: "distinct_fields j \<Longrightarrow> distinct_fields (sort_keys j)"
proof (induction j rule: sort_keys.induct)
  case (7 kvs)
  then show ?case using sorted_fields_names(2) [of kvs] by auto
qed auto

lemma sort_keys_simps:
  "sort_keys j = JNull \<longleftrightarrow> j = JNull" "sort_keys j = JStr s \<longleftrightarrow> j = JStr s" "list_length (sort_keys j) = list_length j"
  by (cases j; simp)+

section \<open>Decoding does not see the order\<close>

lemma py_sorted_cong: "mset xs = mset ys \<Longrightarrow> py_sorted xs = py_sorted ys"
  by (auto simp: py_sorted_def intro: properties_for_sort)

lemma key_detail_sorted:
  assumes "distinct (map fst kvs)"
  shows "key_detail cls (sorted_fields kvs) expected = key_detail cls kvs expected"
proof -
  have same: "mset (map fst (sorted_fields kvs)) = mset (map fst kvs)"
    using names_kept [of sort_keys kvs] by (metis mset_map mset_sort)
  have "unknown_keys (sorted_fields kvs) expected = unknown_keys kvs expected"
    unfolding unknown_keys_def obj_keys_def distinct_remdups_id [OF assms] distinct_remdups_id [OF sorted_fields_names(2) [OF assms]]
    using same by (intro py_sorted_cong) simp
  moreover have "missing_keys (sorted_fields kvs) expected = missing_keys kvs expected"
    unfolding missing_keys_def obj_keys_def sorted_fields_names(1) ..
  ultimately show ?thesis by (simp add: key_detail_def)
qed

fun sort_pick :: "union_pick \<Rightarrow> union_pick" where
  "sort_pick (DecodeAs t j) = DecodeAs t (sort_keys j)"
| "sort_pick (DecodeTagged cls attribute tag t j) = DecodeTagged cls attribute tag t (sort_keys j)"
| "sort_pick c = c"

lemma choose_tagged_sorted:
  assumes "distinct (map fst kvs)"
  shows "choose_tagged ts (sorted_fields kvs) = sort_pick (choose_tagged ts kvs)"
proof (induction ts)
  case (Cons t ts)
  then show ?case
    using get_item_sorted_fields [OF assms] sorted_fields_names(1) [of kvs]
    by (cases t) (simp_all only: choose_tagged.simps sort_pick.simps sort_keys_simps split: if_split, simp_all, auto)
qed simp

lemma union_choice_sorted:
  assumes "distinct_fields j"
  shows "union_choice ts (sort_keys j) = sort_pick (union_choice ts j)"
proof -
  have only: "(case candidates ts of [t] \<Rightarrow> DecodeAs t (sort_keys j) | _ \<Rightarrow> Refuse e)
      = sort_pick (case candidates ts of [t] \<Rightarrow> DecodeAs t j | _ \<Rightarrow> Refuse e)" for e
    by (simp split: list.split)
  show ?thesis
  proof (cases j)
    case (JObj kvs)
    then have "choose_tagged (candidates ts) (sorted_fields kvs) = sort_pick (choose_tagged (candidates ts) kvs)"
      using assms by (intro choose_tagged_sorted) simp
    then show ?thesis using only unfolding union_choice_def JObj
      by (cases "choose_tagged (candidates ts) kvs") simp_all
  qed (simp_all add: union_choice_def split: list.split)
qed

lemma choose_tagged_part:
  assumes "distinct_fields (JObj kvs)"
  shows "choose_tagged ts kvs = DecodeAs t x \<Longrightarrow> distinct_fields x"
    and "choose_tagged ts kvs = DecodeTagged cls attribute tag t x \<Longrightarrow> distinct_fields x"
proof (induction ts)
  case (Cons u us)
  { case 1 then show ?case using Cons distinct_fields_item [OF assms] by (cases u) (auto split: if_splits) }
  { case 2 then show ?case using Cons distinct_fields_item [OF assms] by (cases u) (auto split: if_splits) }
qed simp_all

lemma union_choice_distinct:
  assumes "distinct_fields j"
  shows "union_choice ts j = DecodeAs t x \<Longrightarrow> distinct_fields x"
    and "union_choice ts j = DecodeTagged cls attribute tag t x \<Longrightarrow> distinct_fields x"
  using assms choose_tagged_part
  by (cases j; force simp: union_choice_def split: union_pick.splits list.splits)+

lemma mapM_map: "mapM f (map g xs) = mapM (\<lambda>x. f (g x)) xs"
  by (induction xs) auto

lemma from_wire_field_order: "distinct_fields j \<Longrightarrow> from_wire t (sort_keys j) = from_wire t j"
proof (induction t j rule: from_wire.induct)
  case (6 cls v)
  then show ?case by (cases v) (simp_all add: decode_domain_def domain_value_def)
next
  case (7 t v)
  show ?case
  proof (cases v)
    case (JArr xs)
    have "mapM (from_wire t) (map sort_keys xs) = mapM (from_wire t) xs"
      unfolding mapM_map using 7 JArr by (intro mapM_cong refl) auto
    then show ?thesis using JArr by simp
  qed simp_all
next
  case (8 ts v)
  show ?case
  proof (cases "union_choice ts v")
    case (DecodeAs t x)
    then show ?thesis using 8 union_choice_sorted [OF 8(3), of ts] union_choice_distinct(1) [OF 8(3) DecodeAs]
      by (auto simp: sort_keys_simps)
  next
    case (DecodeTagged cls attribute tag t x)
    then show ?thesis using 8 union_choice_sorted [OF 8(3), of ts] union_choice_distinct(2) [OF 8(3) DecodeTagged]
      by (auto simp: sort_keys_simps)
  qed (use union_choice_sorted [OF 8(3), of ts] in \<open>simp_all add: sort_keys_simps\<close>)
next
  case (9 cls members v)
  show ?case
  proof (cases v)
    case (JObj kvs)
    then have dist: "distinct (map fst kvs)" "\<And>n. distinct_fields (get_item kvs n)"
      using 9(2) distinct_fields_item by auto
    show ?thesis
    proof (cases "set (map fst kvs) = set (map fst members)")
      case True
      then have "mapM (\<lambda>(f, t). if exceeds_limit cls f (list_length (get_item (sorted_fields kvs) f)) then Inl (limit_error cls f)
             else rbind (from_wire t (get_item (sorted_fields kvs) f)) (\<lambda>y. Inr (f, y))) members
          = mapM (\<lambda>(f, t). if exceeds_limit cls f (list_length (get_item kvs f)) then Inl (limit_error cls f)
             else rbind (from_wire t (get_item kvs f)) (\<lambda>y. Inr (f, y))) members"
        using 9(1) [OF JObj] dist by (intro mapM_cong refl) (auto simp: get_item_sorted_fields sort_keys_simps)
      then show ?thesis unfolding JObj sort_keys.simps from_wire.simps json.case sorted_fields_names(1) True by simp
    next
      case False
      then show ?thesis
        unfolding JObj sort_keys.simps from_wire.simps json.case sorted_fields_names(1) key_detail_sorted [OF dist(1)] by simp
    qed
  qed simp_all
next
  case (10 cls attribute tag t v)
  show ?case
  proof (cases v)
    case (JObj kvs)
    then have dist: "distinct (map fst kvs)" "\<And>n. distinct_fields (get_item kvs n)"
      using 10(2) distinct_fields_item by auto
    show ?thesis
      using 10(1) [OF JObj] dist(2)
      unfolding JObj sort_keys.simps from_wire.simps json.case sorted_fields_names(1) key_detail_sorted [OF dist(1)]
        get_item_sorted_fields [OF dist(1)] sort_keys_simps
      by auto
  qed simp_all
qed (simp_all split: json.split add: sort_keys_simps)

section \<open>The documents of messages\<close>

lemma record_to_wire_names: "record_to_wire cls vs = Inr kvs \<Longrightarrow> map fst kvs = map fst vs"
  by (induction vs arbitrary: kvs) (auto simp: rbind_Inr_iff split: if_splits)

text \<open>The nesting of the documents of a type.\<close>

fun wire_depth :: "wire_type \<Rightarrow> nat" where
  "wire_depth (TTuple t) = Suc (wire_depth t)"
| "wire_depth (TUnion ts) = foldr max (map wire_depth ts) 0"
| "wire_depth (TRecord cls members) =
     (if cls = ''ErrorEnvelope'' then 2 else 1) + foldr max (map (\<lambda>(f, t). wire_depth t) members) 0"
| "wire_depth (TTagged cls attribute tag t) = Suc (wire_depth t)"
| "wire_depth _ = 0"

lemma below_largest: "x \<in> set xs \<Longrightarrow> x \<le> foldr max xs (0 :: nat)"
  by (induction xs) auto

lemma items_to_wire_in: "items_to_wire vs = Inr js \<Longrightarrow> j \<in> set js \<Longrightarrow> \<exists>v \<in> set vs. to_wire v = Inr j"
  by (induction vs arbitrary: js) (auto simp: rbind_Inr_iff)

lemma record_to_wire_in:
  "record_to_wire cls vs = Inr kvs \<Longrightarrow> i < length kvs \<Longrightarrow> length kvs = length vs \<and> to_wire (snd (vs ! i)) = Inr (snd (kvs ! i))"
proof (induction vs arbitrary: kvs i)
  case (Cons kv vs)
  obtain f v where kv: "kv = (f, v)" by (cases kv)
  obtain j rest where step: "to_wire v = Inr j" "record_to_wire cls vs = Inr rest" "kvs = (f, j) # rest"
    using Cons.prems(1) by (auto simp: kv rbind_Inr_iff split: if_splits)
  have "length rest = length vs" using Cons.IH [OF step(2), of 0] step(2) by (cases rest; cases vs) (auto simp: rbind_Inr_iff split: if_splits)
  then show ?case using Cons.IH [OF step(2)] Cons.prems(2) step by (cases i) (auto simp: kv)
qed simp

lemma bounded_depth_leaf:
  "depth \<le> MAX_JSON_DEPTH \<Longrightarrow> (\<And>kvs. j \<noteq> JObj kvs) \<Longrightarrow> (\<And>xs. j \<noteq> JArr xs) \<Longrightarrow> bounded_depth j depth = Inr ()"
  by (subst bounded_depth.simps) (simp split: json.split)

lemma bounded_depth_object:
  "depth \<le> MAX_JSON_DEPTH \<Longrightarrow> (\<And>k x. (k, x) \<in> set kvs \<Longrightarrow> bounded_depth x (Suc depth) = Inr ()) \<Longrightarrow> bounded_depth (JObj kvs) depth = Inr ()"
  by (subst bounded_depth.simps) (auto simp: each_Inr_iff)

lemma bounded_depth_array:
  "depth \<le> MAX_JSON_DEPTH \<Longrightarrow> (\<And>x. x \<in> set xs \<Longrightarrow> bounded_depth x (Suc depth) = Inr ()) \<Longrightarrow> bounded_depth (JArr xs) depth = Inr ()"
  by (subst bounded_depth.simps) (auto simp: each_Inr_iff)

lemma typed_bounded_depth:
  "typed t v \<Longrightarrow> to_wire v = Inr j \<Longrightarrow> depth + wire_depth t \<le> MAX_JSON_DEPTH \<Longrightarrow> bounded_depth j depth = Inr ()"
proof (induction arbitrary: j depth rule: typed.induct)
  case (t_tuple vs t)
  obtain js where js: "items_to_wire vs = Inr js" "j = JArr js" using t_tuple.prems(1) by (auto simp: rbind_Inr_iff)
  show ?case unfolding js(2)
  proof (rule bounded_depth_array)
    fix x assume "x \<in> set js"
    then obtain v where "v \<in> set vs" "to_wire v = Inr x" using items_to_wire_in [OF js(1)] by blast
    then show "bounded_depth x (Suc depth) = Inr ()" using t_tuple.IH t_tuple.prems(2) by simp
  qed (use t_tuple.prems(2) in simp)
next
  case (t_union t ts v)
  have "wire_depth t \<le> wire_depth (TUnion ts)" using t_union.hyps(1) by (simp add: below_largest)
  then show ?case using t_union.IH t_union.prems by simp
next
  case (t_record vs members cls)
  obtain kvs where kvs: "record_to_wire cls vs = Inr kvs"
    "j = (if cls = ''ErrorEnvelope'' then JObj [(''type'', JStr ''error''), (''response'', JObj kvs)] else JObj kvs)"
    using t_record.prems(1) by (auto simp: rbind_Inr_iff)
  have inner: "bounded_depth (JObj kvs) d = Inr ()"
    if d: "d + 1 + foldr max (map (\<lambda>(f, t). wire_depth t) members) 0 \<le> MAX_JSON_DEPTH" for d
  proof (rule bounded_depth_object)
    fix k x assume "(k, x) \<in> set kvs"
    then obtain i where i: "i < length kvs" "kvs ! i = (k, x)" by (auto simp: in_set_conv_nth)
    have lengths: "length kvs = length members"
      using record_to_wire_in [OF kvs(1) i(1)] map_eq_imp_length_eq [OF t_record.hyps] by simp
    have "wire_depth (snd (members ! i)) \<le> foldr max (map (\<lambda>(f, t). wire_depth t) members) 0"
      using i(1) lengths by (intro below_largest) (force simp: case_prod_beta)
    then show "bounded_depth x (Suc d) = Inr ()"
      using t_record.IH [of i] record_to_wire_in [OF kvs(1) i(1)] i lengths d by simp
  qed (use d in simp)
  show ?case
  proof (cases "cls = ''ErrorEnvelope''")
    case True
    then show ?thesis unfolding kvs(2) using inner [of "Suc depth"] t_record.prems(2)
      by (auto simp: bounded_depth_leaf intro!: bounded_depth_object [of depth])
  next
    case False
    then show ?thesis using inner [of depth] t_record.prems(2) kvs(2) by simp
  qed
next
  case (t_tagged t v cls attribute tag)
  obtain i where i: "to_wire v = Inr i" "j = JObj [(tag_name attribute, JStr tag), (content_name attribute, i)]"
    using t_tagged.prems(1) by (auto simp: rbind_Inr_iff)
  then show ?case using t_tagged.IH [OF i(1), of "Suc depth"] t_tagged.prems(2)
    by (auto simp: bounded_depth_leaf intro!: bounded_depth_object [of depth])
qed (auto intro!: bounded_depth_leaf split: if_splits)

text \<open>No document that \<open>to_wire\<close> builds of a message names a field twice.\<close>

lemma typed_distinct_fields:
  "typed t v \<Longrightarrow> round_trip_type alternative t \<Longrightarrow> to_wire v = Inr j \<Longrightarrow> distinct_fields j"
proof (induction arbitrary: j alternative rule: typed.induct)
  case (t_tuple vs t)
  then show ?case by (fastforce simp: rbind_Inr_iff dest: items_to_wire_in)
next
  case (t_union t ts v)
  then show ?case by auto
next
  case (t_record vs members cls)
  obtain kvs where kvs: "record_to_wire cls vs = Inr kvs"
    "j = (if cls = ''ErrorEnvelope'' then JObj [(''type'', JStr ''error''), (''response'', JObj kvs)] else JObj kvs)"
    using t_record.prems(2) by (auto simp: rbind_Inr_iff)
  have "distinct_fields x" if member: "(k, x) \<in> set kvs" for k x
  proof -
    obtain i where i: "i < length kvs" "kvs ! i = (k, x)" using member by (auto simp: in_set_conv_nth)
    have lengths: "length kvs = length members"
      using record_to_wire_in [OF kvs(1) i(1)] map_eq_imp_length_eq [OF t_record.hyps] by simp
    then have "members ! i \<in> set members" using i(1) by simp
    then have "round_trip_type False (snd (members ! i))" using t_record.prems(1) by (auto simp: case_prod_beta)
    then show ?thesis using t_record.IH [of i] record_to_wire_in [OF kvs(1) i(1)] i lengths by auto
  qed
  moreover have "distinct (map fst kvs)"
    using record_to_wire_names [OF kvs(1)] t_record.hyps t_record.prems(1) by simp
  ultimately have "distinct_fields (JObj kvs)" by auto
  then show ?case using kvs(2) by simp
next
  case (t_tagged t v cls attribute tag)
  have "tag_name attribute \<noteq> content_name attribute" using t_tagged.prems(1) tag_names [of attribute] by auto
  then show ?case using t_tagged by (auto simp: rbind_Inr_iff)
qed auto

lemma bounded_depth_sorted: "bounded_depth j depth = Inr () \<Longrightarrow> bounded_depth (sort_keys j) depth = Inr ()"
proof (induction j depth rule: bounded_depth.induct)
  case (1 v depth)
  have ok: "depth \<le> MAX_JSON_DEPTH" using 1(3) by (subst (asm) bounded_depth.simps) (simp split: if_splits)
  show ?case
  proof (cases v)
    case (JArr xs)
    have "bounded_depth x (depth + 1) = Inr ()" if "x \<in> set xs" for x
      using 1(3) ok JArr that by (subst (asm) bounded_depth.simps) (simp add: each_Inr_iff)
    then show ?thesis using 1(1) ok JArr by (auto intro!: bounded_depth_array)
  next
    case (JObj kvs)
    have "bounded_depth x (depth + 1) = Inr ()" if "(k, x) \<in> set kvs" for k x
      using 1(3) ok JObj that by (subst (asm) bounded_depth.simps) (auto simp: each_Inr_iff)
    then show ?thesis using 1(2) ok JObj by (fastforce intro!: bounded_depth_object)
  qed (use 1(3) in simp_all)
qed

section \<open>Through the text\<close>

text \<open>What \<open>json.loads\<close> hands to the hook for the text of a document.\<close>

function parsed_of :: "json \<Rightarrow> parsed" where
  "parsed_of JNull = PNull"
| "parsed_of (JBool b) = PBool b"
| "parsed_of (JInt n) = PInt n"
| "parsed_of (JFloat q) = PFloat q"
| "parsed_of (JStr s) = PStr s"
| "parsed_of (JArr xs) = PArr (map parsed_of xs)"
| "parsed_of (JObj kvs) = PObj (map (\<lambda>(k, x). (k, parsed_of x)) kvs)"
  by pat_completeness auto
termination
  by (relation "measure size") (auto dest: json_size_arr json_size_obj)

text \<open>
  The documented behaviour of the \<open>json\<close> module the codec relies on: the text of a document is not empty,
  and reading it gives the document, its objects as pairs in the order in which they were written.
\<close>

definition json_reads_back :: "(json \<Rightarrow> nat list) \<Rightarrow> (nat list \<Rightarrow> load_result) \<Rightarrow> json \<Rightarrow> bool" where
  "json_reads_back dumps loads document \<longleftrightarrow> dumps document \<noteq> [] \<and> loads (dumps document) = Loaded (parsed_of document)"

lemma mapM_same: "(\<And>x. x \<in> set xs \<Longrightarrow> f x = Inr x) \<Longrightarrow> mapM f xs = Inr xs"
  by (induction xs) auto

lemma hook_parsed_of: "distinct_fields j \<Longrightarrow> hook (parsed_of j) = Inr j"
proof (induction j rule: parsed_of.induct)
  case (6 xs)
  then have "mapM hook (map parsed_of xs) = Inr xs" unfolding mapM_map by (intro mapM_same) simp
  then show ?case by simp
next
  case (7 kvs)
  have "mapM (\<lambda>(k, p). rbind (hook p) (\<lambda>j. Inr (k, j))) (map (\<lambda>(k, x). (k, parsed_of x)) kvs) = Inr kvs"
    unfolding mapM_map
  proof (rule mapM_same)
    show "(\<lambda>(k, p). rbind (hook p) (\<lambda>j. Inr (k, j))) (case kv of (k, x) \<Rightarrow> (k, parsed_of x)) = Inr kv" if "kv \<in> set kvs" for kv
      using 7 that by (cases kv) auto
  qed
  then show ?case using 7(2) reject_duplicate_pairs_Inr [of kvs kvs] by simp
qed auto

text \<open>A message comes back from the text \<open>encode_message\<close> writes.\<close>

lemma encoded_message_comes_back:
  assumes "typed t v" and "round_trip_type False t" and "wire_depth t \<le> MAX_JSON_DEPTH"
    and "encode_message dumps v = Inr payload" and "json_reads_back dumps loads (sort_keys (wire_of v))"
  shows "decode_message loads t payload = Inr v"
proof -
  have "restores t v" using typed_restores [OF assms(1)] assms(2) by blast
  then have wire: "to_wire v = Inr (wire_of v)" "from_wire t (wire_of v) = Inr v" by (simp_all add: restores_def)
  have payload: "payload = dumps (sort_keys (wire_of v))" "length payload \<le> MAX_WIRE_MESSAGE_BYTES"
    using assms(4) wire(1) by (auto simp: encode_message_def Let_def split: if_splits)
  have unique: "distinct_fields (wire_of v)" by (rule typed_distinct_fields [OF assms(1,2) wire(1)])
  have "hook (parsed_of (sort_keys (wire_of v))) = Inr (sort_keys (wire_of v))"
    by (intro hook_parsed_of distinct_fields_sort_keys unique)
  moreover have "bounded_depth (sort_keys (wire_of v)) 0 = Inr ()"
    using typed_bounded_depth [OF assms(1) wire(1), of 0] assms(3) by (simp add: bounded_depth_sorted)
  moreover have "from_wire t (sort_keys (wire_of v)) = Inr v"
    using from_wire_field_order [OF unique] wire(2) by simp
  ultimately show ?thesis
    using payload assms(5) by (auto simp: json_reads_back_def decode_message_Inr)
qed

end
