(* ===== verification/Sdk_Wire_Records.thy ===== *)
theory Sdk_Wire_Records
  imports Sdk_Channel Sdk_Field_Order
begin

text \<open>
  The message classes and the codec put together.  \<open>Sdk_Client\<close> and what is built on it use the records of
  \<open>Protocol_V5\<close>, one per class of \<open>src/sdk/python/hyperflux_sdk/generated/protocol_v5_types.py\<close>;
  \<open>to_wire\<close> and \<open>from_wire\<close> look at an instance through its class and its fields, an \<open>sdk_value\<close>.  A
  \<open>binding\<close> ties the two views of a class: the instance as a value, and the record of such a value.

  Bindings are composed the way the classes are: fields in the order of the class, optional fields,
  tuples, enumerations, tagged alternatives.  \<open>represents t p\<close> says that the records bound by \<open>p\<close> are read
  back and that every value of the type \<open>t\<close> is one of them.  With the bindings of the two unions
  \<open>RpcRequest\<close> and \<open>RpcResponse\<close> the Unix channel becomes an \<open>RpcChannel\<close> of the clients.
\<close>

section \<open>Bindings\<close>

type_synonym 'a binding = "('a \<Rightarrow> sdk_value) \<times> (sdk_value \<Rightarrow> 'a option)"

type_synonym 'a field_binding = "('a \<Rightarrow> (string \<times> sdk_value) list) \<times> ((string \<times> sdk_value) list \<Rightarrow> 'a option)"

definition bool_binding :: "bool binding" where
  "bool_binding = (VBool, \<lambda>v. case v of VBool b \<Rightarrow> Some b | _ \<Rightarrow> None)"

definition int_binding :: "string \<Rightarrow> int binding" where
  "int_binding cls = (VDomInt cls, \<lambda>v. case v of VDomInt c n \<Rightarrow> if c = cls then Some n else None | _ \<Rightarrow> None)"

definition str_binding :: "string \<Rightarrow> string binding" where
  "str_binding cls = (VDomStr cls, \<lambda>v. case v of VDomStr c s \<Rightarrow> if c = cls then Some s else None | _ \<Rightarrow> None)"

definition enum_binding :: "string \<Rightarrow> ('a \<Rightarrow> string) \<Rightarrow> 'a list \<Rightarrow> 'a binding" where
  "enum_binding cls text_of constants = (\<lambda>x. VEnum cls (text_of x),
     \<lambda>v. case v of VEnum c s \<Rightarrow> if c = cls then find (\<lambda>x. text_of x = s) constants else None | _ \<Rightarrow> None)"

definition optional_binding :: "'a binding \<Rightarrow> 'a option binding" where
  "optional_binding p = (\<lambda>x. case x of None \<Rightarrow> VNull | Some y \<Rightarrow> fst p y,
     \<lambda>v. if v = VNull then Some None else map_option Some (snd p v))"

definition tuple_binding :: "'a binding \<Rightarrow> 'a list binding" where
  "tuple_binding p = (\<lambda>xs. VTuple (map (fst p) xs),
     \<lambda>v. case v of VTuple vs \<Rightarrow> those (map (snd p) vs) | _ \<Rightarrow> None)"

definition no_fields :: "unit field_binding" where
  "no_fields = (\<lambda>_. [], \<lambda>kvs. if kvs = [] then Some () else None)"

definition field_then :: "string \<Rightarrow> 'a binding \<Rightarrow> 'b field_binding \<Rightarrow> ('a \<times> 'b) field_binding" where
  "field_then n p fs = (\<lambda>(x, y). (n, fst p x) # fst fs y,
     \<lambda>kvs. case kvs of
         [] \<Rightarrow> None
       | (m, v) # rest \<Rightarrow>
           if m = n then Option.bind (snd p v) (\<lambda>x. map_option (Pair x) (snd fs rest)) else None)"

definition class_binding :: "string \<Rightarrow> 'a field_binding \<Rightarrow> 'a binding" where
  "class_binding cls fs = (\<lambda>x. VRecord cls (fst fs x),
     \<lambda>v. case v of VRecord c kvs \<Rightarrow> if c = cls then snd fs kvs else None | _ \<Rightarrow> None)"

definition tagged_binding :: "string \<Rightarrow> string \<Rightarrow> string \<Rightarrow> 'a binding \<Rightarrow> 'a binding" where
  "tagged_binding cls attribute tag p = (\<lambda>x. VTagged cls attribute tag (fst p x),
     \<lambda>v. case v of VTagged c a g y \<Rightarrow> if c = cls \<and> a = attribute \<and> g = tag then snd p y else None | _ \<Rightarrow> None)"

definition either_binding :: "'a binding \<Rightarrow> 'b binding \<Rightarrow> ('a + 'b) binding" where
  "either_binding p q = (case_sum (fst p) (fst q),
     \<lambda>v. case snd p v of Some x \<Rightarrow> Some (Inl x) | None \<Rightarrow> map_option Inr (snd q v))"

text \<open>A binding for a type that is another one under a change of view.\<close>

definition via :: "('b \<Rightarrow> 'a) \<Rightarrow> ('a \<Rightarrow> 'b) \<Rightarrow> 'a binding \<Rightarrow> 'b binding" where
  "via into back p = (\<lambda>x. fst p (into x), \<lambda>v. map_option back (snd p v))"

section \<open>What a binding promises\<close>

definition represents :: "wire_type \<Rightarrow> 'a binding \<Rightarrow> bool" where
  "represents t p \<longleftrightarrow> (\<forall>x. snd p (fst p x) = Some x) \<and> (\<forall>x. fst p x \<noteq> VNull) \<and> (\<forall>v. typed t v \<longrightarrow> (\<exists>x. v = fst p x))"

text \<open>For a field, whose value may be null.\<close>

definition member_represents :: "wire_type \<Rightarrow> 'a binding \<Rightarrow> bool" where
  "member_represents t p \<longleftrightarrow> (\<forall>x. snd p (fst p x) = Some x) \<and> (\<forall>v. typed t v \<longrightarrow> (\<exists>x. v = fst p x))"

definition fields_represent :: "(string \<times> wire_type) list \<Rightarrow> 'a field_binding \<Rightarrow> bool" where
  "fields_represent members fs \<longleftrightarrow> (\<forall>x. snd fs (fst fs x) = Some x) \<and>
     (\<forall>kvs. list_all2 (\<lambda>(n, t) (m, v). m = n \<and> typed t v) members kvs \<longrightarrow> (\<exists>x. kvs = fst fs x))"

lemma representsD:
  assumes "represents t p"
  shows "snd p (fst p x) = Some x" and "fst p x \<noteq> VNull" and "typed t v \<Longrightarrow> \<exists>x. v = fst p x"
  using assms by (auto simp: represents_def)

lemma represents_member: "represents t p \<Longrightarrow> member_represents t p"
  by (simp add: represents_def member_represents_def)

inductive_cases typed_boolE: "typed TBool v"
inductive_cases typed_enumE: "typed (TEnum cls values) v"
inductive_cases typed_domainE: "typed (TDomain cls) v"
inductive_cases typed_tupleE: "typed (TTuple t) v"
inductive_cases typed_unionE: "typed (TUnion ts) v"
inductive_cases typed_recordE: "typed (TRecord cls members) v"
inductive_cases typed_taggedE: "typed (TTagged cls attribute tag t) v"

named_theorems binding_rules \<open>bindings composed of bindings\<close>

lemma represents_bool [binding_rules]: "represents TBool bool_binding"
  by (auto simp: represents_def bool_binding_def elim: typed_boolE)

lemma represents_int [binding_rules]:
  "cls \<in> fst ` set domain_ranges \<Longrightarrow> cls \<notin> fst ` set domain_lengths \<Longrightarrow> represents (TDomain cls) (int_binding cls)"
  by (force simp: represents_def int_binding_def elim!: typed_domainE dest: map_of_SomeD)

lemma represents_str [binding_rules]:
  "cls \<in> fst ` set domain_lengths \<Longrightarrow> cls \<notin> fst ` set domain_ranges \<Longrightarrow> represents (TDomain cls) (str_binding cls)"
  by (force simp: represents_def str_binding_def elim!: typed_domainE dest: map_of_SomeD)

lemma find_constant:
  "distinct (map f xs) \<Longrightarrow> x \<in> set xs \<Longrightarrow> find (\<lambda>y. f y = f x) xs = Some x"
  by (induction xs) (auto simp: rev_image_eqI)

lemma represents_enum:
  assumes "\<And>x. x \<in> set constants" and "distinct (map text_of constants)" and "texts = map text_of constants"
  shows "represents (TEnum cls texts) (enum_binding cls text_of constants)"
  using assms by (auto simp: represents_def enum_binding_def find_constant elim!: typed_enumE)

lemma represents_optional [binding_rules]:
  "represents t p \<Longrightarrow> member_represents (TUnion [t, TNull]) (optional_binding p)"
  unfolding member_represents_def optional_binding_def represents_def
  by (fastforce elim!: typed_unionE typed_nullE split: option.splits intro: exI [of _ None] exI [of _ "Some x" for x])

lemma those_read: "(\<And>x. g (f x) = Some x) \<Longrightarrow> those (map (g \<circ> f) xs) = Some xs"
  by (induction xs) auto

lemma represents_tuple [binding_rules]: "represents t p \<Longrightarrow> represents (TTuple t) (tuple_binding p)"
proof -
  assume p: "represents t p"
  have "\<exists>xs. vs = map (fst p) xs" if "\<And>v. v \<in> set vs \<Longrightarrow> typed t v" for vs
    using that representsD(3) [OF p] by (induction vs) (auto, metis list.simps(9))
  then show ?thesis
    using those_read [of "snd p" "fst p", OF representsD(1) [OF p]]
    by (auto simp: represents_def tuple_binding_def elim!: typed_tupleE)
qed

lemma represent_no_fields [binding_rules]: "fields_represent [] no_fields"
  by (simp add: fields_represent_def no_fields_def)

lemma represent_field_then [binding_rules]:
  "member_represents t p \<Longrightarrow> fields_represent members fs \<Longrightarrow> fields_represent ((n, t) # members) (field_then n p fs)"
  unfolding fields_represent_def field_then_def member_represents_def
  by (auto simp: list_all2_Cons1 split: prod.splits)

lemma typed_record_fields:
  "typed (TRecord cls members) v \<Longrightarrow> \<exists>kvs. v = VRecord cls kvs \<and> list_all2 (\<lambda>(n, t) (m, v). m = n \<and> typed t v) members kvs"
  by (elim typed_recordE) (auto simp: list_all2_conv_all_nth case_prod_beta dest: map_eq_imp_length_eq, metis nth_map map_eq_imp_length_eq)

lemma represents_class [binding_rules]:
  "fields_represent members fs \<Longrightarrow> represents (TRecord cls members) (class_binding cls fs)"
  unfolding represents_def class_binding_def fields_represent_def by (auto dest!: typed_record_fields)

lemma represents_tagged [binding_rules]:
  "represents t p \<Longrightarrow> represents (TTagged cls attribute tag t) (tagged_binding cls attribute tag p)"
  unfolding represents_def tagged_binding_def by (auto elim!: typed_taggedE)

lemma typed_union_Cons: "typed (TUnion (t # ts)) v \<longleftrightarrow> typed t v \<or> typed (TUnion ts) v"
  by (auto elim!: typed_unionE intro: t_union)

lemma represents_last [binding_rules]: "represents t p \<Longrightarrow> represents (TUnion [t]) p"
  unfolding represents_def by (auto elim!: typed_unionE)

lemma represents_either [binding_rules]:
  assumes "represents t p" and "represents (TUnion ts) q" and "\<And>y. snd p (fst q y) = None"
  shows "represents (TUnion (t # ts)) (either_binding p q)"
proof -
  have "\<exists>x. v = case_sum (fst p) (fst q) x" if "typed t v \<or> typed (TUnion ts) v" for v
    using that representsD(3) [OF assms(1)] representsD(3) [OF assms(2)] by (metis sum.case)
  then show ?thesis
    using representsD(1,2) [OF assms(1)] representsD(1,2) [OF assms(2)] assms(3)
    by (auto simp: represents_def either_binding_def typed_union_Cons split: sum.splits)
qed

lemma represents_via [binding_rules]:
  "represents t p \<Longrightarrow> (\<And>x. back (into x) = x) \<Longrightarrow> (\<And>y. into (back y) = y) \<Longrightarrow> represents t (via into back p)"
  unfolding represents_def via_def by (metis (no_types, lifting) fst_conv option.simps(9) snd_conv)

named_theorems apart_rules \<open>values of one alternative that another one does not read\<close>

lemma apart_tagged [apart_rules]:
  "c \<noteq> cls \<Longrightarrow> snd (tagged_binding cls attribute tag p) (fst (tagged_binding c a g q) y) = None"
  by (simp add: tagged_binding_def)

lemma apart_class [apart_rules]: "snd (tagged_binding cls attribute tag p) (fst (class_binding c fs) y) = None"
  by (simp add: tagged_binding_def class_binding_def)

lemma apart_via [apart_rules]: "(\<And>y. snd p (fst q y) = None) \<Longrightarrow> snd p (fst (via into back q) y) = None"
  by (simp add: via_def)

lemma apart_either [apart_rules]:
  "(\<And>y. snd p (fst q y) = None) \<Longrightarrow> (\<And>y. snd p (fst r y) = None) \<Longrightarrow> snd p (fst (either_binding q r) y) = None"
  by (simp add: either_binding_def split: sum.split)

section \<open>Enumerations\<close>

definition activity_state_binding :: "activity_state binding" where
  "activity_state_binding = enum_binding ''ActivityState'' activity_state_value [
     ActivityState_ACTIVE, ActivityState_IDLE, ActivityState_UNKNOWN]"

lemma represents_activity_state [binding_rules]: "represents ActivityState_wire activity_state_binding"
  unfolding ActivityState_wire_def activity_state_binding_def by (rule represents_enum) (simp_all, metis activity_state.exhaust)

definition connection_mode_binding :: "connection_mode binding" where
  "connection_mode_binding = enum_binding ''ConnectionMode'' connection_mode_value [
     ConnectionMode_HYPERFLUX_2_4GHZ, ConnectionMode_DIRECT_USB, ConnectionMode_BLUETOOTH, ConnectionMode_UNKNOWN]"

lemma represents_connection_mode [binding_rules]: "represents ConnectionMode_wire connection_mode_binding"
  unfolding ConnectionMode_wire_def connection_mode_binding_def by (rule represents_enum) (simp_all, metis connection_mode.exhaust)

definition contact_state_binding :: "contact_state binding" where
  "contact_state_binding = enum_binding ''ContactState'' contact_state_value [
     ContactState_ON_MAT, ContactState_OFF_MAT, ContactState_UNKNOWN, ContactState_NOT_APPLICABLE]"

lemma represents_contact_state [binding_rules]: "represents ContactState_wire contact_state_binding"
  unfolding ContactState_wire_def contact_state_binding_def by (rule represents_enum) (simp_all, metis contact_state.exhaust)

definition controller_availability_binding :: "controller_availability binding" where
  "controller_availability_binding = enum_binding ''ControllerAvailability'' controller_availability_value [
     ControllerAvailability_READY, ControllerAvailability_SLEEPING]"

lemma represents_controller_availability [binding_rules]: "represents ControllerAvailability_wire controller_availability_binding"
  unfolding ControllerAvailability_wire_def controller_availability_binding_def by (rule represents_enum) (simp_all, metis controller_availability.exhaust)

definition device_application_state_binding :: "device_application_state binding" where
  "device_application_state_binding = enum_binding ''DeviceApplicationState'' device_application_state_value [
     DeviceApplicationState_UNVERIFIED, DeviceApplicationState_CONFIRMED, DeviceApplicationState_REJECTED]"

lemma represents_device_application_state [binding_rules]: "represents DeviceApplicationState_wire device_application_state_binding"
  unfolding DeviceApplicationState_wire_def device_application_state_binding_def by (rule represents_enum) (simp_all, metis device_application_state.exhaust)

definition device_kind_binding :: "device_kind binding" where
  "device_kind_binding = enum_binding ''DeviceKind'' device_kind_value [
     DeviceKind_RECEIVER, DeviceKind_MAT, DeviceKind_MOUSE, DeviceKind_KEYBOARD, DeviceKind_UNKNOWN]"

lemma represents_device_kind [binding_rules]: "represents DeviceKind_wire device_kind_binding"
  unfolding DeviceKind_wire_def device_kind_binding_def by (rule represents_enum) (simp_all, metis device_kind.exhaust)

definition error_severity_binding :: "error_severity binding" where
  "error_severity_binding = enum_binding ''ErrorSeverity'' error_severity_value [
     ErrorSeverity_INFO, ErrorSeverity_WARNING, ErrorSeverity_ERROR, ErrorSeverity_CRITICAL]"

lemma represents_error_severity [binding_rules]: "represents ErrorSeverity_wire error_severity_binding"
  unfolding ErrorSeverity_wire_def error_severity_binding_def by (rule represents_enum) (simp_all, metis error_severity.exhaust)

definition event_kind_binding :: "event_kind binding" where
  "event_kind_binding = enum_binding ''EventKind'' event_kind_value [
     EventKind_RECEIVER_AVAILABLE, EventKind_RECEIVER_SUSPENDED, EventKind_RECEIVER_UNAVAILABLE,
     EventKind_DEVICE_AVAILABLE, EventKind_DEVICE_SLEEPING, EventKind_DEVICE_UNAVAILABLE, EventKind_DEVICE_UNKNOWN,
     EventKind_BATTERY_UPDATED, EventKind_OWNERSHIP_CHANGED, EventKind_GENERATION_REPLACED,
     EventKind_TRANSACTION_COMPLETED, EventKind_RESTORE_COMPLETED, EventKind_DIAGNOSTIC_RAISED]"

lemma represents_event_kind [binding_rules]: "represents EventKind_wire event_kind_binding"
  unfolding EventKind_wire_def event_kind_binding_def by (rule represents_enum) (simp_all, metis event_kind.exhaust)

definition evidence_confidence_binding :: "evidence_confidence binding" where
  "evidence_confidence_binding = enum_binding ''EvidenceConfidence'' evidence_confidence_value [
     EvidenceConfidence_OBSERVED, EvidenceConfidence_DERIVED, EvidenceConfidence_INFERRED,
     EvidenceConfidence_UNKNOWN]"

lemma represents_evidence_confidence [binding_rules]: "represents EvidenceConfidence_wire evidence_confidence_binding"
  unfolding EvidenceConfidence_wire_def evidence_confidence_binding_def by (rule represents_enum) (simp_all, metis evidence_confidence.exhaust)

definition freshness_state_binding :: "freshness_state binding" where
  "freshness_state_binding = enum_binding ''FreshnessState'' freshness_state_value [
     FreshnessState_FRESH, FreshnessState_STALE, FreshnessState_UNKNOWN]"

lemma represents_freshness_state [binding_rules]: "represents FreshnessState_wire freshness_state_binding"
  unfolding FreshnessState_wire_def freshness_state_binding_def by (rule represents_enum) (simp_all, metis freshness_state.exhaust)

definition inventory_availability_binding :: "inventory_availability binding" where
  "inventory_availability_binding = enum_binding ''InventoryAvailability'' inventory_availability_value [
     InventoryAvailability_AVAILABLE, InventoryAvailability_SLEEPING, InventoryAvailability_UNAVAILABLE,
     InventoryAvailability_UNKNOWN, InventoryAvailability_UNPAIRED, InventoryAvailability_PAIRING_UNKNOWN,
     InventoryAvailability_RECEIVER_UNAVAILABLE]"

lemma represents_inventory_availability [binding_rules]: "represents InventoryAvailability_wire inventory_availability_binding"
  unfolding InventoryAvailability_wire_def inventory_availability_binding_def by (rule represents_enum) (simp_all, metis inventory_availability.exhaust)

definition lease_state_binding :: "lease_state binding" where
  "lease_state_binding = enum_binding ''LeaseState'' lease_state_value [
     LeaseState_REQUESTED, LeaseState_GRANTED, LeaseState_RENEWED, LeaseState_RELEASED, LeaseState_EXPIRED,
     LeaseState_REVOKED]"

lemma represents_lease_state [binding_rules]: "represents LeaseState_wire lease_state_binding"
  unfolding LeaseState_wire_def lease_state_binding_def by (rule represents_enum) (simp_all, metis lease_state.exhaust)

definition pairing_state_binding :: "pairing_state binding" where
  "pairing_state_binding = enum_binding ''PairingState'' pairing_state_value [
     PairingState_PAIRED, PairingState_UNPAIRED, PairingState_UNKNOWN]"

lemma represents_pairing_state [binding_rules]: "represents PairingState_wire pairing_state_binding"
  unfolding PairingState_wire_def pairing_state_binding_def by (rule represents_enum) (simp_all, metis pairing_state.exhaust)

definition power_state_binding :: "power_state binding" where
  "power_state_binding = enum_binding ''PowerState'' power_state_value [
     PowerState_ON, PowerState_OFF, PowerState_UNKNOWN]"

lemma represents_power_state [binding_rules]: "represents PowerState_wire power_state_binding"
  unfolding PowerState_wire_def power_state_binding_def by (rule represents_enum) (simp_all, metis power_state.exhaust)

definition presence_state_binding :: "presence_state binding" where
  "presence_state_binding = enum_binding ''PresenceState'' presence_state_value [
     PresenceState_AVAILABLE, PresenceState_SLEEPING, PresenceState_UNAVAILABLE, PresenceState_UNKNOWN]"

lemma represents_presence_state [binding_rules]: "represents PresenceState_wire presence_state_binding"
  unfolding PresenceState_wire_def presence_state_binding_def by (rule represents_enum) (simp_all, metis presence_state.exhaust)

definition privacy_class_binding :: "privacy_class binding" where
  "privacy_class_binding = enum_binding ''PrivacyClass'' privacy_class_value [
     PrivacyClass_PUBLIC, PrivacyClass_PUBLIC_SUMMARY, PrivacyClass_SENSITIVE, PrivacyClass_PRIVATE,
     PrivacyClass_FORBIDDEN]"

lemma represents_privacy_class [binding_rules]: "represents PrivacyClass_wire privacy_class_binding"
  unfolding PrivacyClass_wire_def privacy_class_binding_def by (rule represents_enum) (simp_all, metis privacy_class.exhaust)

definition protocol_error_kind_binding :: "protocol_error_kind binding" where
  "protocol_error_kind_binding = enum_binding ''ProtocolErrorKind'' protocol_error_kind_value [
     ProtocolErrorKind_INCOMPATIBLE_VERSION, ProtocolErrorKind_UNSUPPORTED_FEATURE,
     ProtocolErrorKind_INVALID_REQUEST, ProtocolErrorKind_OWNERSHIP_CONFLICT, ProtocolErrorKind_STALE_GENERATION,
     ProtocolErrorKind_DEADLINE_EXCEEDED, ProtocolErrorKind_QUEUE_FULL, ProtocolErrorKind_TRANSPORT_FAILURE,
     ProtocolErrorKind_OUTCOME_UNKNOWN, ProtocolErrorKind_OUTCOME_EVICTED, ProtocolErrorKind_INTERNAL_FAILURE]"

lemma represents_protocol_error_kind [binding_rules]: "represents ProtocolErrorKind_wire protocol_error_kind_binding"
  unfolding ProtocolErrorKind_wire_def protocol_error_kind_binding_def by (rule represents_enum) (simp_all, metis protocol_error_kind.exhaust)

definition queue_admission_binding :: "queue_admission binding" where
  "queue_admission_binding = enum_binding ''QueueAdmission'' queue_admission_value [
     QueueAdmission_ENQUEUED, QueueAdmission_COALESCED, QueueAdmission_REJECTED_FULL,
     QueueAdmission_REJECTED_DEADLINE, QueueAdmission_REJECTED_INVALID]"

lemma represents_queue_admission [binding_rules]: "represents QueueAdmission_wire queue_admission_binding"
  unfolding QueueAdmission_wire_def queue_admission_binding_def by (rule represents_enum) (simp_all, metis queue_admission.exhaust)

definition receiver_lifecycle_state_binding :: "receiver_lifecycle_state binding" where
  "receiver_lifecycle_state_binding = enum_binding ''ReceiverLifecycleState'' receiver_lifecycle_state_value [
     ReceiverLifecycleState_ACTIVE, ReceiverLifecycleState_SUSPENDED, ReceiverLifecycleState_PARTIALLY_SUSPENDED,
     ReceiverLifecycleState_DISCONNECTING, ReceiverLifecycleState_UNKNOWN]"

lemma represents_receiver_lifecycle_state [binding_rules]: "represents ReceiverLifecycleState_wire receiver_lifecycle_state_binding"
  unfolding ReceiverLifecycleState_wire_def receiver_lifecycle_state_binding_def by (rule represents_enum) (simp_all, metis receiver_lifecycle_state.exhaust)

definition resource_kind_binding :: "resource_kind binding" where
  "resource_kind_binding = enum_binding ''ResourceKind'' resource_kind_value [
     ResourceKind_LIGHTING, ResourceKind_SETTINGS, ResourceKind_PAIRING, ResourceKind_NATIVE_CONTROL]"

lemma represents_resource_kind [binding_rules]: "represents ResourceKind_wire resource_kind_binding"
  unfolding ResourceKind_wire_def resource_kind_binding_def by (rule represents_enum) (simp_all, metis resource_kind.exhaust)

definition restore_state_binding :: "restore_state binding" where
  "restore_state_binding = enum_binding ''RestoreState'' restore_state_value [
     RestoreState_IDLE, RestoreState_PLANNED, RestoreState_OWNERSHIP_BOUND, RestoreState_GENERATION_BOUND,
     RestoreState_QUEUED, RestoreState_APPLYING, RestoreState_SUCCEEDED, RestoreState_FAILED,
     RestoreState_INVALIDATED]"

lemma represents_restore_state [binding_rules]: "represents RestoreState_wire restore_state_binding"
  unfolding RestoreState_wire_def restore_state_binding_def by (rule represents_enum) (simp_all, metis restore_state.exhaust)

definition route_kind_binding :: "route_kind binding" where
  "route_kind_binding = enum_binding ''RouteKind'' route_kind_value [
     RouteKind_HYPERFLUX_WIRELESS, RouteKind_DIRECT_USB, RouteKind_BLUETOOTH]"

lemma represents_route_kind [binding_rules]: "represents RouteKind_wire route_kind_binding"
  unfolding RouteKind_wire_def route_kind_binding_def by (rule represents_enum) (simp_all, metis route_kind.exhaust)

definition route_state_binding :: "route_state binding" where
  "route_state_binding = enum_binding ''RouteState'' route_state_value [
     RouteState_AVAILABLE, RouteState_UNAVAILABLE, RouteState_STALE, RouteState_UNKNOWN]"

lemma represents_route_state [binding_rules]: "represents RouteState_wire route_state_binding"
  unfolding RouteState_wire_def route_state_binding_def by (rule represents_enum) (simp_all, metis route_state.exhaust)

definition side_effect_certainty_binding :: "side_effect_certainty binding" where
  "side_effect_certainty_binding = enum_binding ''SideEffectCertainty'' side_effect_certainty_value [
     SideEffectCertainty_NONE, SideEffectCertainty_POSSIBLE, SideEffectCertainty_PARTIAL,
     SideEffectCertainty_COMMITTED]"

lemma represents_side_effect_certainty [binding_rules]: "represents SideEffectCertainty_wire side_effect_certainty_binding"
  unfolding SideEffectCertainty_wire_def side_effect_certainty_binding_def by (rule represents_enum) (simp_all, metis side_effect_certainty.exhaust)

definition sleep_state_binding :: "sleep_state binding" where
  "sleep_state_binding = enum_binding ''SleepState'' sleep_state_value [
     SleepState_AWAKE, SleepState_ASLEEP, SleepState_UNKNOWN]"

lemma represents_sleep_state [binding_rules]: "represents SleepState_wire sleep_state_binding"
  unfolding SleepState_wire_def sleep_state_binding_def by (rule represents_enum) (simp_all, metis sleep_state.exhaust)

definition stable_lighting_mode_binding :: "stable_lighting_mode binding" where
  "stable_lighting_mode_binding = enum_binding ''StableLightingMode'' stable_lighting_mode_value [
     StableLightingMode_STATIC, StableLightingMode_OFF]"

lemma represents_stable_lighting_mode [binding_rules]: "represents StableLightingMode_wire stable_lighting_mode_binding"
  unfolding StableLightingMode_wire_def stable_lighting_mode_binding_def by (rule represents_enum) (simp_all, metis stable_lighting_mode.exhaust)

definition support_level_binding :: "support_level binding" where
  "support_level_binding = enum_binding ''SupportLevel'' support_level_value [
     SupportLevel_CANDIDATE, SupportLevel_IDENTIFIED, SupportLevel_READ_ONLY, SupportLevel_TELEMETRY_QUALIFIED,
     SupportLevel_LIGHTING_QUALIFIED, SupportLevel_SETTINGS_QUALIFIED, SupportLevel_PAIRING_QUALIFIED,
     SupportLevel_PRODUCTION_QUALIFIED]"

lemma represents_support_level [binding_rules]: "represents SupportLevel_wire support_level_binding"
  unfolding SupportLevel_wire_def support_level_binding_def by (rule represents_enum) (simp_all, metis support_level.exhaust)

definition telemetry_availability_binding :: "telemetry_availability binding" where
  "telemetry_availability_binding = enum_binding ''TelemetryAvailability'' telemetry_availability_value [
     TelemetryAvailability_UNKNOWN, TelemetryAvailability_UNAVAILABLE, TelemetryAvailability_REPORTED]"

lemma represents_telemetry_availability [binding_rules]: "represents TelemetryAvailability_wire telemetry_availability_binding"
  unfolding TelemetryAvailability_wire_def telemetry_availability_binding_def by (rule represents_enum) (simp_all, metis telemetry_availability.exhaust)

definition transaction_class_binding :: "transaction_class binding" where
  "transaction_class_binding = enum_binding ''TransactionClass'' transaction_class_value [
     TransactionClass_EFFECT_FRAME, TransactionClass_STATIC_LIGHTING, TransactionClass_DEVICE_SETTING,
     TransactionClass_RESTORE, TransactionClass_PAIRING]"

lemma represents_transaction_class [binding_rules]: "represents TransactionClass_wire transaction_class_binding"
  unfolding TransactionClass_wire_def transaction_class_binding_def by (rule represents_enum) (simp_all, metis transaction_class.exhaust)

definition transaction_state_binding :: "transaction_state binding" where
  "transaction_state_binding = enum_binding ''TransactionState'' transaction_state_value [
     TransactionState_CREATED, TransactionState_VALIDATED, TransactionState_OWNERSHIP_BOUND,
     TransactionState_GENERATION_BOUND, TransactionState_QUEUED, TransactionState_SENT,
     TransactionState_HEALTH_PENDING, TransactionState_SUCCEEDED, TransactionState_FAILED,
     TransactionState_REVOKED, TransactionState_SUPERSEDED]"

lemma represents_transaction_state [binding_rules]: "represents TransactionState_wire transaction_state_binding"
  unfolding TransactionState_wire_def transaction_state_binding_def by (rule represents_enum) (simp_all, metis transaction_state.exhaust)

section \<open>Message classes\<close>

lemma domain_classes:
  shows "''BatteryPercent'' \<in> fst ` set domain_ranges" "''BatteryPercent'' \<notin> fst ` set domain_lengths"
    and "''ColorChannel'' \<in> fst ` set domain_ranges" "''ColorChannel'' \<notin> fst ` set domain_lengths"
    and "''DeliveredFrameCount'' \<in> fst ` set domain_ranges" "''DeliveredFrameCount'' \<notin> fst ` set domain_lengths"
    and "''DroppedEventCount'' \<in> fst ` set domain_ranges" "''DroppedEventCount'' \<notin> fst ` set domain_lengths"
    and "''EventBatchLimit'' \<in> fst ` set domain_ranges" "''EventBatchLimit'' \<notin> fst ` set domain_lengths"
    and "''FrameCount'' \<in> fst ` set domain_ranges" "''FrameCount'' \<notin> fst ` set domain_lengths"
    and "''FrameIndex'' \<in> fst ` set domain_ranges" "''FrameIndex'' \<notin> fst ` set domain_lengths"
    and "''GenerationId'' \<in> fst ` set domain_ranges" "''GenerationId'' \<notin> fst ` set domain_lengths"
    and "''LeaseDurationMs'' \<in> fst ` set domain_ranges" "''LeaseDurationMs'' \<notin> fst ` set domain_lengths"
    and "''LedCount'' \<in> fst ` set domain_ranges" "''LedCount'' \<notin> fst ` set domain_lengths"
    and "''MonotonicMs'' \<in> fst ` set domain_ranges" "''MonotonicMs'' \<notin> fst ` set domain_lengths"
    and "''ProductId'' \<in> fst ` set domain_ranges" "''ProductId'' \<notin> fst ` set domain_lengths"
    and "''ProjectionRevision'' \<in> fst ` set domain_ranges" "''ProjectionRevision'' \<notin> fst ` set domain_lengths"
    and "''ProtocolVersion'' \<in> fst ` set domain_ranges" "''ProtocolVersion'' \<notin> fst ` set domain_lengths"
    and "''QueueCapacity'' \<in> fst ` set domain_ranges" "''QueueCapacity'' \<notin> fst ` set domain_lengths"
    and "''SequenceNumber'' \<in> fst ` set domain_ranges" "''SequenceNumber'' \<notin> fst ` set domain_lengths"
    and "''StreamEpoch'' \<in> fst ` set domain_ranges" "''StreamEpoch'' \<notin> fst ` set domain_lengths"
    and "''CapabilityId'' \<in> fst ` set domain_lengths" "''CapabilityId'' \<notin> fst ` set domain_ranges"
    and "''ClientId'' \<in> fst ` set domain_lengths" "''ClientId'' \<notin> fst ` set domain_ranges"
    and "''ClientName'' \<in> fst ` set domain_lengths" "''ClientName'' \<notin> fst ` set domain_ranges"
    and "''ComponentVersion'' \<in> fst ` set domain_lengths" "''ComponentVersion'' \<notin> fst ` set domain_ranges"
    and "''DocumentationPath'' \<in> fst ` set domain_lengths" "''DocumentationPath'' \<notin> fst ` set domain_ranges"
    and "''EndpointId'' \<in> fst ` set domain_lengths" "''EndpointId'' \<notin> fst ` set domain_ranges"
    and "''EvidenceClaimId'' \<in> fst ` set domain_lengths" "''EvidenceClaimId'' \<notin> fst ` set domain_ranges"
    and "''FindingId'' \<in> fst ` set domain_lengths" "''FindingId'' \<notin> fst ` set domain_ranges"
    and "''HumanMessage'' \<in> fst ` set domain_lengths" "''HumanMessage'' \<notin> fst ` set domain_ranges"
    and "''LeaseId'' \<in> fst ` set domain_lengths" "''LeaseId'' \<notin> fst ` set domain_ranges"
    and "''LogicalDeviceId'' \<in> fst ` set domain_lengths" "''LogicalDeviceId'' \<notin> fst ` set domain_ranges"
    and "''ModelName'' \<in> fst ` set domain_lengths" "''ModelName'' \<notin> fst ` set domain_ranges"
    and "''NegotiationToken'' \<in> fst ` set domain_lengths" "''NegotiationToken'' \<notin> fst ` set domain_ranges"
    and "''PresentationKey'' \<in> fst ` set domain_lengths" "''PresentationKey'' \<notin> fst ` set domain_ranges"
    and "''ProfileDigest'' \<in> fst ` set domain_lengths" "''ProfileDigest'' \<notin> fst ` set domain_ranges"
    and "''ProfileId'' \<in> fst ` set domain_lengths" "''ProfileId'' \<notin> fst ` set domain_ranges"
    and "''ProtocolFeatureId'' \<in> fst ` set domain_lengths" "''ProtocolFeatureId'' \<notin> fst ` set domain_ranges"
    and "''ProtocolSessionId'' \<in> fst ` set domain_lengths" "''ProtocolSessionId'' \<notin> fst ` set domain_ranges"
    and "''ReceiverId'' \<in> fst ` set domain_lengths" "''ReceiverId'' \<notin> fst ` set domain_ranges"
    and "''RequestDigest'' \<in> fst ` set domain_lengths" "''RequestDigest'' \<notin> fst ` set domain_ranges"
    and "''RequestId'' \<in> fst ` set domain_lengths" "''RequestId'' \<notin> fst ` set domain_ranges"
    and "''ServerInstanceId'' \<in> fst ` set domain_lengths" "''ServerInstanceId'' \<notin> fst ` set domain_ranges"
    and "''SourceRevision'' \<in> fst ` set domain_lengths" "''SourceRevision'' \<notin> fst ` set domain_ranges"
    and "''StreamId'' \<in> fst ` set domain_lengths" "''StreamId'' \<notin> fst ` set domain_ranges"
    and "''SubscriptionId'' \<in> fst ` set domain_lengths" "''SubscriptionId'' \<notin> fst ` set domain_ranges"
    and "''TransactionId'' \<in> fst ` set domain_lengths" "''TransactionId'' \<notin> fst ` set domain_ranges"
    and "''TransportVariant'' \<in> fst ` set domain_lengths" "''TransportVariant'' \<notin> fst ` set domain_ranges"
    and "''UpstreamId'' \<in> fst ` set domain_lengths" "''UpstreamId'' \<notin> fst ` set domain_ranges"
    and "''UpstreamOwner'' \<in> fst ` set domain_lengths" "''UpstreamOwner'' \<notin> fst ` set domain_ranges"
  by (simp_all add: domain_ranges_def domain_lengths_def)

definition empty_request_binding :: "empty_request binding" where
  "empty_request_binding = via
     (\<lambda>x. ())
     (\<lambda>_. EmptyRequest)
     (class_binding ''EmptyRequest'' no_fields)"

lemma represents_empty_request [binding_rules]: "represents EmptyRequest_wire empty_request_binding"
  unfolding EmptyRequest_wire_def empty_request_binding_def
  by (intro binding_rules) (simp_all, metis empty_request.exhaust)

definition rgb_color_binding :: "rgb_color binding" where
  "rgb_color_binding = via
     (\<lambda>x. (rgb_red x, rgb_green x, rgb_blue x, ()))
     (\<lambda>(x1, x2, x3, _). \<lparr>rgb_red = x1, rgb_green = x2, rgb_blue = x3\<rparr>)
     (class_binding ''RgbColor'' (field_then ''red'' (int_binding ''ColorChannel'')
     (field_then ''green'' (int_binding ''ColorChannel'') (field_then ''blue'' (int_binding ''ColorChannel'')
     no_fields))))"

lemma represents_rgb_color [binding_rules]: "represents RgbColor_wire rgb_color_binding"
  unfolding RgbColor_wire_def rgb_color_binding_def
  by (intro binding_rules represents_member domain_classes) auto

definition client_hello_binding :: "client_hello binding" where
  "client_hello_binding = via
     (\<lambda>x. (ch_client_id x, ch_client_name x, ch_minimum_version x, ch_maximum_version x,
     ch_required_features x, ch_optional_features x, ()))
     (\<lambda>(x1, x2, x3, x4, x5, x6, _). \<lparr>ch_client_id = x1, ch_client_name = x2,
     ch_minimum_version = x3, ch_maximum_version = x4, ch_required_features = x5,
     ch_optional_features = x6\<rparr>)
     (class_binding ''ClientHello'' (field_then ''client_id'' (str_binding ''ClientId'')
     (field_then ''client_name'' (str_binding ''ClientName'')
     (field_then ''minimum_version'' (int_binding ''ProtocolVersion'')
     (field_then ''maximum_version'' (int_binding ''ProtocolVersion'')
     (field_then ''required_features'' (tuple_binding (str_binding ''ProtocolFeatureId''))
     (field_then ''optional_features'' (tuple_binding (str_binding ''ProtocolFeatureId'')) no_fields)))))))"

lemma represents_client_hello [binding_rules]: "represents ClientHello_wire client_hello_binding"
  unfolding ClientHello_wire_def client_hello_binding_def
  by (intro binding_rules represents_member domain_classes) auto

definition server_hello_binding :: "server_hello binding" where
  "server_hello_binding = via
     (\<lambda>x. (sh_selected_version x, sh_server_instance_id x, sh_protocol_session_id x,
     sh_negotiation_token x, sh_bridge_version x, sh_enabled_features x, sh_event_buffer_capacity x, ()))
     (\<lambda>(x1, x2, x3, x4, x5, x6, x7, _). \<lparr>sh_selected_version = x1, sh_server_instance_id = x2,
     sh_protocol_session_id = x3, sh_negotiation_token = x4, sh_bridge_version = x5, sh_enabled_features = x6,
     sh_event_buffer_capacity = x7\<rparr>)
     (class_binding ''ServerHello'' (field_then ''selected_version'' (int_binding ''ProtocolVersion'')
     (field_then ''server_instance_id'' (str_binding ''ServerInstanceId'')
     (field_then ''protocol_session_id'' (str_binding ''ProtocolSessionId'')
     (field_then ''negotiation_token'' (str_binding ''NegotiationToken'')
     (field_then ''bridge_version'' (str_binding ''ComponentVersion'')
     (field_then ''enabled_features'' (tuple_binding (str_binding ''ProtocolFeatureId''))
     (field_then ''event_buffer_capacity'' (int_binding ''QueueCapacity'') no_fields))))))))"

lemma represents_server_hello [binding_rules]: "represents ServerHello_wire server_hello_binding"
  unfolding ServerHello_wire_def server_hello_binding_def
  by (intro binding_rules represents_member domain_classes) auto

definition resource_key_binding :: "resource_key binding" where
  "resource_key_binding = via
     (\<lambda>x. (rk_receiver_id x, rk_generation_id x, rk_device_id x, rk_kind x, ()))
     (\<lambda>(x1, x2, x3, x4, _). \<lparr>rk_receiver_id = x1, rk_generation_id = x2, rk_device_id = x3,
     rk_kind = x4\<rparr>)
     (class_binding ''ResourceKey'' (field_then ''receiver_id'' (str_binding ''ReceiverId'')
     (field_then ''generation_id'' (int_binding ''GenerationId'')
     (field_then ''device_id'' (str_binding ''LogicalDeviceId'') (field_then ''kind'' resource_kind_binding
     no_fields)))))"

lemma represents_resource_key [binding_rules]: "represents ResourceKey_wire resource_key_binding"
  unfolding ResourceKey_wire_def resource_key_binding_def
  by (intro binding_rules represents_member domain_classes) auto

definition lease_request_binding :: "lease_request binding" where
  "lease_request_binding = via
     (\<lambda>x. (lr_request_id x, lr_client_id x, lr_resources x, lr_duration_ms x, ()))
     (\<lambda>(x1, x2, x3, x4, _). \<lparr>lr_request_id = x1, lr_client_id = x2, lr_resources = x3,
     lr_duration_ms = x4\<rparr>)
     (class_binding ''LeaseRequest'' (field_then ''request_id'' (str_binding ''RequestId'')
     (field_then ''client_id'' (str_binding ''ClientId'')
     (field_then ''resources'' (tuple_binding resource_key_binding)
     (field_then ''duration_ms'' (int_binding ''LeaseDurationMs'') no_fields)))))"

lemma represents_lease_request [binding_rules]: "represents LeaseRequest_wire lease_request_binding"
  unfolding LeaseRequest_wire_def lease_request_binding_def
  by (intro binding_rules represents_member domain_classes) auto

definition lease_grant_binding :: "lease_grant binding" where
  "lease_grant_binding = via
     (\<lambda>x. (lg_lease_id x, lg_client_id x, lg_resources x, lg_expires_at_ms x, lg_state x, ()))
     (\<lambda>(x1, x2, x3, x4, x5, _). \<lparr>lg_lease_id = x1, lg_client_id = x2, lg_resources = x3,
     lg_expires_at_ms = x4, lg_state = x5\<rparr>)
     (class_binding ''LeaseGrant'' (field_then ''lease_id'' (str_binding ''LeaseId'')
     (field_then ''client_id'' (str_binding ''ClientId'')
     (field_then ''resources'' (tuple_binding resource_key_binding)
     (field_then ''expires_at_ms'' (int_binding ''MonotonicMs'') (field_then ''state'' lease_state_binding
     no_fields))))))"

lemma represents_lease_grant [binding_rules]: "represents LeaseGrant_wire lease_grant_binding"
  unfolding LeaseGrant_wire_def lease_grant_binding_def
  by (intro binding_rules represents_member domain_classes) auto

definition lease_conflict_binding :: "lease_conflict binding" where
  "lease_conflict_binding = via
     (\<lambda>x. (lc_conflicting_client x, lc_conflicting_resource x, ()))
     (\<lambda>(x1, x2, _). \<lparr>lc_conflicting_client = x1, lc_conflicting_resource = x2\<rparr>)
     (class_binding ''LeaseConflict'' (field_then ''conflicting_client'' (str_binding ''ClientId'')
     (field_then ''conflicting_resource'' resource_key_binding no_fields)))"

lemma represents_lease_conflict [binding_rules]: "represents LeaseConflict_wire lease_conflict_binding"
  unfolding LeaseConflict_wire_def lease_conflict_binding_def
  by (intro binding_rules represents_member domain_classes) auto

definition lease_rejection_binding :: "lease_rejection binding" where
  "lease_rejection_binding = via
     (\<lambda>x. (lj_error_kind x, lj_finding_id x, ()))
     (\<lambda>(x1, x2, _). \<lparr>lj_error_kind = x1, lj_finding_id = x2\<rparr>)
     (class_binding ''LeaseRejection'' (field_then ''error_kind'' protocol_error_kind_binding
     (field_then ''finding_id'' (str_binding ''FindingId'') no_fields)))"

lemma represents_lease_rejection [binding_rules]: "represents LeaseRejection_wire lease_rejection_binding"
  unfolding LeaseRejection_wire_def lease_rejection_binding_def
  by (intro binding_rules represents_member domain_classes) auto

definition renew_lease_request_binding :: "renew_lease_request binding" where
  "renew_lease_request_binding = via
     (\<lambda>x. (rnl_request_id x, rnl_client_id x, rnl_lease_id x, rnl_duration_ms x, ()))
     (\<lambda>(x1, x2, x3, x4, _). \<lparr>rnl_request_id = x1, rnl_client_id = x2, rnl_lease_id = x3,
     rnl_duration_ms = x4\<rparr>)
     (class_binding ''RenewLeaseRequest'' (field_then ''request_id'' (str_binding ''RequestId'')
     (field_then ''client_id'' (str_binding ''ClientId'') (field_then ''lease_id'' (str_binding ''LeaseId'')
     (field_then ''duration_ms'' (int_binding ''LeaseDurationMs'') no_fields)))))"

lemma represents_renew_lease_request [binding_rules]: "represents RenewLeaseRequest_wire renew_lease_request_binding"
  unfolding RenewLeaseRequest_wire_def renew_lease_request_binding_def
  by (intro binding_rules represents_member domain_classes) auto

definition release_lease_request_binding :: "release_lease_request binding" where
  "release_lease_request_binding = via
     (\<lambda>x. (rll_request_id x, rll_client_id x, rll_lease_id x, ()))
     (\<lambda>(x1, x2, x3, _). \<lparr>rll_request_id = x1, rll_client_id = x2, rll_lease_id = x3\<rparr>)
     (class_binding ''ReleaseLeaseRequest'' (field_then ''request_id'' (str_binding ''RequestId'')
     (field_then ''client_id'' (str_binding ''ClientId'') (field_then ''lease_id'' (str_binding ''LeaseId'')
     no_fields))))"

lemma represents_release_lease_request [binding_rules]: "represents ReleaseLeaseRequest_wire release_lease_request_binding"
  unfolding ReleaseLeaseRequest_wire_def release_lease_request_binding_def
  by (intro binding_rules represents_member domain_classes) auto

definition event_cursor_binding :: "event_cursor binding" where
  "event_cursor_binding = via
     (\<lambda>x. (ec_stream_id x, ec_stream_epoch x, ec_projection_revision x, ec_sequence x, ()))
     (\<lambda>(x1, x2, x3, x4, _). \<lparr>ec_stream_id = x1, ec_stream_epoch = x2, ec_projection_revision = x3,
     ec_sequence = x4\<rparr>)
     (class_binding ''EventCursor'' (field_then ''stream_id'' (str_binding ''StreamId'')
     (field_then ''stream_epoch'' (int_binding ''StreamEpoch'')
     (field_then ''projection_revision'' (int_binding ''ProjectionRevision'')
     (field_then ''sequence'' (int_binding ''SequenceNumber'') no_fields)))))"

lemma represents_event_cursor [binding_rules]: "represents EventCursor_wire event_cursor_binding"
  unfolding EventCursor_wire_def event_cursor_binding_def
  by (intro binding_rules represents_member domain_classes) auto

definition endpoint_snapshot_binding :: "endpoint_snapshot binding" where
  "endpoint_snapshot_binding = via
     (\<lambda>x. (es_endpoint_id x, es_route_kind x, es_route_state x, es_connection_mode x, es_power_state x,
     es_sleep_state x, es_activity_state x, es_contact_state x, es_freshness x, es_confidence x,
     es_evidence_claim_id x, es_observed_at_ms x, ()))
     (\<lambda>(x1, x2, x3, x4, x5, x6, x7, x8, x9, x10, x11, x12, _). \<lparr>es_endpoint_id = x1,
     es_route_kind = x2, es_route_state = x3, es_connection_mode = x4, es_power_state = x5, es_sleep_state = x6,
     es_activity_state = x7, es_contact_state = x8, es_freshness = x9, es_confidence = x10,
     es_evidence_claim_id = x11, es_observed_at_ms = x12\<rparr>)
     (class_binding ''EndpointSnapshot'' (field_then ''endpoint_id'' (str_binding ''EndpointId'')
     (field_then ''route_kind'' route_kind_binding (field_then ''route_state'' route_state_binding
     (field_then ''connection_mode'' connection_mode_binding (field_then ''power_state'' power_state_binding
     (field_then ''sleep_state'' sleep_state_binding (field_then ''activity_state'' activity_state_binding
     (field_then ''contact_state'' contact_state_binding (field_then ''freshness'' freshness_state_binding
     (field_then ''confidence'' evidence_confidence_binding
     (field_then ''evidence_claim_id'' (optional_binding (str_binding ''EvidenceClaimId''))
     (field_then ''observed_at_ms'' (optional_binding (int_binding ''MonotonicMs'')) no_fields)))))))))))))"

lemma represents_endpoint_snapshot [binding_rules]: "represents EndpointSnapshot_wire endpoint_snapshot_binding"
  unfolding EndpointSnapshot_wire_def endpoint_snapshot_binding_def
  by (intro binding_rules represents_member domain_classes) auto

definition battery_observation_binding :: "battery_observation binding" where
  "battery_observation_binding = via
     (\<lambda>x. (bo_availability x, bo_percentage x, bo_freshness x, bo_confidence x, bo_observed_at_ms x, ()))
     (\<lambda>(x1, x2, x3, x4, x5, _). \<lparr>bo_availability = x1, bo_percentage = x2, bo_freshness = x3,
     bo_confidence = x4, bo_observed_at_ms = x5\<rparr>)
     (class_binding ''BatteryObservation'' (field_then ''availability'' telemetry_availability_binding
     (field_then ''percentage'' (optional_binding (int_binding ''BatteryPercent''))
     (field_then ''freshness'' freshness_state_binding (field_then ''confidence'' evidence_confidence_binding
     (field_then ''observed_at_ms'' (optional_binding (int_binding ''MonotonicMs'')) no_fields))))))"

lemma represents_battery_observation [binding_rules]: "represents BatteryObservation_wire battery_observation_binding"
  unfolding BatteryObservation_wire_def battery_observation_binding_def
  by (intro binding_rules represents_member domain_classes) auto

definition resource_ownership_snapshot_binding :: "resource_ownership_snapshot binding" where
  "resource_ownership_snapshot_binding = via
     (\<lambda>x. (ros_resource x, ros_client_id x, ros_lease_id x, ros_expires_at_ms x, ()))
     (\<lambda>(x1, x2, x3, x4, _). \<lparr>ros_resource = x1, ros_client_id = x2, ros_lease_id = x3,
     ros_expires_at_ms = x4\<rparr>)
     (class_binding ''ResourceOwnershipSnapshot'' (field_then ''resource'' resource_key_binding
     (field_then ''client_id'' (str_binding ''ClientId'') (field_then ''lease_id'' (str_binding ''LeaseId'')
     (field_then ''expires_at_ms'' (int_binding ''MonotonicMs'') no_fields)))))"

lemma represents_resource_ownership_snapshot [binding_rules]: "represents ResourceOwnershipSnapshot_wire resource_ownership_snapshot_binding"
  unfolding ResourceOwnershipSnapshot_wire_def resource_ownership_snapshot_binding_def
  by (intro binding_rules represents_member domain_classes) auto

definition logical_device_snapshot_binding :: "logical_device_snapshot binding" where
  "logical_device_snapshot_binding = via
     (\<lambda>x. (lds_device_id x, lds_device_kind x, lds_product_id x, lds_profile_id x, lds_profile_digest x,
     lds_pairing x, lds_presence x, lds_support_level x, lds_endpoints x, lds_battery x, lds_capabilities x, ()))
     (\<lambda>(x1, x2, x3, x4, x5, x6, x7, x8, x9, x10, x11, _). \<lparr>lds_device_id = x1, lds_device_kind = x2,
     lds_product_id = x3, lds_profile_id = x4, lds_profile_digest = x5, lds_pairing = x6, lds_presence = x7,
     lds_support_level = x8, lds_endpoints = x9, lds_battery = x10, lds_capabilities = x11\<rparr>)
     (class_binding ''LogicalDeviceSnapshot'' (field_then ''device_id'' (str_binding ''LogicalDeviceId'')
     (field_then ''device_kind'' device_kind_binding (field_then ''product_id'' (int_binding ''ProductId'')
     (field_then ''profile_id'' (optional_binding (str_binding ''ProfileId''))
     (field_then ''profile_digest'' (optional_binding (str_binding ''ProfileDigest''))
     (field_then ''pairing'' pairing_state_binding (field_then ''presence'' presence_state_binding
     (field_then ''support_level'' support_level_binding
     (field_then ''endpoints'' (tuple_binding endpoint_snapshot_binding)
     (field_then ''battery'' battery_observation_binding
     (field_then ''capabilities'' (tuple_binding (str_binding ''CapabilityId'')) no_fields))))))))))))"

lemma represents_logical_device_snapshot [binding_rules]: "represents LogicalDeviceSnapshot_wire logical_device_snapshot_binding"
  unfolding LogicalDeviceSnapshot_wire_def logical_device_snapshot_binding_def
  by (intro binding_rules represents_member domain_classes) auto

definition receiver_snapshot_binding :: "receiver_snapshot binding" where
  "receiver_snapshot_binding = via
     (\<lambda>x. (rs_receiver_id x, rs_generation_id x, rs_profile_id x, rs_profile_digest x, rs_lifecycle x,
     rs_devices x, rs_ownership x, rs_stable_restore_enabled x, rs_restore_state x, ()))
     (\<lambda>(x1, x2, x3, x4, x5, x6, x7, x8, x9, _). \<lparr>rs_receiver_id = x1, rs_generation_id = x2,
     rs_profile_id = x3, rs_profile_digest = x4, rs_lifecycle = x5, rs_devices = x6, rs_ownership = x7,
     rs_stable_restore_enabled = x8, rs_restore_state = x9\<rparr>)
     (class_binding ''ReceiverSnapshot'' (field_then ''receiver_id'' (str_binding ''ReceiverId'')
     (field_then ''generation_id'' (int_binding ''GenerationId'')
     (field_then ''profile_id'' (optional_binding (str_binding ''ProfileId''))
     (field_then ''profile_digest'' (optional_binding (str_binding ''ProfileDigest''))
     (field_then ''lifecycle'' receiver_lifecycle_state_binding
     (field_then ''devices'' (tuple_binding logical_device_snapshot_binding)
     (field_then ''ownership'' (tuple_binding resource_ownership_snapshot_binding)
     (field_then ''stable_restore_enabled'' bool_binding (field_then ''restore_state'' restore_state_binding
     no_fields))))))))))"

lemma represents_receiver_snapshot [binding_rules]: "represents ReceiverSnapshot_wire receiver_snapshot_binding"
  unfolding ReceiverSnapshot_wire_def receiver_snapshot_binding_def
  by (intro binding_rules represents_member domain_classes) auto

definition bridge_snapshot_binding :: "bridge_snapshot binding" where
  "bridge_snapshot_binding = via
     (\<lambda>x. (bs_cursor x, bs_receivers x, ()))
     (\<lambda>(x1, x2, _). \<lparr>bs_cursor = x1, bs_receivers = x2\<rparr>)
     (class_binding ''BridgeSnapshot'' (field_then ''cursor'' event_cursor_binding
     (field_then ''receivers'' (tuple_binding receiver_snapshot_binding) no_fields)))"

lemma represents_bridge_snapshot [binding_rules]: "represents BridgeSnapshot_wire bridge_snapshot_binding"
  unfolding BridgeSnapshot_wire_def bridge_snapshot_binding_def
  by (intro binding_rules represents_member domain_classes) auto

definition lighting_frame_binding :: "lighting_frame binding" where
  "lighting_frame_binding = via
     (\<lambda>x. (lf_device_id x, lf_frame_index x, lf_colors x, ()))
     (\<lambda>(x1, x2, x3, _). \<lparr>lf_device_id = x1, lf_frame_index = x2, lf_colors = x3\<rparr>)
     (class_binding ''LightingFrame'' (field_then ''device_id'' (str_binding ''LogicalDeviceId'')
     (field_then ''frame_index'' (int_binding ''FrameIndex'')
     (field_then ''colors'' (tuple_binding rgb_color_binding) no_fields))))"

lemma represents_lighting_frame [binding_rules]: "represents LightingFrame_wire lighting_frame_binding"
  unfolding LightingFrame_wire_def lighting_frame_binding_def
  by (intro binding_rules represents_member domain_classes) auto

definition device_profile_binding_binding :: "device_profile_binding binding" where
  "device_profile_binding_binding = via
     (\<lambda>x. (dpb_device_id x, dpb_profile_id x, dpb_profile_digest x, dpb_application_slot_count x, ()))
     (\<lambda>(x1, x2, x3, x4, _). \<lparr>dpb_device_id = x1, dpb_profile_id = x2, dpb_profile_digest = x3,
     dpb_application_slot_count = x4\<rparr>)
     (class_binding ''DeviceProfileBinding'' (field_then ''device_id'' (str_binding ''LogicalDeviceId'')
     (field_then ''profile_id'' (str_binding ''ProfileId'')
     (field_then ''profile_digest'' (str_binding ''ProfileDigest'')
     (field_then ''application_slot_count'' (int_binding ''LedCount'') no_fields)))))"

lemma represents_device_profile_binding [binding_rules]: "represents DeviceProfileBinding_wire device_profile_binding_binding"
  unfolding DeviceProfileBinding_wire_def device_profile_binding_binding_def
  by (intro binding_rules represents_member domain_classes) auto

definition stable_lighting_intent_binding :: "stable_lighting_intent binding" where
  "stable_lighting_intent_binding = via
     (\<lambda>x. (sli_device_id x, sli_mode x, ()))
     (\<lambda>(x1, x2, _). \<lparr>sli_device_id = x1, sli_mode = x2\<rparr>)
     (class_binding ''StableLightingIntent'' (field_then ''device_id'' (str_binding ''LogicalDeviceId'')
     (field_then ''mode'' stable_lighting_mode_binding no_fields)))"

lemma represents_stable_lighting_intent [binding_rules]: "represents StableLightingIntent_wire stable_lighting_intent_binding"
  unfolding StableLightingIntent_wire_def stable_lighting_intent_binding_def
  by (intro binding_rules represents_member domain_classes) auto

definition transaction_request_binding :: "transaction_request binding" where
  "transaction_request_binding = via
     (\<lambda>x. (tr_request_id x, tr_transaction_id x, tr_client_id x, tr_lease_id x, tr_receiver_id x,
     tr_generation_id x, tr_receiver_profile_id x, tr_receiver_profile_digest x, tr_device_profiles x,
     tr_transaction_class x, tr_stable_intents x, tr_deadline_ms x, tr_resources x, tr_frames x, ()))
     (\<lambda>(x1, x2, x3, x4, x5, x6, x7, x8, x9, x10, x11, x12, x13, x14, _). \<lparr>tr_request_id = x1,
     tr_transaction_id = x2, tr_client_id = x3, tr_lease_id = x4, tr_receiver_id = x5, tr_generation_id = x6,
     tr_receiver_profile_id = x7, tr_receiver_profile_digest = x8, tr_device_profiles = x9,
     tr_transaction_class = x10, tr_stable_intents = x11, tr_deadline_ms = x12, tr_resources = x13,
     tr_frames = x14\<rparr>)
     (class_binding ''TransactionRequest'' (field_then ''request_id'' (str_binding ''RequestId'')
     (field_then ''transaction_id'' (str_binding ''TransactionId'')
     (field_then ''client_id'' (str_binding ''ClientId'') (field_then ''lease_id'' (str_binding ''LeaseId'')
     (field_then ''receiver_id'' (str_binding ''ReceiverId'')
     (field_then ''generation_id'' (int_binding ''GenerationId'')
     (field_then ''receiver_profile_id'' (str_binding ''ProfileId'')
     (field_then ''receiver_profile_digest'' (str_binding ''ProfileDigest'')
     (field_then ''device_profiles'' (tuple_binding device_profile_binding_binding)
     (field_then ''transaction_class'' transaction_class_binding
     (field_then ''stable_intents'' (tuple_binding stable_lighting_intent_binding)
     (field_then ''deadline_ms'' (int_binding ''MonotonicMs'')
     (field_then ''resources'' (tuple_binding resource_key_binding)
     (field_then ''frames'' (tuple_binding lighting_frame_binding) no_fields)))))))))))))))"

lemma represents_transaction_request [binding_rules]: "represents TransactionRequest_wire transaction_request_binding"
  unfolding TransactionRequest_wire_def transaction_request_binding_def
  by (intro binding_rules represents_member domain_classes) auto

definition transaction_progress_binding :: "transaction_progress binding" where
  "transaction_progress_binding = via
     (\<lambda>x. (tp_request_id x, tp_request_digest x, tp_transaction_id x, tp_receiver_id x, tp_generation_id x,
     tp_state x, tp_admission x, tp_declared_frames x, tp_delivered_frames x, tp_side_effect_certainty x,
     tp_live_write_executed x, ()))
     (\<lambda>(x1, x2, x3, x4, x5, x6, x7, x8, x9, x10, x11, _). \<lparr>tp_request_id = x1,
     tp_request_digest = x2, tp_transaction_id = x3, tp_receiver_id = x4, tp_generation_id = x5, tp_state = x6,
     tp_admission = x7, tp_declared_frames = x8, tp_delivered_frames = x9, tp_side_effect_certainty = x10,
     tp_live_write_executed = x11\<rparr>)
     (class_binding ''TransactionProgress'' (field_then ''request_id'' (str_binding ''RequestId'')
     (field_then ''request_digest'' (str_binding ''RequestDigest'')
     (field_then ''transaction_id'' (str_binding ''TransactionId'')
     (field_then ''receiver_id'' (str_binding ''ReceiverId'')
     (field_then ''generation_id'' (int_binding ''GenerationId'') (field_then ''state'' transaction_state_binding
     (field_then ''admission'' queue_admission_binding (field_then ''declared_frames'' (int_binding ''FrameCount'')
     (field_then ''delivered_frames'' (int_binding ''DeliveredFrameCount'')
     (field_then ''side_effect_certainty'' side_effect_certainty_binding
     (field_then ''live_write_executed'' bool_binding no_fields))))))))))))"

lemma represents_transaction_progress [binding_rules]: "represents TransactionProgress_wire transaction_progress_binding"
  unfolding TransactionProgress_wire_def transaction_progress_binding_def
  by (intro binding_rules represents_member domain_classes) auto

definition transaction_terminal_binding :: "transaction_terminal binding" where
  "transaction_terminal_binding = via
     (\<lambda>x. (tt_request_id x, tt_request_digest x, tt_transaction_id x, tt_receiver_id x, tt_generation_id x,
     tt_state x, tt_declared_frames x, tt_delivered_frames x, tt_side_effect_certainty x, tt_live_write_executed x,
     tt_automatic_retry x, tt_device_application x, tt_terminal_sequence x, tt_error_kind x, tt_superseded_by x,
     ()))
     (\<lambda>(x1, x2, x3, x4, x5, x6, x7, x8, x9, x10, x11, x12, x13, x14, x15, _). \<lparr>tt_request_id = x1,
     tt_request_digest = x2, tt_transaction_id = x3, tt_receiver_id = x4, tt_generation_id = x5, tt_state = x6,
     tt_declared_frames = x7, tt_delivered_frames = x8, tt_side_effect_certainty = x9,
     tt_live_write_executed = x10, tt_automatic_retry = x11, tt_device_application = x12,
     tt_terminal_sequence = x13, tt_error_kind = x14, tt_superseded_by = x15\<rparr>)
     (class_binding ''TransactionTerminal'' (field_then ''request_id'' (str_binding ''RequestId'')
     (field_then ''request_digest'' (str_binding ''RequestDigest'')
     (field_then ''transaction_id'' (str_binding ''TransactionId'')
     (field_then ''receiver_id'' (str_binding ''ReceiverId'')
     (field_then ''generation_id'' (int_binding ''GenerationId'') (field_then ''state'' transaction_state_binding
     (field_then ''declared_frames'' (int_binding ''FrameCount'')
     (field_then ''delivered_frames'' (int_binding ''DeliveredFrameCount'')
     (field_then ''side_effect_certainty'' side_effect_certainty_binding
     (field_then ''live_write_executed'' bool_binding (field_then ''automatic_retry'' bool_binding
     (field_then ''device_application'' device_application_state_binding
     (field_then ''terminal_sequence'' (int_binding ''SequenceNumber'')
     (field_then ''error_kind'' (optional_binding protocol_error_kind_binding)
     (field_then ''superseded_by'' (optional_binding (str_binding ''TransactionId'')) no_fields))))))))))))))))"

lemma represents_transaction_terminal [binding_rules]: "represents TransactionTerminal_wire transaction_terminal_binding"
  unfolding TransactionTerminal_wire_def transaction_terminal_binding_def
  by (intro binding_rules represents_member domain_classes) auto

definition transaction_unavailable_binding :: "transaction_unavailable binding" where
  "transaction_unavailable_binding = via
     (\<lambda>x. (tu_transaction_id x, tu_error_kind x, tu_finding_id x, ()))
     (\<lambda>(x1, x2, x3, _). \<lparr>tu_transaction_id = x1, tu_error_kind = x2, tu_finding_id = x3\<rparr>)
     (class_binding ''TransactionUnavailable'' (field_then ''transaction_id'' (str_binding ''TransactionId'')
     (field_then ''error_kind'' protocol_error_kind_binding (field_then ''finding_id'' (str_binding ''FindingId'')
     no_fields))))"

lemma represents_transaction_unavailable [binding_rules]: "represents TransactionUnavailable_wire transaction_unavailable_binding"
  unfolding TransactionUnavailable_wire_def transaction_unavailable_binding_def
  by (intro binding_rules represents_member domain_classes) auto

definition transaction_lookup_binding :: "transaction_lookup binding" where
  "transaction_lookup_binding = via
     (\<lambda>x. (tl_request_id x, tl_client_id x, tl_transaction_id x, ()))
     (\<lambda>(x1, x2, x3, _). \<lparr>tl_request_id = x1, tl_client_id = x2, tl_transaction_id = x3\<rparr>)
     (class_binding ''TransactionLookup'' (field_then ''request_id'' (str_binding ''RequestId'')
     (field_then ''client_id'' (str_binding ''ClientId'')
     (field_then ''transaction_id'' (str_binding ''TransactionId'') no_fields))))"

lemma represents_transaction_lookup [binding_rules]: "represents TransactionLookup_wire transaction_lookup_binding"
  unfolding TransactionLookup_wire_def transaction_lookup_binding_def
  by (intro binding_rules represents_member domain_classes) auto

definition subscription_request_binding :: "subscription_request binding" where
  "subscription_request_binding = via
     (\<lambda>x. (sr_client_id x, sr_subscription_id x, sr_expected_cursor x, sr_max_events x, ()))
     (\<lambda>(x1, x2, x3, x4, _). \<lparr>sr_client_id = x1, sr_subscription_id = x2, sr_expected_cursor = x3,
     sr_max_events = x4\<rparr>)
     (class_binding ''SubscriptionRequest'' (field_then ''client_id'' (str_binding ''ClientId'')
     (field_then ''subscription_id'' (optional_binding (str_binding ''SubscriptionId''))
     (field_then ''expected_cursor'' (optional_binding event_cursor_binding)
     (field_then ''max_events'' (int_binding ''EventBatchLimit'') no_fields)))))"

lemma represents_subscription_request [binding_rules]: "represents SubscriptionRequest_wire subscription_request_binding"
  unfolding SubscriptionRequest_wire_def subscription_request_binding_def
  by (intro binding_rules represents_member domain_classes) auto

definition bridge_event_binding :: "bridge_event binding" where
  "bridge_event_binding = via
     (\<lambda>x. (be_sequence x, be_kind x, be_receiver_id x, be_generation_id x, be_device_id x, be_lease_id x,
     be_transaction_id x, be_finding_id x, ()))
     (\<lambda>(x1, x2, x3, x4, x5, x6, x7, x8, _). \<lparr>be_sequence = x1, be_kind = x2, be_receiver_id = x3,
     be_generation_id = x4, be_device_id = x5, be_lease_id = x6, be_transaction_id = x7,
     be_finding_id = x8\<rparr>)
     (class_binding ''BridgeEvent'' (field_then ''sequence'' (int_binding ''SequenceNumber'')
     (field_then ''kind'' event_kind_binding
     (field_then ''receiver_id'' (optional_binding (str_binding ''ReceiverId''))
     (field_then ''generation_id'' (optional_binding (int_binding ''GenerationId''))
     (field_then ''device_id'' (optional_binding (str_binding ''LogicalDeviceId''))
     (field_then ''lease_id'' (optional_binding (str_binding ''LeaseId''))
     (field_then ''transaction_id'' (optional_binding (str_binding ''TransactionId''))
     (field_then ''finding_id'' (optional_binding (str_binding ''FindingId'')) no_fields)))))))))"

lemma represents_bridge_event [binding_rules]: "represents BridgeEvent_wire bridge_event_binding"
  unfolding BridgeEvent_wire_def bridge_event_binding_def
  by (intro binding_rules represents_member domain_classes) auto

definition event_batch_binding :: "event_batch binding" where
  "event_batch_binding = via
     (\<lambda>x. (eb_subscription_id x, eb_next_cursor x, eb_events x, eb_oldest_available x,
     eb_latest_available x, eb_dropped_events x, eb_cursor_gap x, eb_has_more x, ()))
     (\<lambda>(x1, x2, x3, x4, x5, x6, x7, x8, _). \<lparr>eb_subscription_id = x1, eb_next_cursor = x2,
     eb_events = x3, eb_oldest_available = x4, eb_latest_available = x5, eb_dropped_events = x6,
     eb_cursor_gap = x7, eb_has_more = x8\<rparr>)
     (class_binding ''EventBatch'' (field_then ''subscription_id'' (str_binding ''SubscriptionId'')
     (field_then ''next_cursor'' event_cursor_binding (field_then ''events'' (tuple_binding bridge_event_binding)
     (field_then ''oldest_available'' (int_binding ''SequenceNumber'')
     (field_then ''latest_available'' (int_binding ''SequenceNumber'')
     (field_then ''dropped_events'' (int_binding ''DroppedEventCount'') (field_then ''cursor_gap'' bool_binding
     (field_then ''has_more'' bool_binding no_fields)))))))))"

lemma represents_event_batch [binding_rules]: "represents EventBatch_wire event_batch_binding"
  unfolding EventBatch_wire_def event_batch_binding_def
  by (intro binding_rules represents_member domain_classes) auto

definition diagnostic_finding_binding :: "diagnostic_finding binding" where
  "diagnostic_finding_binding = via
     (\<lambda>x. (df_finding_id x, df_severity x, df_cause x, df_explanation x, df_safe_action x, df_privacy x,
     df_documentation x, ()))
     (\<lambda>(x1, x2, x3, x4, x5, x6, x7, _). \<lparr>df_finding_id = x1, df_severity = x2, df_cause = x3,
     df_explanation = x4, df_safe_action = x5, df_privacy = x6, df_documentation = x7\<rparr>)
     (class_binding ''DiagnosticFinding'' (field_then ''finding_id'' (str_binding ''FindingId'')
     (field_then ''severity'' error_severity_binding (field_then ''cause'' (str_binding ''HumanMessage'')
     (field_then ''explanation'' (str_binding ''HumanMessage'')
     (field_then ''safe_action'' (str_binding ''HumanMessage'') (field_then ''privacy'' privacy_class_binding
     (field_then ''documentation'' (str_binding ''DocumentationPath'') no_fields))))))))"

lemma represents_diagnostic_finding [binding_rules]: "represents DiagnosticFinding_wire diagnostic_finding_binding"
  unfolding DiagnosticFinding_wire_def diagnostic_finding_binding_def
  by (intro binding_rules represents_member domain_classes) auto

definition diagnostic_snapshot_binding :: "diagnostic_snapshot binding" where
  "diagnostic_snapshot_binding = via
     (\<lambda>x. (ds_sequence x, ds_findings x, ds_event_buffer_capacity x, ds_transaction_queue_capacity x, ()))
     (\<lambda>(x1, x2, x3, x4, _). \<lparr>ds_sequence = x1, ds_findings = x2, ds_event_buffer_capacity = x3,
     ds_transaction_queue_capacity = x4\<rparr>)
     (class_binding ''DiagnosticSnapshot'' (field_then ''sequence'' (int_binding ''SequenceNumber'')
     (field_then ''findings'' (tuple_binding diagnostic_finding_binding)
     (field_then ''event_buffer_capacity'' (int_binding ''QueueCapacity'')
     (field_then ''transaction_queue_capacity'' (int_binding ''QueueCapacity'') no_fields)))))"

lemma represents_diagnostic_snapshot [binding_rules]: "represents DiagnosticSnapshot_wire diagnostic_snapshot_binding"
  unfolding DiagnosticSnapshot_wire_def diagnostic_snapshot_binding_def
  by (intro binding_rules represents_member domain_classes) auto

definition profile_binding_view_binding :: "profile_binding_view binding" where
  "profile_binding_view_binding = via
     (\<lambda>x. (pb_profile_id x, pb_profile_digest x, ()))
     (\<lambda>(x1, x2, _). \<lparr>pb_profile_id = x1, pb_profile_digest = x2\<rparr>)
     (class_binding ''ProfileBindingView'' (field_then ''profile_id'' (str_binding ''ProfileId'')
     (field_then ''profile_digest'' (str_binding ''ProfileDigest'') no_fields)))"

lemma represents_profile_binding_view [binding_rules]: "represents ProfileBindingView_wire profile_binding_view_binding"
  unfolding ProfileBindingView_wire_def profile_binding_view_binding_def
  by (intro binding_rules represents_member domain_classes) auto

definition device_inventory_view_binding :: "device_inventory_view binding" where
  "device_inventory_view_binding = via
     (\<lambda>x. (div_device_id x, div_device_kind x, div_product_id x, div_profile x, div_model_name x,
     div_pairing x, div_presence x, div_availability x, div_support_level x, div_endpoints x, div_battery x,
     div_capabilities x, ()))
     (\<lambda>(x1, x2, x3, x4, x5, x6, x7, x8, x9, x10, x11, x12, _). \<lparr>div_device_id = x1,
     div_device_kind = x2, div_product_id = x3, div_profile = x4, div_model_name = x5, div_pairing = x6,
     div_presence = x7, div_availability = x8, div_support_level = x9, div_endpoints = x10, div_battery = x11,
     div_capabilities = x12\<rparr>)
     (class_binding ''DeviceInventoryView'' (field_then ''device_id'' (str_binding ''LogicalDeviceId'')
     (field_then ''device_kind'' device_kind_binding (field_then ''product_id'' (int_binding ''ProductId'')
     (field_then ''profile'' (optional_binding profile_binding_view_binding)
     (field_then ''model_name'' (optional_binding (str_binding ''ModelName''))
     (field_then ''pairing'' pairing_state_binding (field_then ''presence'' presence_state_binding
     (field_then ''availability'' inventory_availability_binding
     (field_then ''support_level'' support_level_binding
     (field_then ''endpoints'' (tuple_binding endpoint_snapshot_binding)
     (field_then ''battery'' battery_observation_binding
     (field_then ''capabilities'' (tuple_binding (str_binding ''CapabilityId'')) no_fields)))))))))))))"

lemma represents_device_inventory_view [binding_rules]: "represents DeviceInventoryView_wire device_inventory_view_binding"
  unfolding DeviceInventoryView_wire_def device_inventory_view_binding_def
  by (intro binding_rules represents_member domain_classes) auto

definition presentation_view_binding :: "presentation_view binding" where
  "presentation_view_binding = via
     (\<lambda>x. (pv_upstream_id x, pv_owner x, pv_project_version x, pv_source_revision x, pv_model_key x,
     pv_layout_key x, pv_transport_variant x, ()))
     (\<lambda>(x1, x2, x3, x4, x5, x6, x7, _). \<lparr>pv_upstream_id = x1, pv_owner = x2,
     pv_project_version = x3, pv_source_revision = x4, pv_model_key = x5, pv_layout_key = x6,
     pv_transport_variant = x7\<rparr>)
     (class_binding ''PresentationView'' (field_then ''upstream_id'' (str_binding ''UpstreamId'')
     (field_then ''owner'' (str_binding ''UpstreamOwner'')
     (field_then ''project_version'' (str_binding ''ComponentVersion'')
     (field_then ''source_revision'' (str_binding ''SourceRevision'')
     (field_then ''model_key'' (str_binding ''PresentationKey'')
     (field_then ''layout_key'' (optional_binding (str_binding ''PresentationKey''))
     (field_then ''transport_variant'' (str_binding ''TransportVariant'') no_fields))))))))"

lemma represents_presentation_view [binding_rules]: "represents PresentationView_wire presentation_view_binding"
  unfolding PresentationView_wire_def presentation_view_binding_def
  by (intro binding_rules represents_member domain_classes) auto

definition lighting_topology_view_binding :: "lighting_topology_view binding" where
  "lighting_topology_view_binding = via
     (\<lambda>x. (lt_physical_led_count x, lt_application_slot_count x, lt_rows x, lt_columns x, ()))
     (\<lambda>(x1, x2, x3, x4, _). \<lparr>lt_physical_led_count = x1, lt_application_slot_count = x2,
     lt_rows = x3, lt_columns = x4\<rparr>)
     (class_binding ''LightingTopologyView'' (field_then ''physical_led_count'' (int_binding ''LedCount'')
     (field_then ''application_slot_count'' (int_binding ''LedCount'')
     (field_then ''rows'' (int_binding ''LedCount'') (field_then ''columns'' (int_binding ''LedCount'')
     no_fields)))))"

lemma represents_lighting_topology_view [binding_rules]: "represents LightingTopologyView_wire lighting_topology_view_binding"
  unfolding LightingTopologyView_wire_def lighting_topology_view_binding_def
  by (intro binding_rules represents_member domain_classes) auto

definition unowned_controller_binding :: "unowned_controller binding" where
  "unowned_controller_binding = via
     (\<lambda>x. ())
     (\<lambda>_. UnownedController)
     (class_binding ''UnownedController'' no_fields)"

lemma represents_unowned_controller [binding_rules]: "represents UnownedController_wire unowned_controller_binding"
  unfolding UnownedController_wire_def unowned_controller_binding_def
  by (intro binding_rules) (simp_all, metis unowned_controller.exhaust)

definition viewer_owned_controller_binding :: "viewer_owned_controller binding" where
  "viewer_owned_controller_binding = via
     (\<lambda>x. (voc_lease_id x, voc_expires_at_ms x, ()))
     (\<lambda>(x1, x2, _). \<lparr>voc_lease_id = x1, voc_expires_at_ms = x2\<rparr>)
     (class_binding ''ViewerOwnedController'' (field_then ''lease_id'' (str_binding ''LeaseId'')
     (field_then ''expires_at_ms'' (int_binding ''MonotonicMs'') no_fields)))"

lemma represents_viewer_owned_controller [binding_rules]: "represents ViewerOwnedController_wire viewer_owned_controller_binding"
  unfolding ViewerOwnedController_wire_def viewer_owned_controller_binding_def
  by (intro binding_rules represents_member domain_classes) auto

definition other_owned_controller_binding :: "other_owned_controller binding" where
  "other_owned_controller_binding = via
     (\<lambda>x. (ooc_client_id x, ooc_lease_id x, ooc_expires_at_ms x, ()))
     (\<lambda>(x1, x2, x3, _). \<lparr>ooc_client_id = x1, ooc_lease_id = x2, ooc_expires_at_ms = x3\<rparr>)
     (class_binding ''OtherOwnedController'' (field_then ''client_id'' (str_binding ''ClientId'')
     (field_then ''lease_id'' (str_binding ''LeaseId'') (field_then ''expires_at_ms'' (int_binding ''MonotonicMs'')
     no_fields))))"

lemma represents_other_owned_controller [binding_rules]: "represents OtherOwnedController_wire other_owned_controller_binding"
  unfolding OtherOwnedController_wire_def other_owned_controller_binding_def
  by (intro binding_rules represents_member domain_classes) auto

definition controller_actions_binding :: "controller_actions binding" where
  "controller_actions_binding = via
     (\<lambda>x. (ca_can_acquire x, ca_can_release x, ca_can_submit_now x, ()))
     (\<lambda>(x1, x2, x3, _). \<lparr>ca_can_acquire = x1, ca_can_release = x2, ca_can_submit_now = x3\<rparr>)
     (class_binding ''ControllerActions'' (field_then ''can_acquire'' bool_binding
     (field_then ''can_release'' bool_binding (field_then ''can_submit_now'' bool_binding no_fields))))"

lemma represents_controller_actions [binding_rules]: "represents ControllerActions_wire controller_actions_binding"
  unfolding ControllerActions_wire_def controller_actions_binding_def
  by (intro binding_rules represents_member domain_classes) auto

definition rpc_error_binding :: "rpc_error binding" where
  "rpc_error_binding = via
     (\<lambda>x. (re_request_id x, re_kind x, re_message x, re_finding_id x, ()))
     (\<lambda>(x1, x2, x3, x4, _). \<lparr>re_request_id = x1, re_kind = x2, re_message = x3,
     re_finding_id = x4\<rparr>)
     (class_binding ''RpcError'' (field_then ''request_id'' (optional_binding (str_binding ''RequestId''))
     (field_then ''kind'' protocol_error_kind_binding (field_then ''message'' (str_binding ''HumanMessage'')
     (field_then ''finding_id'' (str_binding ''FindingId'') no_fields)))))"

lemma represents_rpc_error [binding_rules]: "represents RpcError_wire rpc_error_binding"
  unfolding RpcError_wire_def rpc_error_binding_def
  by (intro binding_rules represents_member domain_classes) auto

definition lease_result_binding :: "lease_result binding" where
  "lease_result_binding = via
     (\<lambda>x. case x of
        LeaseResultGranted d \<Rightarrow> Inl d
      | LeaseResultConflict d \<Rightarrow> Inr (Inl d)
      | LeaseResultRejected d \<Rightarrow> Inr (Inr d))
     (case_sum LeaseResultGranted (case_sum LeaseResultConflict LeaseResultRejected))
       (either_binding (tagged_binding ''LeaseResultGranted'' ''OUTCOME'' ''granted'' lease_grant_binding)
       (either_binding (tagged_binding ''LeaseResultConflict'' ''OUTCOME'' ''conflict'' lease_conflict_binding)
       (tagged_binding ''LeaseResultRejected'' ''OUTCOME'' ''rejected'' lease_rejection_binding)))"

lemma represents_lease_result [binding_rules]: "represents LeaseResult_wire lease_result_binding"
  unfolding LeaseResult_wire_def lease_result_binding_def
    LeaseResultGranted_wire_def LeaseResultConflict_wire_def LeaseResultRejected_wire_def
  by (intro binding_rules apart_rules) (simp_all split: lease_result.splits sum.splits)

definition transaction_result_binding :: "transaction_result binding" where
  "transaction_result_binding = via
     (\<lambda>x. case x of
        TransactionResultProgress d \<Rightarrow> Inl d
      | TransactionResultTerminal d \<Rightarrow> Inr (Inl d)
      | TransactionResultUnavailable d \<Rightarrow> Inr (Inr d))
     (case_sum TransactionResultProgress (case_sum TransactionResultTerminal TransactionResultUnavailable))
       (either_binding (tagged_binding ''TransactionResultProgress'' ''OUTCOME'' ''progress'' transaction_progress_binding)
       (either_binding (tagged_binding ''TransactionResultTerminal'' ''OUTCOME'' ''terminal'' transaction_terminal_binding)
       (tagged_binding ''TransactionResultUnavailable'' ''OUTCOME'' ''unavailable'' transaction_unavailable_binding)))"

lemma represents_transaction_result [binding_rules]: "represents TransactionResult_wire transaction_result_binding"
  unfolding TransactionResult_wire_def transaction_result_binding_def
    TransactionResultProgress_wire_def TransactionResultTerminal_wire_def TransactionResultUnavailable_wire_def
  by (intro binding_rules apart_rules) (simp_all split: transaction_result.splits sum.splits)

definition controller_ownership_binding :: "controller_ownership binding" where
  "controller_ownership_binding = via
     (\<lambda>x. case x of
        ControllerOwnershipUnowned d \<Rightarrow> Inl d
      | ControllerOwnershipOwnedByViewer d \<Rightarrow> Inr (Inl d)
      | ControllerOwnershipOwnedByOther d \<Rightarrow> Inr (Inr d))
     (case_sum ControllerOwnershipUnowned (case_sum ControllerOwnershipOwnedByViewer ControllerOwnershipOwnedByOther))
       (either_binding (tagged_binding ''ControllerOwnershipUnowned'' ''STATE'' ''unowned'' unowned_controller_binding)
       (either_binding (tagged_binding ''ControllerOwnershipOwnedByViewer'' ''STATE'' ''owned-by-viewer'' viewer_owned_controller_binding)
       (tagged_binding ''ControllerOwnershipOwnedByOther'' ''STATE'' ''owned-by-other'' other_owned_controller_binding)))"

lemma represents_controller_ownership [binding_rules]: "represents ControllerOwnership_wire controller_ownership_binding"
  unfolding ControllerOwnership_wire_def controller_ownership_binding_def
    ControllerOwnershipUnowned_wire_def ControllerOwnershipOwnedByViewer_wire_def ControllerOwnershipOwnedByOther_wire_def
  by (intro binding_rules apart_rules) (simp_all split: controller_ownership.splits sum.splits)

definition controller_view_binding :: "controller_view binding" where
  "controller_view_binding = via
     (\<lambda>x. (cv_receiver_id x, cv_generation_id x, cv_device_id x, cv_endpoint_id x, cv_device_kind x,
     cv_product_id x, cv_receiver_profile x, cv_device_profile x, cv_model_name x, cv_presentation x,
     cv_availability x, cv_battery x, cv_capabilities x, cv_lighting x, cv_resource x, cv_ownership x,
     cv_actions x, ()))
     (\<lambda>(x1, x2, x3, x4, x5, x6, x7, x8, x9, x10, x11, x12, x13, x14, x15, x16, x17, _).
     \<lparr>cv_receiver_id = x1, cv_generation_id = x2, cv_device_id = x3, cv_endpoint_id = x4,
     cv_device_kind = x5, cv_product_id = x6, cv_receiver_profile = x7, cv_device_profile = x8, cv_model_name = x9,
     cv_presentation = x10, cv_availability = x11, cv_battery = x12, cv_capabilities = x13, cv_lighting = x14,
     cv_resource = x15, cv_ownership = x16, cv_actions = x17\<rparr>)
     (class_binding ''ControllerView'' (field_then ''receiver_id'' (str_binding ''ReceiverId'')
     (field_then ''generation_id'' (int_binding ''GenerationId'')
     (field_then ''device_id'' (str_binding ''LogicalDeviceId'')
     (field_then ''endpoint_id'' (str_binding ''EndpointId'') (field_then ''device_kind'' device_kind_binding
     (field_then ''product_id'' (int_binding ''ProductId'')
     (field_then ''receiver_profile'' profile_binding_view_binding
     (field_then ''device_profile'' profile_binding_view_binding
     (field_then ''model_name'' (str_binding ''ModelName'') (field_then ''presentation'' presentation_view_binding
     (field_then ''availability'' controller_availability_binding
     (field_then ''battery'' battery_observation_binding
     (field_then ''capabilities'' (tuple_binding (str_binding ''CapabilityId''))
     (field_then ''lighting'' lighting_topology_view_binding (field_then ''resource'' resource_key_binding
     (field_then ''ownership'' controller_ownership_binding (field_then ''actions'' controller_actions_binding
     no_fields))))))))))))))))))"

lemma represents_controller_view [binding_rules]: "represents ControllerView_wire controller_view_binding"
  unfolding ControllerView_wire_def controller_view_binding_def
  by (intro binding_rules represents_member domain_classes) auto

definition integration_receiver_view_binding :: "integration_receiver_view binding" where
  "integration_receiver_view_binding = via
     (\<lambda>x. (irv_receiver_id x, irv_generation_id x, irv_profile x, irv_model_name x, irv_lifecycle x,
     irv_stable_restore_enabled x, irv_restore_state x, irv_inventory x, irv_controllers x, ()))
     (\<lambda>(x1, x2, x3, x4, x5, x6, x7, x8, x9, _). \<lparr>irv_receiver_id = x1, irv_generation_id = x2,
     irv_profile = x3, irv_model_name = x4, irv_lifecycle = x5, irv_stable_restore_enabled = x6,
     irv_restore_state = x7, irv_inventory = x8, irv_controllers = x9\<rparr>)
     (class_binding ''IntegrationReceiverView'' (field_then ''receiver_id'' (str_binding ''ReceiverId'')
     (field_then ''generation_id'' (int_binding ''GenerationId'')
     (field_then ''profile'' (optional_binding profile_binding_view_binding)
     (field_then ''model_name'' (optional_binding (str_binding ''ModelName''))
     (field_then ''lifecycle'' receiver_lifecycle_state_binding (field_then ''stable_restore_enabled'' bool_binding
     (field_then ''restore_state'' restore_state_binding
     (field_then ''inventory'' (tuple_binding device_inventory_view_binding)
     (field_then ''controllers'' (tuple_binding controller_view_binding) no_fields))))))))))"

lemma represents_integration_receiver_view [binding_rules]: "represents IntegrationReceiverView_wire integration_receiver_view_binding"
  unfolding IntegrationReceiverView_wire_def integration_receiver_view_binding_def
  by (intro binding_rules represents_member domain_classes) auto

definition integration_view_binding :: "integration_view binding" where
  "integration_view_binding = via
     (\<lambda>x. (iv_cursor x, iv_receivers x, ()))
     (\<lambda>(x1, x2, _). \<lparr>iv_cursor = x1, iv_receivers = x2\<rparr>)
     (class_binding ''IntegrationView'' (field_then ''cursor'' event_cursor_binding
     (field_then ''receivers'' (tuple_binding integration_receiver_view_binding) no_fields)))"

lemma represents_integration_view [binding_rules]: "represents IntegrationView_wire integration_view_binding"
  unfolding IntegrationView_wire_def integration_view_binding_def
  by (intro binding_rules represents_member domain_classes) auto

definition negotiation_request_envelope_binding :: "negotiation_request_envelope binding" where
  "negotiation_request_envelope_binding = via
     (\<lambda>x. (nre_request_id x, nre_params x, ()))
     (\<lambda>(x1, x2, _). \<lparr>nre_request_id = x1, nre_params = x2\<rparr>)
     (class_binding ''NegotiationRequestEnvelope'' (field_then ''request_id'' (str_binding ''RequestId'')
     (field_then ''params'' client_hello_binding no_fields)))"

lemma represents_negotiation_request_envelope [binding_rules]: "represents NegotiationRequestEnvelope_wire negotiation_request_envelope_binding"
  unfolding NegotiationRequestEnvelope_wire_def negotiation_request_envelope_binding_def
  by (intro binding_rules represents_member domain_classes) auto

definition session_request_envelope_binding :: "'p binding \<Rightarrow> 'p session_request_envelope binding" where
  "session_request_envelope_binding p = via
     (\<lambda>x. (sre_request_id x, sre_protocol_session_id x, sre_negotiation_token x, sre_params x, ()))
     (\<lambda>(x1, x2, x3, x4, _). \<lparr>sre_request_id = x1, sre_protocol_session_id = x2,
     sre_negotiation_token = x3, sre_params = x4\<rparr>)
     (class_binding ''SessionRequestEnvelope'' (field_then ''request_id'' (str_binding ''RequestId'')
     (field_then ''protocol_session_id'' (str_binding ''ProtocolSessionId'')
     (field_then ''negotiation_token'' (str_binding ''NegotiationToken'') (field_then ''params'' p no_fields)))))"

lemma represents_session_request_envelope [binding_rules]:
  "represents t p \<Longrightarrow> represents (SessionRequestEnvelope_wire t) (session_request_envelope_binding p)"
  unfolding SessionRequestEnvelope_wire_def session_request_envelope_binding_def
  by (intro binding_rules represents_member domain_classes) auto

definition rpc_request_binding :: "rpc_request binding" where
  "rpc_request_binding = via
     (\<lambda>x. case x of
        RpcRequestNegotiate d \<Rightarrow> Inl d
      | RpcRequestSnapshot d \<Rightarrow> Inr (Inl d)
      | RpcRequestIntegrationView d \<Rightarrow> Inr (Inr (Inl d))
      | RpcRequestAcquireLease d \<Rightarrow> Inr (Inr (Inr (Inl d)))
      | RpcRequestRenewLease d \<Rightarrow> Inr (Inr (Inr (Inr (Inl d))))
      | RpcRequestReleaseLease d \<Rightarrow> Inr (Inr (Inr (Inr (Inr (Inl d)))))
      | RpcRequestSubmitTransaction d \<Rightarrow> Inr (Inr (Inr (Inr (Inr (Inr (Inl d))))))
      | RpcRequestTransactionOutcome d \<Rightarrow> Inr (Inr (Inr (Inr (Inr (Inr (Inr (Inl d)))))))
      | RpcRequestSubscribe d \<Rightarrow> Inr (Inr (Inr (Inr (Inr (Inr (Inr (Inr (Inl d))))))))
      | RpcRequestDiagnostics d \<Rightarrow> Inr (Inr (Inr (Inr (Inr (Inr (Inr (Inr (Inr d)))))))))
     (case_sum RpcRequestNegotiate (case_sum RpcRequestSnapshot (case_sum RpcRequestIntegrationView (case_sum RpcRequestAcquireLease (case_sum RpcRequestRenewLease (case_sum RpcRequestReleaseLease (case_sum RpcRequestSubmitTransaction (case_sum RpcRequestTransactionOutcome (case_sum RpcRequestSubscribe RpcRequestDiagnostics)))))))))
       (either_binding (tagged_binding ''RpcRequestNegotiate'' ''METHOD'' ''negotiate'' negotiation_request_envelope_binding)
       (either_binding (tagged_binding ''RpcRequestSnapshot'' ''METHOD'' ''snapshot'' (session_request_envelope_binding empty_request_binding))
       (either_binding (tagged_binding ''RpcRequestIntegrationView'' ''METHOD'' ''integration-view'' (session_request_envelope_binding empty_request_binding))
       (either_binding (tagged_binding ''RpcRequestAcquireLease'' ''METHOD'' ''acquire-lease'' (session_request_envelope_binding lease_request_binding))
       (either_binding (tagged_binding ''RpcRequestRenewLease'' ''METHOD'' ''renew-lease'' (session_request_envelope_binding renew_lease_request_binding))
       (either_binding (tagged_binding ''RpcRequestReleaseLease'' ''METHOD'' ''release-lease'' (session_request_envelope_binding release_lease_request_binding))
       (either_binding (tagged_binding ''RpcRequestSubmitTransaction'' ''METHOD'' ''submit-transaction'' (session_request_envelope_binding transaction_request_binding))
       (either_binding (tagged_binding ''RpcRequestTransactionOutcome'' ''METHOD'' ''transaction-outcome'' (session_request_envelope_binding transaction_lookup_binding))
       (either_binding (tagged_binding ''RpcRequestSubscribe'' ''METHOD'' ''subscribe'' (session_request_envelope_binding subscription_request_binding))
       (tagged_binding ''RpcRequestDiagnostics'' ''METHOD'' ''diagnostics'' (session_request_envelope_binding empty_request_binding)))))))))))"

lemma represents_rpc_request [binding_rules]: "represents RpcRequest_wire rpc_request_binding"
  unfolding RpcRequest_wire_def rpc_request_binding_def
    RpcRequestNegotiate_wire_def RpcRequestSnapshot_wire_def RpcRequestIntegrationView_wire_def RpcRequestAcquireLease_wire_def RpcRequestRenewLease_wire_def RpcRequestReleaseLease_wire_def RpcRequestSubmitTransaction_wire_def RpcRequestTransactionOutcome_wire_def RpcRequestSubscribe_wire_def RpcRequestDiagnostics_wire_def
  by (intro binding_rules apart_rules) (simp_all split: rpc_request.splits sum.splits)

definition success_envelope_binding :: "'p binding \<Rightarrow> 'p success_envelope binding" where
  "success_envelope_binding p = via
     (\<lambda>x. (se_request_id x, se_server_instance_id x, se_result x, ()))
     (\<lambda>(x1, x2, x3, _). \<lparr>se_request_id = x1, se_server_instance_id = x2, se_result = x3\<rparr>)
     (class_binding ''SuccessEnvelope'' (field_then ''request_id'' (str_binding ''RequestId'')
     (field_then ''server_instance_id'' (str_binding ''ServerInstanceId'') (field_then ''result'' p no_fields))))"

lemma represents_success_envelope [binding_rules]:
  "represents t p \<Longrightarrow> represents (SuccessEnvelope_wire t) (success_envelope_binding p)"
  unfolding SuccessEnvelope_wire_def success_envelope_binding_def
  by (intro binding_rules represents_member domain_classes) auto

definition error_envelope_binding :: "error_envelope binding" where
  "error_envelope_binding = via
     (\<lambda>x. (ee_request_id x, ee_server_instance_id x, ee_error x, ()))
     (\<lambda>(x1, x2, x3, _). \<lparr>ee_request_id = x1, ee_server_instance_id = x2, ee_error = x3\<rparr>)
     (class_binding ''ErrorEnvelope'' (field_then ''request_id'' (optional_binding (str_binding ''RequestId''))
     (field_then ''server_instance_id'' (str_binding ''ServerInstanceId'') (field_then ''error'' rpc_error_binding
     no_fields))))"

lemma represents_error_envelope [binding_rules]: "represents ErrorEnvelope_wire error_envelope_binding"
  unfolding ErrorEnvelope_wire_def error_envelope_binding_def
  by (intro binding_rules represents_member domain_classes) auto

lemma apart_error_envelope [apart_rules]:
  "snd (tagged_binding cls attribute tag p) (fst error_envelope_binding y) = None"
  unfolding error_envelope_binding_def by (intro apart_rules)

definition rpc_response_binding :: "rpc_response binding" where
  "rpc_response_binding = via
     (\<lambda>x. case x of
        RpcResponseNegotiateSuccess d \<Rightarrow> Inl d
      | RpcResponseSnapshotSuccess d \<Rightarrow> Inr (Inl d)
      | RpcResponseIntegrationViewSuccess d \<Rightarrow> Inr (Inr (Inl d))
      | RpcResponseAcquireLeaseSuccess d \<Rightarrow> Inr (Inr (Inr (Inl d)))
      | RpcResponseRenewLeaseSuccess d \<Rightarrow> Inr (Inr (Inr (Inr (Inl d))))
      | RpcResponseReleaseLeaseSuccess d \<Rightarrow> Inr (Inr (Inr (Inr (Inr (Inl d)))))
      | RpcResponseSubmitTransactionSuccess d \<Rightarrow> Inr (Inr (Inr (Inr (Inr (Inr (Inl d))))))
      | RpcResponseTransactionOutcomeSuccess d \<Rightarrow> Inr (Inr (Inr (Inr (Inr (Inr (Inr (Inl d)))))))
      | RpcResponseSubscribeSuccess d \<Rightarrow> Inr (Inr (Inr (Inr (Inr (Inr (Inr (Inr (Inl d))))))))
      | RpcResponseDiagnosticsSuccess d \<Rightarrow> Inr (Inr (Inr (Inr (Inr (Inr (Inr (Inr (Inr (Inl d)))))))))
      | RpcResponseError d \<Rightarrow> Inr (Inr (Inr (Inr (Inr (Inr (Inr (Inr (Inr (Inr d))))))))))
     (case_sum RpcResponseNegotiateSuccess (case_sum RpcResponseSnapshotSuccess (case_sum RpcResponseIntegrationViewSuccess (case_sum RpcResponseAcquireLeaseSuccess (case_sum RpcResponseRenewLeaseSuccess (case_sum RpcResponseReleaseLeaseSuccess (case_sum RpcResponseSubmitTransactionSuccess (case_sum RpcResponseTransactionOutcomeSuccess (case_sum RpcResponseSubscribeSuccess (case_sum RpcResponseDiagnosticsSuccess RpcResponseError))))))))))
       (either_binding (tagged_binding ''RpcResponseNegotiateSuccess'' ''TYPE'' ''negotiate-success'' (success_envelope_binding server_hello_binding))
       (either_binding (tagged_binding ''RpcResponseSnapshotSuccess'' ''TYPE'' ''snapshot-success'' (success_envelope_binding bridge_snapshot_binding))
       (either_binding (tagged_binding ''RpcResponseIntegrationViewSuccess'' ''TYPE'' ''integration-view-success'' (success_envelope_binding integration_view_binding))
       (either_binding (tagged_binding ''RpcResponseAcquireLeaseSuccess'' ''TYPE'' ''acquire-lease-success'' (success_envelope_binding lease_result_binding))
       (either_binding (tagged_binding ''RpcResponseRenewLeaseSuccess'' ''TYPE'' ''renew-lease-success'' (success_envelope_binding lease_result_binding))
       (either_binding (tagged_binding ''RpcResponseReleaseLeaseSuccess'' ''TYPE'' ''release-lease-success'' (success_envelope_binding lease_result_binding))
       (either_binding (tagged_binding ''RpcResponseSubmitTransactionSuccess'' ''TYPE'' ''submit-transaction-success'' (success_envelope_binding transaction_result_binding))
       (either_binding (tagged_binding ''RpcResponseTransactionOutcomeSuccess'' ''TYPE'' ''transaction-outcome-success'' (success_envelope_binding transaction_result_binding))
       (either_binding (tagged_binding ''RpcResponseSubscribeSuccess'' ''TYPE'' ''subscribe-success'' (success_envelope_binding event_batch_binding))
       (either_binding (tagged_binding ''RpcResponseDiagnosticsSuccess'' ''TYPE'' ''diagnostics-success'' (success_envelope_binding diagnostic_snapshot_binding))
       error_envelope_binding))))))))))"

lemma represents_rpc_response [binding_rules]: "represents RpcResponse_wire rpc_response_binding"
  unfolding RpcResponse_wire_def rpc_response_binding_def
    RpcResponseNegotiateSuccess_wire_def RpcResponseSnapshotSuccess_wire_def RpcResponseIntegrationViewSuccess_wire_def RpcResponseAcquireLeaseSuccess_wire_def RpcResponseRenewLeaseSuccess_wire_def RpcResponseReleaseLeaseSuccess_wire_def RpcResponseSubmitTransactionSuccess_wire_def RpcResponseTransactionOutcomeSuccess_wire_def RpcResponseSubscribeSuccess_wire_def RpcResponseDiagnosticsSuccess_wire_def
  by (intro binding_rules apart_rules) (simp_all split: rpc_response.splits sum.splits)

section \<open>Messages through the codec\<close>

text \<open>
  A message type with a binding: what the clients rely on.  A record whose value has the type comes back
  from its encoded form, and whatever is decoded is a record.
\<close>

locale message_type =
  fixes t :: wire_type and p :: "'a binding"
  assumes bound: "represents t p"
    and restored: "round_trip_type False t"
    and shallow: "wire_depth t \<le> MAX_JSON_DEPTH"
begin

lemma decoded_is_record:
  assumes "decode_message loads t payload = Inr v"
  shows "\<exists>x. v = fst p x \<and> snd p v = Some x"
proof -
  have "typed t v" using assms from_wire_typed by (auto simp: decode_message_Inr)
  then show ?thesis using representsD(1,3) [OF bound] by metis
qed

lemma record_comes_back:
  assumes "typed t (fst p x)" and "encode_message dumps (fst p x) = Inr payload"
    and "json_reads_back dumps loads (sort_keys (wire_of (fst p x)))"
  shows "decode_message loads t payload = Inr (fst p x)"
  using encoded_message_comes_back [OF assms(1) restored shallow assms(2,3)] .

end

lemma messages_are_shallow:
  "wire_depth RpcRequest_wire \<le> MAX_JSON_DEPTH" "wire_depth RpcResponse_wire \<le> MAX_JSON_DEPTH"
  by code_simp+

interpretation rpc_requests: message_type RpcRequest_wire rpc_request_binding
  by unfold_locales (rule represents_rpc_request request_round_trip_type messages_are_shallow)+

interpretation rpc_responses: message_type RpcResponse_wire rpc_response_binding
  by unfold_locales (rule represents_rpc_response response_round_trip_type messages_are_shallow)+

section \<open>The Unix channel of a client\<close>

text \<open>
  The Unix channels of a process, by number, as the \<open>RpcChannel\<close> the clients use: \<open>exchange\<close> on the values of the
  message objects.  The clients' \<open>close\<close> has no exception; here it is that of a channel whose socket closes.
\<close>

definition unix_rpc ::
  "(nat \<Rightarrow> 'w socket_os) \<Rightarrow> (json \<Rightarrow> nat list) \<Rightarrow> (nat list \<Rightarrow> load_result) \<Rightarrow> ((nat \<Rightarrow> unix_rpc_channel) \<times> 'w) rpc_channel" where
  "unix_rpc os dumps loads =
     \<lparr>op_exchange = (\<lambda>n request (chs, w).
        let (r, w') = exchange (os n) dumps loads (chs n) (fst rpc_request_binding request) w
        in (map_sum id (\<lambda>v. the (snd rpc_response_binding v)) r, chs, w')),
      op_close = (\<lambda>n (chs, w). let (_, ch, w') = close_channel (os n) (chs n, w) in (chs(n := ch), w'))\<rparr>"

text \<open>What an exchange returns is the value of a response object, so the object is always there.\<close>

lemma exchange_is_record:
  assumes "exchange os dumps loads ch request w = (Inr v, w')"
  shows "v = fst rpc_response_binding (the (snd rpc_response_binding v))"
proof -
  obtain payload where "decode_message loads RpcResponse_wire payload = Inr v"
    using assms by (auto simp: exchange_def io_bind_Inr split: if_splits)
  from rpc_responses.decoded_is_record [OF this] show ?thesis by force
qed

text \<open>
  A bridge that answers: the request can be encoded and sent, and then the bytes that arrive on the socket are the frame
  of the encoded response, followed by \<open>rest\<close>.
\<close>

definition bridge_answers ::
  "'w socket_os \<Rightarrow> (json \<Rightarrow> nat list) \<Rightarrow> ('w \<Rightarrow> nat list) \<Rightarrow> rpc_request \<Rightarrow> rpc_response \<Rightarrow> 'w \<Rightarrow> nat list \<Rightarrow> bool" where
  "bridge_answers os dumps pending request response s rest \<longleftrightarrow>
     (\<exists>payload answer s1. encode_message dumps (fst rpc_request_binding request) = Inr payload
        \<and> os_sendall os (pack_length (length payload) @ payload) s = (Inr (), s1)
        \<and> encode_message dumps (fst rpc_response_binding response) = Inr answer
        \<and> pending s1 = pack_length (length answer) @ answer @ rest)"

lemma exchange_delivers:
  assumes "ch_connected ch" and "delivers (os_recv os) pending"
    and "bridge_answers os dumps pending request response s rest"
    and "typed RpcResponse_wire (fst rpc_response_binding response)"
    and "json_reads_back dumps loads (sort_keys (wire_of (fst rpc_response_binding response)))"
  shows "\<exists>s2. exchange os dumps loads ch (fst rpc_request_binding request) s = (Inr (fst rpc_response_binding response), s2)
     \<and> pending s2 = rest"
proof -
  obtain payload answer s1 where sent: "encode_message dumps (fst rpc_request_binding request) = Inr payload"
      "os_sendall os (pack_length (length payload) @ payload) s = (Inr (), s1)"
    and answer: "encode_message dumps (fst rpc_response_binding response) = Inr answer"
      "pending s1 = pack_length (length answer) @ answer @ rest"
    using assms(3) unfolding bridge_answers_def by blast
  have decoded: "decode_message loads RpcResponse_wire answer = Inr (fst rpc_response_binding response)"
    by (rule rpc_responses.record_comes_back [OF assms(4) answer(1) assms(5)])
  then have "0 < length answer" "length answer \<le> MAX_WIRE_MESSAGE_BYTES" by (auto simp: decode_message_Inr)
  from exchange_reads_one_frame [OF assms(1) sent assms(2) answer(2) this, of loads] decoded show ?thesis by simp
qed

lemma unix_rpc_delivers:
  assumes "ch_connected (chs n)" and "delivers (os_recv (os n)) pending"
    and "bridge_answers (os n) dumps pending request response s rest"
    and "typed RpcResponse_wire (fst rpc_response_binding response)"
    and "json_reads_back dumps loads (sort_keys (wire_of (fst rpc_response_binding response)))"
  shows "\<exists>s2. op_exchange (unix_rpc os dumps loads) n request (chs, s) = (Inr response, chs, s2) \<and> pending s2 = rest"
  using exchange_delivers [OF assms] representsD(1) [OF represents_rpc_response]
  by (auto simp: unix_rpc_def)

text \<open>
  C37. A response reaches the client.  The bridge answers with the frame of the encoded form of a response of
  the protocol, whatever its class, its fields in the sorted order in which \<open>encode_message\<close> writes them,
  and \<open>json.loads\<close> reads the text of this document.  Then the client's exchange returns this very
  response object, however the socket cuts the bytes, and the next exchange starts behind the frame.
\<close>

theorem response_reaches_client:
  assumes "net w = (chs, s)" and "ch_connected (chs n)" and "delivers (os_recv (os n)) pending"
    and "bridge_answers (os n) dumps pending request response s rest"
    and "typed RpcResponse_wire (fst rpc_response_binding response)"
    and "json_reads_back dumps loads (sort_keys (wire_of (fst rpc_response_binding response)))"
  shows "\<exists>s2. channel_exchange (unix_rpc os dumps loads) n request w
      = (Inr response, w\<lparr>net := (chs, s2), sent := sent w @ [(n, request)]\<rparr>) \<and> pending s2 = rest"
proof -
  obtain s2 where "op_exchange (unix_rpc os dumps loads) n request (net w) = (Inr response, chs, s2)" "pending s2 = rest"
    using unix_rpc_delivers [where n = n and os = os and chs = chs, OF assms(2-6)] assms(1) by auto
  then show ?thesis by (intro exI [of _ s2]) (simp add: channel_exchange_def)
qed

text \<open>A refused request, with the text the bridge sends for it.\<close>

definition refused_request :: rpc_request where
  "refused_request = RpcRequestSnapshot \<lparr>sre_request_id = ''41'', sre_protocol_session_id = ''7'',
     sre_negotiation_token = replicate 64 CHR ''a'', sre_params = EmptyRequest\<rparr>"

definition refusal :: rpc_response where
  "refusal = RpcResponseError \<lparr>ee_request_id = None, ee_server_instance_id = ''b1'',
     ee_error = \<lparr>re_request_id = None, re_kind = ProtocolErrorKind_QUEUE_FULL, re_message = ''full'',
       re_finding_id = ''HFX-1''\<rparr>\<rparr>"

definition refusal_document :: json where
  "refusal_document = JObj [(''response'', JObj [(''error'', JObj [(''finding_id'', JStr ''HFX-1''), (''kind'', JStr ''queue-full''),
        (''message'', JStr ''full''), (''request_id'', JNull)]), (''request_id'', JNull), (''server_instance_id'', JStr ''b1'')]),
     (''type'', JStr ''error'')]"

definition refusal_text :: "nat list" where
  "refusal_text = map of_char (''{\"response\":{\"error\":{\"finding_id\":\"HFX-1\",\"kind\":\"queue-full\",\"message\":\"full\",\"request_id\":null},''
     @ ''\"request_id\":null,\"server_instance_id\":\"b1\"},\"type\":\"error\"}'')"

text \<open>The part of \<open>json\<close> the example needs: one document and its text.\<close>

definition one_dumps :: "json \<Rightarrow> nat list \<Rightarrow> json \<Rightarrow> nat list" where
  "one_dumps document text j = (if j = document then text else [123, 125])"

definition one_loads :: "json \<Rightarrow> nat list \<Rightarrow> nat list \<Rightarrow> load_result" where
  "one_loads document text payload = (if payload = text then Loaded (parsed_of document) else Malformed [])"

lemma one_reads_back: "text \<noteq> [] \<Longrightarrow> json_reads_back (one_dumps document text) (one_loads document text) document"
  by (simp add: json_reads_back_def one_dumps_def one_loads_def)

lemma encode_one:
  assumes "\<not> isl (to_wire v)" and "length text \<le> 1000"
  shows "encode_message (one_dumps document text) v = Inr (one_dumps document text (sort_keys (wire_of v)))"
  using assms by (cases "to_wire v") (auto simp: encode_message_def wire_of_def one_dumps_def MAX_WIRE_MESSAGE_BYTES_def Let_def)

lemma byte_socket_delivers: "delivers (os_recv byte_socket) (\<lambda>w. w)"
  by (auto simp: delivers_def byte_socket_def neq_Nil_conv)

lemma byte_socket_answers:
  assumes "\<not> isl (to_wire (fst rpc_request_binding request))" and "\<not> isl (to_wire (fst rpc_response_binding response))"
    and "length text \<le> 1000" and "sort_keys (wire_of (fst rpc_response_binding response)) = document"
  shows "bridge_answers byte_socket (one_dumps document text) (\<lambda>w. w) request response (pack_length (length text) @ text @ rest) rest"
  using encode_one [OF assms(1,3)] encode_one [OF assms(2,3)] assms(4)
  by (simp add: bridge_answers_def byte_socket_def one_dumps_def)

lemma refusal_encoded:
  "rbind (to_wire (fst rpc_response_binding refusal)) (from_wire RpcResponse_wire) = Inr (fst rpc_response_binding refusal)"
  "sort_keys (wire_of (fst rpc_response_binding refusal)) = refusal_document"
  "\<not> isl (to_wire (fst rpc_response_binding refusal))"
  "\<not> isl (to_wire (fst rpc_request_binding refused_request))"
  "length refusal_text \<le> 1000" "refusal_text \<noteq> []"
  by code_simp+

definition refused_world :: "((nat \<Rightarrow> unix_rpc_channel) \<times> nat list) world" where
  "refused_world = \<lparr>net = (\<lambda>_. \<lparr>ch_connected = True\<rparr>, pack_length (length refusal_text) @ refusal_text @ [7]), sent = [], closed = [],
     identities = \<lparr>id_prefix = ''p'', id_request = 0, id_transaction = 0\<rparr>\<rparr>"

theorem response_reaches_client_witness:
  "\<exists>s2. channel_exchange (unix_rpc (\<lambda>_. byte_socket) (one_dumps refusal_document refusal_text) (one_loads refusal_document refusal_text))
       3 refused_request refused_world
     = (Inr refusal, refused_world\<lparr>net := (\<lambda>_. \<lparr>ch_connected = True\<rparr>, s2), sent := [(3, refused_request)]\<rparr>) \<and> s2 = [7]"
proof -
  have typed: "typed RpcResponse_wire (fst rpc_response_binding refusal)"
    using refusal_encoded(1) from_wire_typed by (auto simp: rbind_Inr_iff)
  have net: "net refused_world = (\<lambda>_. \<lparr>ch_connected = True\<rparr>, pack_length (length refusal_text) @ refusal_text @ [7])"
    by (simp add: refused_world_def)
  have reads: "json_reads_back (one_dumps refusal_document refusal_text) (one_loads refusal_document refusal_text)
      (sort_keys (wire_of (fst rpc_response_binding refusal)))"
    unfolding refusal_encoded(2) by (rule one_reads_back [OF refusal_encoded(6)])
  from response_reaches_client [OF net _ byte_socket_delivers
      byte_socket_answers [OF refusal_encoded(4,3,5,2), of "[7]"] typed reads, of 3]
  show ?thesis by (simp add: refused_world_def)
qed

end
