(* ===== verification/Schema_Subset.thy ===== *)
theory Schema_Subset
  imports Prelude
begin

text \<open>
  The JSON Schema checker of \<open>src/tools/hfxdev/schema_subset.py\<close>: the keyword check of a schema,
  the validation of a value, and the JSON Schema semantics of the keywords it supports.

  A schema is a decoded document, as in the source: what Python does with a keyword argument of an
  unexpected type is a branch of the model.  Python's \<open>re.search\<close> is the parameter \<open>rx\<close>, which gives
  \<open>None\<close> where the pattern does not compile.  \<open>validate_node\<close> recurses through references, which may
  be cyclic, so it takes the depth left; at depth 0 it raises \<open>RecursionError\<close>, as Python does.
\<close>

section \<open>Exceptions and Python values\<close>

datatype schema_exn =
    SchemaViolation string
  | SchemaError model_error
  | ReError
  | RecursionError

definition is_violation :: "schema_exn + unit \<Rightarrow> bool" where
  "is_violation r = (case r of Inl (SchemaViolation _) \<Rightarrow> True | _ \<Rightarrow> False)"

type_synonym regex_search = "string \<Rightarrow> string \<Rightarrow> bool option"

fun occurs_in :: "string \<Rightarrow> string \<Rightarrow> bool" where
  "occurs_in p [] \<longleftrightarrow> p = []"
| "occurs_in p (c # cs) \<longleftrightarrow> prefix_of p (c # cs) \<or> occurs_in p cs"

text \<open>\<open>key in value\<close>, \<open>value[key]\<close>, \<open>value.get(key, default)\<close> and iteration, on any decoded value.\<close>

fun py_in :: "string \<Rightarrow> json \<Rightarrow> schema_exn + bool" where
  "py_in k (JObj kvs) = Inr (k \<in> set (map fst kvs))"
| "py_in k (JStr s) = Inr (occurs_in k s)"
| "py_in k (JArr xs) = Inr (JStr k \<in> set xs)"
| "py_in k _ = Inl (SchemaError TypeError)"

fun py_getitem :: "json \<Rightarrow> string \<Rightarrow> schema_exn + json" where
  "py_getitem (JObj kvs) k = (case map_of kvs k of None \<Rightarrow> Inl (SchemaError (KeyError k)) | Some v \<Rightarrow> Inr v)"
| "py_getitem _ k = Inl (SchemaError TypeError)"

fun py_get :: "json \<Rightarrow> string \<Rightarrow> json \<Rightarrow> schema_exn + json" where
  "py_get (JObj kvs) k d = Inr (case map_of kvs k of None \<Rightarrow> d | Some v \<Rightarrow> v)"
| "py_get _ k d = Inl (SchemaError AttributeError)"

fun py_iter :: "json \<Rightarrow> schema_exn + json list" where
  "py_iter (JArr xs) = Inr xs"
| "py_iter (JObj kvs) = Inr (map (\<lambda>(k, _). JStr k) kvs)"
| "py_iter (JStr s) = Inr (map (\<lambda>c. JStr [c]) s)"
| "py_iter _ = Inl (SchemaError TypeError)"

fun py_truth :: "json \<Rightarrow> bool" where
  "py_truth JNull = False"
| "py_truth (JBool b) = b"
| "py_truth (JInt n) \<longleftrightarrow> n \<noteq> 0"
| "py_truth (JFloat q) \<longleftrightarrow> q \<noteq> 0"
| "py_truth (JStr s) \<longleftrightarrow> s \<noteq> []"
| "py_truth (JArr xs) \<longleftrightarrow> xs \<noteq> []"
| "py_truth (JObj kvs) \<longleftrightarrow> kvs \<noteq> []"

text \<open>A number in a comparison; Python compares a \<open>bool\<close> as 0 or 1.\<close>

fun py_number :: "json \<Rightarrow> schema_exn + rat" where
  "py_number (JInt n) = Inr (of_int n)"
| "py_number (JFloat q) = Inr q"
| "py_number (JBool b) = Inr (if b then 1 else 0)"
| "py_number _ = Inl (SchemaError TypeError)"

section \<open>The keyword check\<close>

definition SUPPORTED_KEYWORDS :: "string list" where
  "SUPPORTED_KEYWORDS = [''$defs'', ''$id'', ''$ref'', ''$schema'', ''additionalProperties'', ''const'',
     ''description'', ''enum'', ''format'', ''items'', ''maxItems'', ''maxLength'', ''maximum'', ''minItems'',
     ''minLength'', ''minimum'', ''oneOf'', ''pattern'', ''properties'', ''required'', ''title'', ''type'',
     ''uniqueItems'']"

abbreviation schema_error :: "string \<Rightarrow> schema_exn" where
  "schema_error m \<equiv> SchemaError (ModelError m)"

lemma json_size_obj_child: "map_of kvs k = Some (JObj cs) \<Longrightarrow> (n, c) \<in> set cs \<Longrightarrow> size c < size (JObj kvs)"
  using json_size_item [of kvs k "JObj cs"] json_size_obj [of n c cs] by simp

lemma json_size_arr_child: "map_of kvs k = Some (JArr cs) \<Longrightarrow> (i, c) \<in> set (enumerate n cs) \<Longrightarrow> size c < size (JObj kvs)"
proof -
  assume a: "map_of kvs k = Some (JArr cs)" "(i, c) \<in> set (enumerate n cs)"
  then have "c \<in> set cs" by (metis enumerate_eq_zip set_zip_rightD)
  with a(1) show ?thesis using json_size_item [of kvs k "JArr cs"] json_size_arr [of c cs] by simp
qed

lemmas json_sizes = json_size_item [simplified] json_size_obj_child [simplified] json_size_arr_child [simplified]

function check_keywords :: "json \<Rightarrow> string \<Rightarrow> schema_exn + unit" where
  "check_keywords node location =
     (case node of
        JObj kvs \<Rightarrow>
          let unknown = unknown_keys kvs SUPPORTED_KEYWORDS
          in if unknown \<noteq> []
             then Inl (schema_error (''schema '' @ location @ '' uses unsupported keywords: '' @ join '', '' unknown))
             else
               rbind (each (\<lambda>key.
                   case map_of kvs key of
                     None \<Rightarrow> Inr ()
                   | Some (JObj children) \<Rightarrow>
                       each (\<lambda>(name, child). check_keywords child (location @ ''/'' @ key @ ''/'' @ name)) children
                   | Some _ \<Rightarrow> Inl (schema_error (''schema '' @ location @ ''/'' @ key @ '' must be an object'')))
                 [''properties'', ''$defs'']) (\<lambda>_.
               rbind (case map_of kvs ''items'' of
                   None \<Rightarrow> Inr ()
                 | Some child \<Rightarrow> check_keywords child (location @ ''/items'')) (\<lambda>_.
               rbind (case map_of kvs ''additionalProperties'' of
                   None \<Rightarrow> Inr ()
                 | Some child \<Rightarrow> if is_bool child then Inr ()
                     else check_keywords child (location @ ''/additionalProperties'')) (\<lambda>_.
               case map_of kvs ''oneOf'' of
                 None \<Rightarrow> Inr ()
               | Some (JArr children) \<Rightarrow>
                   each (\<lambda>(index, child). check_keywords child (location @ ''/oneOf/'' @ str_nat index))
                     (enumerate 0 children)
               | Some _ \<Rightarrow> Inl (schema_error (''schema '' @ location @ ''/oneOf must be an array'')))))
      | _ \<Rightarrow> Inl (schema_error (''schema '' @ location @
          '' must be an object schema; boolean and array forms are not supported'')))"
  by pat_completeness auto
termination
  by (relation "measure (\<lambda>(node, _). size node)") (auto simp del: rbind_simps intro: json_sizes)

declare check_keywords.simps [simp del]

section \<open>References, types and equality\<close>

fun resolve_parts :: "json \<Rightarrow> string \<Rightarrow> string list \<Rightarrow> schema_exn + json" where
  "resolve_parts node reference [] = Inr node"
| "resolve_parts (JObj kvs) reference (part # parts) =
     (case map_of kvs part of
        None \<Rightarrow> Inl (schema_error (''schema reference '' @ reference @ '' does not resolve''))
      | Some child \<Rightarrow> resolve_parts child reference parts)"
| "resolve_parts _ reference (part # parts) =
     Inl (schema_error (''schema reference '' @ reference @ '' does not resolve''))"

definition resolve :: "json \<Rightarrow> json \<Rightarrow> schema_exn + json" where
  "resolve whole reference =
     (case reference of
        JStr r \<Rightarrow>
          if \<not> prefix_of ''#/'' r then Inl (schema_error (''schema reference '' @ r @ '' is not local''))
          else rbind (resolve_parts whole r (split_on CHR ''/'' (drop 2 r))) (\<lambda>node.
            case node of JObj _ \<Rightarrow> Inr node
            | _ \<Rightarrow> Inl (schema_error (''schema reference '' @ r @ '' does not resolve to a schema'')))
      | _ \<Rightarrow> Inl (SchemaError AttributeError))"

text \<open>A name of the schema in a message; the text of a value that is not a string is left out.\<close>

fun name_text :: "json \<Rightarrow> string" where
  "name_text (JStr s) = s"
| "name_text _ = []"

definition type_matches :: "json \<Rightarrow> json \<Rightarrow> schema_exn + bool" where
  "type_matches expected v =
     (if expected = JStr ''null'' then Inr (v = JNull)
      else if expected = JStr ''boolean'' then Inr (is_bool v)
      else if expected = JStr ''integer'' then Inr (case v of JInt _ \<Rightarrow> True | _ \<Rightarrow> False)
      else if expected = JStr ''number'' then Inr (case v of JInt _ \<Rightarrow> True | JFloat _ \<Rightarrow> True | _ \<Rightarrow> False)
      else if expected = JStr ''string'' then Inr (case v of JStr _ \<Rightarrow> True | _ \<Rightarrow> False)
      else if expected = JStr ''array'' then Inr (case v of JArr _ \<Rightarrow> True | _ \<Rightarrow> False)
      else if expected = JStr ''object'' then Inr (case v of JObj _ \<Rightarrow> True | _ \<Rightarrow> False)
      else Inl (schema_error (''schema type '' @ name_text expected @ '' is not supported'')))"

text \<open>The options of a \<open>type\<close> keyword.\<close>

definition type_options :: "json \<Rightarrow> json list" where
  "type_options expected = (case expected of JArr ts \<Rightarrow> ts | _ \<Rightarrow> [expected])"

text \<open>\<open>must be A or B\<close>, of the options a value matched none of.\<close>

definition type_message :: "json \<Rightarrow> string" where
  "type_message schema = ''must be '' @ join '' or ''
     (case py_getitem schema ''type'' of Inr expected \<Rightarrow> map name_text (type_options expected) | Inl _ \<Rightarrow> [])"

text \<open>\<open>any(_type_matches(option, value) for option in options)\<close> stops at the first match.\<close>

fun any_type_matches :: "json list \<Rightarrow> json \<Rightarrow> schema_exn + bool" where
  "any_type_matches [] v = Inr False"
| "any_type_matches (t # ts) v = rbind (type_matches t v) (\<lambda>b. if b then Inr True else any_type_matches ts v)"

fun numeric :: "json \<Rightarrow> rat option" where
  "numeric (JInt n) = Some (of_int n)"
| "numeric (JFloat q) = Some q"
| "numeric _ = None"

function json_equal :: "json \<Rightarrow> json \<Rightarrow> bool" where
  "json_equal left right =
     (if is_bool left \<or> is_bool right then left = right
      else if numeric left \<noteq> None \<and> numeric right \<noteq> None then numeric left = numeric right
      else (case (left, right) of
          (JArr xs, JArr ys) \<Rightarrow> length xs = length ys \<and> list_all (\<lambda>(a, b). json_equal a b) (zip xs ys)
        | (JObj kvs, JObj lvs) \<Rightarrow> set (map fst kvs) = set (map fst lvs)
            \<and> list_all (\<lambda>(k, a). case map_of lvs k of None \<Rightarrow> False | Some b \<Rightarrow> json_equal a b) kvs
        | (JStr s, JStr t) \<Rightarrow> s = t
        | (JNull, JNull) \<Rightarrow> True
        | _ \<Rightarrow> False))"
  by pat_completeness auto
termination
  by (relation "measure (\<lambda>(left, _). size left)")
    (auto intro: json_size_arr [simplified] json_size_obj [simplified] dest!: set_zip_leftD)

declare json_equal.simps [simp del]

section \<open>Date and time\<close>

definition number_of :: "string \<Rightarrow> nat" where
  "number_of s = foldl (\<lambda>n c. n * 10 + (of_char c - 48)) 0 s"

text \<open>Whether a string has digits where the shape has \<open>d\<close> and the shape's character elsewhere.\<close>

definition shaped :: "string \<Rightarrow> string \<Rightarrow> bool" where
  "shaped shape s \<longleftrightarrow> list_all2 (\<lambda>p c. if p = CHR ''d'' then is_digit c else p = c) shape s"

definition month_days :: "nat \<Rightarrow> nat \<Rightarrow> nat" where
  "month_days y m = (if m = 2 then if y mod 4 = 0 \<and> (y mod 100 \<noteq> 0 \<or> y mod 400 = 0) then 29 else 28
     else if m \<in> {4, 6, 9, 11} then 30 else 31)"

text \<open>
  \<open>_DATE_TIME.match(value)\<close> and \<open>datetime.fromisoformat\<close> of the value with \<open>Z\<close> as \<open>+00:00\<close>: the
  shape, and the ranges of the calendar, the clock and the offset.
\<close>

definition date_time_ok :: "string \<Rightarrow> bool" where
  "date_time_ok s =
     (let main = take 19 s; rest = drop 19 s;
          frac = (case rest of CHR ''.'' # ds \<Rightarrow> Some (takeWhile is_digit ds) | _ \<Rightarrow> None);
          zone = (case rest of CHR ''.'' # ds \<Rightarrow> dropWhile is_digit ds | _ \<Rightarrow> rest);
          num = (\<lambda>i n. number_of (take n (drop i main)))
      in shaped ''dddd-dd-ddTdd:dd:dd'' main
         \<and> (case frac of None \<Rightarrow> True | Some ds \<Rightarrow> 1 \<le> length ds \<and> length ds \<le> 9)
         \<and> 1 \<le> num 0 4 \<and> 1 \<le> num 5 2 \<and> num 5 2 \<le> 12 \<and> 1 \<le> num 8 2 \<and> num 8 2 \<le> month_days (num 0 4) (num 5 2)
         \<and> num 11 2 < 24 \<and> num 14 2 < 60 \<and> num 17 2 < 60
         \<and> (zone = ''Z'' \<or> (shaped ''+dd:dd'' zone \<or> shaped ''-dd:dd'' zone)
              \<and> number_of (take 2 (drop 1 zone)) * 60 + number_of (drop 4 zone) < 24 * 60))"

section \<open>Validation\<close>

definition violation :: "string \<Rightarrow> string \<Rightarrow> schema_exn + unit" where
  "violation path message = Inl (SchemaViolation (path @ '': '' @ message))"

text \<open>The body of \<open>if key in schema and test(schema[key]): raise SchemaViolation\<close>.\<close>

definition reject_if :: "json \<Rightarrow> string \<Rightarrow> (json \<Rightarrow> schema_exn + bool) \<Rightarrow> string \<Rightarrow> string \<Rightarrow> schema_exn + unit" where
  "reject_if schema key test path message =
     rbind (py_in key schema) (\<lambda>present.
       if \<not> present then Inr ()
       else rbind (py_getitem schema key) (\<lambda>arg.
         rbind (test arg) (\<lambda>bad. if bad then violation path message else Inr ())))"

definition validate_string :: "regex_search \<Rightarrow> json \<Rightarrow> string \<Rightarrow> string \<Rightarrow> schema_exn + unit" where
  "validate_string rx schema v path =
     rbind (reject_if schema ''minLength'' (\<lambda>n. rbind (py_number n) (\<lambda>q. Inr (of_nat (length v) < q)))
       path ''is shorter than allowed'') (\<lambda>_.
     rbind (reject_if schema ''maxLength'' (\<lambda>n. rbind (py_number n) (\<lambda>q. Inr (of_nat (length v) > q)))
       path ''is longer than allowed'') (\<lambda>_.
     rbind (reject_if schema ''pattern'' (\<lambda>p. case p of
           JStr pattern \<Rightarrow> (case rx pattern v of None \<Rightarrow> Inl ReError | Some b \<Rightarrow> Inr (\<not> b))
         | _ \<Rightarrow> Inl (SchemaError TypeError))
       path ''does not match the required pattern'') (\<lambda>_.
     rbind (py_get schema ''format'' JNull) (\<lambda>format.
       if format = JStr ''date-time''
       then if date_time_ok v then Inr () else violation path ''is not an RFC 3339 date-time''
       else rbind (py_in ''format'' schema) (\<lambda>present.
         if present then Inl (schema_error (''schema format '' @ name_text format @ '' is not supported'')) else Inr ())))))"

definition validate_number :: "json \<Rightarrow> rat \<Rightarrow> string \<Rightarrow> schema_exn + unit" where
  "validate_number schema v path =
     rbind (reject_if schema ''minimum'' (\<lambda>n. rbind (py_number n) (\<lambda>q. Inr (v < q))) path ''is below the minimum'') (\<lambda>_.
     reject_if schema ''maximum'' (\<lambda>n. rbind (py_number n) (\<lambda>q. Inr (v > q))) path ''is above the maximum'')"

text \<open>Some item equals an earlier one.\<close>

fun repeats :: "json list \<Rightarrow> json list \<Rightarrow> bool" where
  "repeats earlier [] = False"
| "repeats earlier (x # xs) \<longleftrightarrow> list_ex (json_equal x) earlier \<or> repeats (earlier @ [x]) xs"

text \<open>\<open>visit\<close> is \<open>_validate(whole, ...)\<close>.\<close>

definition validate_array ::
  "(json \<Rightarrow> json \<Rightarrow> string \<Rightarrow> schema_exn + unit) \<Rightarrow> json \<Rightarrow> json list \<Rightarrow> string \<Rightarrow> schema_exn + unit" where
  "validate_array visit schema v path =
     rbind (reject_if schema ''minItems'' (\<lambda>n. rbind (py_number n) (\<lambda>q. Inr (of_nat (length v) < q)))
       path ''has fewer items than allowed'') (\<lambda>_.
     rbind (reject_if schema ''maxItems'' (\<lambda>n. rbind (py_number n) (\<lambda>q. Inr (of_nat (length v) > q)))
       path ''has more items than allowed'') (\<lambda>_.
     rbind (py_get schema ''uniqueItems'' JNull) (\<lambda>unique.
     rbind (if py_truth unique \<and> repeats [] v then violation path ''items must be unique'' else Inr ()) (\<lambda>_.
     rbind (py_get schema ''items'' JNull) (\<lambda>items.
       case items of
         JObj _ \<Rightarrow> each (\<lambda>(index, x). visit items x (path @ ''['' @ str_nat index @ '']'')) (enumerate 0 v)
       | _ \<Rightarrow> Inr ())))))"

text \<open>\<open>name in value\<close> for a name of the required list.\<close>

fun name_in :: "json \<Rightarrow> (string \<times> json) list \<Rightarrow> schema_exn + bool" where
  "name_in (JStr k) kvs = Inr (k \<in> set (map fst kvs))"
| "name_in (JArr _) kvs = Inl (SchemaError TypeError)"
| "name_in (JObj _) kvs = Inl (SchemaError TypeError)"
| "name_in _ kvs = Inr False"

definition require_name :: "(string \<times> json) list \<Rightarrow> string \<Rightarrow> json \<Rightarrow> schema_exn + unit" where
  "require_name v path name =
     rbind (name_in name v) (\<lambda>present.
       if present then Inr ()
       else violation path (''is missing required field'' @ (case name of JStr k \<Rightarrow> '' '' @ k | _ \<Rightarrow> [])))"

definition validate_object ::
  "(json \<Rightarrow> json \<Rightarrow> string \<Rightarrow> schema_exn + unit) \<Rightarrow> json \<Rightarrow> (string \<times> json) list \<Rightarrow> string \<Rightarrow> schema_exn + unit"
where
  "validate_object visit schema v path =
     rbind (py_get schema ''properties'' (JObj [])) (\<lambda>properties.
     rbind (py_get schema ''required'' (JArr [])) (\<lambda>required.
     rbind (py_iter required) (\<lambda>names.
     rbind (each (require_name v path) names) (\<lambda>_.
     rbind (py_get schema ''additionalProperties'' (JBool True)) (\<lambda>additional.
     rbind (mapM (\<lambda>(name, x). rbind (py_in name properties) (\<lambda>known. Inr (known, name, x))) v) (\<lambda>marked.
     let unexpected = map snd (filter (\<lambda>e. \<not> fst e) marked)
     in rbind (if unexpected \<noteq> [] \<and> additional = JBool False
          then violation path (''has '' @ str_nat (length unexpected) @ '' field(s) the report format does not allow'')
          else Inr ()) (\<lambda>_.
        rbind (case properties of
            JObj ps \<Rightarrow> each (\<lambda>(name, child). case map_of v name of
                None \<Rightarrow> Inr ()
              | Some x \<Rightarrow> visit child x (path @ ''.'' @ name)) ps
          | _ \<Rightarrow> Inl (SchemaError AttributeError)) (\<lambda>_.
        case additional of
          JObj _ \<Rightarrow> each (\<lambda>(name, x). visit additional x (path @ ''.<field>'')) unexpected
        | _ \<Rightarrow> Inr ()))))))))"

text \<open>How many options of a \<open>oneOf\<close> match; an exception other than a violation gets through.\<close>

fun count_matches :: "(json \<Rightarrow> schema_exn + unit) \<Rightarrow> json list \<Rightarrow> schema_exn + nat" where
  "count_matches visit [] = Inr 0"
| "count_matches visit (option # options) =
     (if is_violation (visit option) then count_matches visit options
      else rbind (visit option) (\<lambda>_. rbind (count_matches visit options) (\<lambda>n. Inr (Suc n))))"

fun json_eq_any :: "json list \<Rightarrow> json \<Rightarrow> bool" where
  "json_eq_any opts v = list_ex (\<lambda>option. json_equal option v) opts"

fun validate_node :: "regex_search \<Rightarrow> nat \<Rightarrow> json \<Rightarrow> json \<Rightarrow> json \<Rightarrow> string \<Rightarrow> schema_exn + unit" where
  "validate_node rx 0 whole schema v path = Inl RecursionError"
| "validate_node rx (Suc n) whole schema v path =
     rbind (rbind (py_in ''$ref'' schema) (\<lambda>present.
        if \<not> present then Inr ()
        else rbind (py_getitem schema ''$ref'') (\<lambda>reference.
          rbind (resolve whole reference) (\<lambda>target. validate_node rx n whole target v path)))) (\<lambda>_.
     rbind (rbind (py_in ''oneOf'' schema) (\<lambda>present.
        if \<not> present then Inr ()
        else rbind (rbind (py_getitem schema ''oneOf'') py_iter) (\<lambda>options.
          rbind (count_matches (\<lambda>option. validate_node rx n whole option v path) options) (\<lambda>matches.
            if matches \<noteq> 1 then violation path ''does not match exactly one allowed shape'' else Inr ())))) (\<lambda>_.
     rbind (reject_if schema ''type'' (\<lambda>expected.
         rbind (any_type_matches (type_options expected) v) (\<lambda>b. Inr (\<not> b)))
       path (type_message schema)) (\<lambda>_.
     rbind (reject_if schema ''const'' (\<lambda>c. Inr (\<not> json_equal c v)) path ''is not the required fixed value'') (\<lambda>_.
     rbind (reject_if schema ''enum'' (\<lambda>opts. rbind (py_iter opts) (\<lambda>xs. Inr (\<not> json_eq_any xs v)))
       path ''is not one of the allowed values'') (\<lambda>_.
     case v of
       JStr s \<Rightarrow> validate_string rx schema s path
     | JInt k \<Rightarrow> validate_number schema (of_int k) path
     | JFloat q \<Rightarrow> validate_number schema q path
     | JArr xs \<Rightarrow> validate_array (validate_node rx n whole) schema xs path
     | JObj kvs \<Rightarrow> validate_object (validate_node rx n whole) schema kvs path
     | _ \<Rightarrow> Inr ())))))"

definition validate :: "regex_search \<Rightarrow> nat \<Rightarrow> json \<Rightarrow> json \<Rightarrow> schema_exn + unit" where
  "validate rx depth schema v =
     rbind (check_keywords schema ''#'') (\<lambda>_. validate_node rx depth schema schema v ''$'')"

section \<open>JSON Schema semantics of the keywords\<close>

text \<open>
  What the keywords assert, one by one (JSON Schema draft 2020-12), for a value; \<open>None\<close> where the
  schema gives them no meaning.  \<open>sub\<close> is the meaning of subschemas.  A keyword says nothing of
  values of a type it does not apply to, and an integer is any number without a fraction.
\<close>

definition and3 :: "bool option \<Rightarrow> bool option \<Rightarrow> bool option" where
  "and3 a b = (if a = Some False \<or> b = Some False then Some False
     else if a = Some True \<and> b = Some True then Some True else None)"

definition conj3 :: "bool option list \<Rightarrow> bool option" where
  "conj3 xs = foldr and3 xs (Some True)"

definition has_type :: "json \<Rightarrow> json \<Rightarrow> bool option" where
  "has_type v t =
     (if t = JStr ''null'' then Some (v = JNull)
      else if t = JStr ''boolean'' then Some (is_bool v)
      else if t = JStr ''integer'' then Some (case numeric v of Some q \<Rightarrow> of_int \<lfloor>q\<rfloor> = q | None \<Rightarrow> False)
      else if t = JStr ''number'' then Some (numeric v \<noteq> None)
      else if t = JStr ''string'' then Some (case v of JStr _ \<Rightarrow> True | _ \<Rightarrow> False)
      else if t = JStr ''array'' then Some (case v of JArr _ \<Rightarrow> True | _ \<Rightarrow> False)
      else if t = JStr ''object'' then Some (case v of JObj _ \<Rightarrow> True | _ \<Rightarrow> False)
      else None)"

definition kw_type :: "json \<Rightarrow> json \<Rightarrow> bool option" where
  "kw_type t v =
     (let rs = map (has_type v) (case t of JArr ts \<Rightarrow> ts | _ \<Rightarrow> [t])
      in if None \<in> set rs then None else Some (Some True \<in> set rs))"

definition kw_one_of :: "(json \<Rightarrow> json \<Rightarrow> bool option) \<Rightarrow> json \<Rightarrow> json \<Rightarrow> bool option" where
  "kw_one_of sub options v = (case options of
     JArr opts \<Rightarrow>
       let rs = map (\<lambda>option. sub option v) opts
       in if None \<in> set rs then None else Some (length (filter (\<lambda>r. r = Some True) rs) = 1)
   | _ \<Rightarrow> None)"

definition kw_enum :: "json \<Rightarrow> json \<Rightarrow> bool option" where
  "kw_enum opts v = (case opts of JArr xs \<Rightarrow> Some (\<exists>x \<in> set xs. json_equal x v) | _ \<Rightarrow> None)"

text \<open>A bound on a size: \<open>le bound size\<close> for the sizes \<open>size_of\<close> gives.\<close>

definition kw_bound :: "(rat \<Rightarrow> rat \<Rightarrow> bool) \<Rightarrow> rat option \<Rightarrow> json \<Rightarrow> bool option" where
  "kw_bound within_bound measured bound = (case measured of None \<Rightarrow> Some True
     | Some q \<Rightarrow> map_option (\<lambda>b. within_bound b q) (numeric bound))"

definition str_size :: "json \<Rightarrow> rat option" where
  "str_size v = (case v of JStr s \<Rightarrow> Some (of_nat (length s)) | _ \<Rightarrow> None)"

definition arr_size :: "json \<Rightarrow> rat option" where
  "arr_size v = (case v of JArr xs \<Rightarrow> Some (of_nat (length xs)) | _ \<Rightarrow> None)"

definition kw_pattern :: "regex_search \<Rightarrow> json \<Rightarrow> json \<Rightarrow> bool option" where
  "kw_pattern rx p v = (case v of JStr s \<Rightarrow> (case p of JStr pattern \<Rightarrow> rx pattern s | _ \<Rightarrow> None) | _ \<Rightarrow> Some True)"

definition kw_format :: "json \<Rightarrow> json \<Rightarrow> bool option" where
  "kw_format f v = (case v of
     JStr s \<Rightarrow> if f = JStr ''date-time'' then Some (date_time_ok s) else None
   | _ \<Rightarrow> Some True)"

definition kw_unique :: "json \<Rightarrow> json \<Rightarrow> bool option" where
  "kw_unique u v = (case v of
     JArr xs \<Rightarrow> (case u of JBool b \<Rightarrow> Some (b \<longrightarrow> (\<forall>j < length xs. \<forall>i < j. \<not> json_equal (xs ! j) (xs ! i))) | _ \<Rightarrow> None)
   | _ \<Rightarrow> Some True)"

definition kw_items :: "(json \<Rightarrow> json \<Rightarrow> bool option) \<Rightarrow> json \<Rightarrow> json \<Rightarrow> bool option" where
  "kw_items sub items v = (case v of JArr xs \<Rightarrow> conj3 (map (sub items) xs) | _ \<Rightarrow> Some True)"

definition kw_required :: "json \<Rightarrow> json \<Rightarrow> bool option" where
  "kw_required names v = (case v of
     JObj kvs \<Rightarrow> (case names of JArr xs \<Rightarrow> Some (\<forall>x \<in> set xs. case x of JStr k \<Rightarrow> k \<in> fst ` set kvs | _ \<Rightarrow> False) | _ \<Rightarrow> None)
   | _ \<Rightarrow> Some True)"

definition declared :: "(string \<times> json) list \<Rightarrow> (string \<times> json) list" where
  "declared schema = (case map_of schema ''properties'' of Some (JObj ps) \<Rightarrow> ps | _ \<Rightarrow> [])"

definition kw_properties ::
  "(json \<Rightarrow> json \<Rightarrow> bool option) \<Rightarrow> (string \<times> json) list \<Rightarrow> json \<Rightarrow> bool option" where
  "kw_properties sub schema v = (case v of
     JObj kvs \<Rightarrow> conj3 (map (\<lambda>(name, child). case map_of kvs name of None \<Rightarrow> Some True | Some x \<Rightarrow> sub child x)
       (declared schema))
   | _ \<Rightarrow> Some True)"

definition kw_additional ::
  "(json \<Rightarrow> json \<Rightarrow> bool option) \<Rightarrow> (string \<times> json) list \<Rightarrow> json \<Rightarrow> json \<Rightarrow> bool option" where
  "kw_additional sub schema additional v = (case v of
     JObj kvs \<Rightarrow>
       let extra = filter (\<lambda>(name, _). name \<notin> fst ` set (declared schema)) kvs
       in (case additional of
             JBool b \<Rightarrow> Some (b \<or> extra = [])
           | _ \<Rightarrow> conj3 (map (\<lambda>(_, x). sub additional x) extra))
   | _ \<Rightarrow> Some True)"

text \<open>A keyword that is not there asserts nothing.\<close>

definition kw :: "(string \<times> json) list \<Rightarrow> string \<Rightarrow> (json \<Rightarrow> bool option) \<Rightarrow> bool option" where
  "kw schema key meaning = (case map_of schema key of None \<Rightarrow> Some True | Some arg \<Rightarrow> meaning arg)"

fun conforms :: "regex_search \<Rightarrow> nat \<Rightarrow> json \<Rightarrow> json \<Rightarrow> json \<Rightarrow> bool option" where
  "conforms rx 0 whole schema v = None"
| "conforms rx (Suc n) whole schema v =
     (case schema of
        JObj kvs \<Rightarrow> conj3
          [kw kvs ''$ref'' (\<lambda>r. case resolve whole r of Inr target \<Rightarrow> conforms rx n whole target v | Inl _ \<Rightarrow> None),
           kw kvs ''oneOf'' (\<lambda>opts. kw_one_of (conforms rx n whole) opts v),
           kw kvs ''type'' (\<lambda>t. kw_type t v),
           kw kvs ''const'' (\<lambda>c. Some (json_equal c v)),
           kw kvs ''enum'' (\<lambda>opts. kw_enum opts v),
           kw kvs ''minLength'' (kw_bound (\<le>) (str_size v)),
           kw kvs ''maxLength'' (kw_bound (\<ge>) (str_size v)),
           kw kvs ''pattern'' (\<lambda>p. kw_pattern rx p v),
           kw kvs ''format'' (\<lambda>f. kw_format f v),
           kw kvs ''minimum'' (kw_bound (\<le>) (numeric v)),
           kw kvs ''maximum'' (kw_bound (\<ge>) (numeric v)),
           kw kvs ''minItems'' (kw_bound (\<le>) (arr_size v)),
           kw kvs ''maxItems'' (kw_bound (\<ge>) (arr_size v)),
           kw kvs ''uniqueItems'' (\<lambda>u. kw_unique u v),
           kw kvs ''items'' (\<lambda>items. kw_items (conforms rx n whole) items v),
           kw kvs ''required'' (\<lambda>names. kw_required names v),
           kw_properties (conforms rx n whole) kvs v,
           kw kvs ''additionalProperties'' (\<lambda>a. kw_additional (conforms rx n whole) kvs a v)]
      | _ \<Rightarrow> None)"

section \<open>Well-formed schemas\<close>

definition child_schemas :: "json \<Rightarrow> json list" where
  "child_schemas node = (case node of
     JObj kvs \<Rightarrow>
       (case map_of kvs ''properties'' of Some (JObj cs) \<Rightarrow> map snd cs | _ \<Rightarrow> [])
       @ (case map_of kvs ''$defs'' of Some (JObj cs) \<Rightarrow> map snd cs | _ \<Rightarrow> [])
       @ (case map_of kvs ''items'' of Some c \<Rightarrow> [c] | _ \<Rightarrow> [])
       @ (case map_of kvs ''additionalProperties'' of Some c \<Rightarrow> if is_bool c then [] else [c] | _ \<Rightarrow> [])
       @ (case map_of kvs ''oneOf'' of Some (JArr cs) \<Rightarrow> cs | _ \<Rightarrow> [])
   | _ \<Rightarrow> [])"

lemma child_schemas_smaller: "c \<in> set (child_schemas node) \<Longrightarrow> size c < size node"
proof (cases node)
  case (JObj kvs)
  have arr: "Some (JArr cs) = map_of kvs k \<Longrightarrow> c \<in> set cs \<Longrightarrow> size c < size (JObj kvs)" for k cs
    using json_size_item [of kvs k "JArr cs"] json_size_arr [of c cs] by simp
  assume "c \<in> set (child_schemas node)"
  then show ?thesis
    using JObj arr [of _ "''oneOf''"]
    by (auto simp: child_schemas_def intro: json_sizes json_size_obj_child [OF sym, simplified] split: option.splits json.splits if_splits)
qed (simp_all add: child_schemas_def)

function subschemas :: "json \<Rightarrow> json list" where
  "subschemas node = node # concat (map subschemas (child_schemas node))"
  by pat_completeness auto
termination
  by (relation "measure size") (auto intro: child_schemas_smaller)

declare subschemas.simps [simp del]

definition argument_ok :: "json \<Rightarrow> string \<times> json \<Rightarrow> bool" where
  "argument_ok whole e = (let (key, arg) = e in
     if key = ''$ref'' then (case resolve whole arg of Inr target \<Rightarrow> target \<in> set (subschemas whole) | Inl _ \<Rightarrow> False)
     else if key = ''type'' then (case arg of JArr ts \<Rightarrow> list_all (\<lambda>t. has_type JNull t \<noteq> None) ts
       | _ \<Rightarrow> has_type JNull arg \<noteq> None)
     else if key \<in> {''oneOf'', ''enum''} then (case arg of JArr _ \<Rightarrow> True | _ \<Rightarrow> False)
     else if key = ''required'' then (case arg of JArr xs \<Rightarrow> json_strs xs \<noteq> None | _ \<Rightarrow> False)
     else if key \<in> {''minLength'', ''maxLength'', ''minimum'', ''maximum'', ''minItems'', ''maxItems''}
       then numeric arg \<noteq> None
     else if key = ''pattern'' then (case arg of JStr _ \<Rightarrow> True | _ \<Rightarrow> False)
     else if key = ''format'' then arg = JStr ''date-time''
     else if key = ''uniqueItems'' then is_bool arg
     else if key \<in> {''properties'', ''$defs'', ''items''} then (case arg of JObj _ \<Rightarrow> True | _ \<Rightarrow> False)
     else if key = ''additionalProperties'' then is_bool arg \<or> (case arg of JObj _ \<Rightarrow> True | _ \<Rightarrow> False)
     else True)"

definition schema_ok :: "json \<Rightarrow> json \<Rightarrow> bool" where
  "schema_ok whole node = (case node of
     JObj kvs \<Rightarrow> distinct (map fst kvs) \<and> list_all (argument_ok whole) kvs | _ \<Rightarrow> False)"

definition schema_family :: "json \<Rightarrow> bool" where
  "schema_family whole = list_all (schema_ok whole) (subschemas whole)"

text \<open>A decoded value without a float that is a whole number.\<close>

fun plain_numbers :: "json \<Rightarrow> bool" where
  "plain_numbers (JFloat q) \<longleftrightarrow> of_int \<lfloor>q\<rfloor> \<noteq> q"
| "plain_numbers (JArr xs) = list_all plain_numbers xs"
| "plain_numbers (JObj kvs) = list_all (\<lambda>(_, v). plain_numbers v) kvs"
| "plain_numbers _ = True"

section \<open>The checker agrees with the semantics\<close>

text \<open>
  A run agrees with a meaning: where it returns, the meaning is true, and where it raises a violation,
  the meaning is false.  Other exceptions are no verdict.
\<close>

definition agrees :: "schema_exn + unit \<Rightarrow> bool option \<Rightarrow> bool" where
  "agrees r m \<longleftrightarrow> (r = Inr () \<longrightarrow> m = Some True) \<and> (is_violation r \<longrightarrow> m = Some False)"

lemma is_violation_simps [simp]:
  "is_violation (Inl (SchemaViolation m))" "\<not> is_violation (Inr ())" "\<not> is_violation (Inl RecursionError)"
  "\<not> is_violation (Inl ReError)" "\<not> is_violation (Inl (SchemaError x))" "is_violation (violation path m)"
  by (simp_all add: is_violation_def violation_def)

lemma violation_not_ok [simp]: "violation path m \<noteq> Inr u"
  by (simp add: violation_def)

lemma agrees_Inr: "agrees (Inr ()) m \<longleftrightarrow> m = Some True"
  by (simp add: agrees_def)

lemma agrees_bind:
  assumes "agrees r a" and "agrees q b"
  shows "agrees (rbind r (\<lambda>_. q)) (and3 a b)"
  using assms by (cases r) (auto simp: agrees_def and3_def)

lemma agrees_bind_skip: "agrees r a \<Longrightarrow> (r = Inr () \<Longrightarrow> agrees q b) \<Longrightarrow> agrees (rbind r (\<lambda>_. q)) (and3 a b)"
  by (cases r) (auto simp: agrees_def and3_def)

lemma conj3_simps [simp]: "conj3 [] = Some True" "conj3 (a # xs) = and3 a (conj3 xs)"
  by (simp_all add: conj3_def)

lemma and3_True [simp]: "and3 (Some True) a = a" "and3 a (Some True) = a"
  by (cases a; auto simp: and3_def)+

lemma agrees_each:
  "(\<And>x. x \<in> set xs \<Longrightarrow> agrees (f x) (g x)) \<Longrightarrow> agrees (each f xs) (conj3 (map g xs))"
  by (induction xs) (simp_all add: agrees_Inr agrees_bind)

lemma agrees_reject:
  assumes "case map_of kvs key of None \<Rightarrow> True | Some arg \<Rightarrow> (\<forall>b. test arg = Inr b \<longrightarrow> meaning arg = Some (\<not> b))
      \<and> (\<forall>e. test arg = Inl e \<longrightarrow> \<not> is_violation (Inl e))"
  shows "agrees (reject_if (JObj kvs) key test path message) (kw kvs key meaning)"
proof (cases "map_of kvs key")
  case None
  then show ?thesis by (simp add: reject_if_def kw_def agrees_Inr flip: map_of_eq_None_iff)
next
  case (Some arg)
  then have "key \<in> fst ` set kvs" by (metis map_of_eq_None_iff option.distinct(1))
  with Some show ?thesis
    using assms by (cases "test arg") (auto simp: reject_if_def kw_def agrees_def)
qed

text \<open>A keyword of a well-formed schema has an argument of its type.\<close>

lemma schema_ok_arg: "schema_ok whole (JObj kvs) \<Longrightarrow> map_of kvs key = Some arg \<Longrightarrow> argument_ok whole (key, arg)"
  by (auto simp: schema_ok_def list_all_iff dest: map_of_SomeD)

lemma argument_keys:
  "argument_ok whole (''enum'', a) \<longleftrightarrow> (case a of JArr _ \<Rightarrow> True | _ \<Rightarrow> False)"
  "argument_ok whole (''oneOf'', a) \<longleftrightarrow> (case a of JArr _ \<Rightarrow> True | _ \<Rightarrow> False)"
  "argument_ok whole (''required'', a) \<longleftrightarrow> (case a of JArr xs \<Rightarrow> json_strs xs \<noteq> None | _ \<Rightarrow> False)"
  "argument_ok whole (''uniqueItems'', a) \<longleftrightarrow> is_bool a"
  "argument_ok whole (''format'', a) \<longleftrightarrow> a = JStr ''date-time''"
  "argument_ok whole (''items'', a) \<longleftrightarrow> (case a of JObj _ \<Rightarrow> True | _ \<Rightarrow> False)"
  "argument_ok whole (''properties'', a) \<longleftrightarrow> (case a of JObj _ \<Rightarrow> True | _ \<Rightarrow> False)"
  "argument_ok whole (''additionalProperties'', a) \<longleftrightarrow> is_bool a \<or> (case a of JObj _ \<Rightarrow> True | _ \<Rightarrow> False)"
  "argument_ok whole (''$ref'', a) \<longleftrightarrow>
     (case resolve whole a of Inr target \<Rightarrow> target \<in> set (subschemas whole) | Inl _ \<Rightarrow> False)"
  "argument_ok whole (''type'', a) \<longleftrightarrow> (case a of JArr ts \<Rightarrow> list_all (\<lambda>t. has_type JNull t \<noteq> None) ts
     | _ \<Rightarrow> has_type JNull a \<noteq> None)"
  by (simp_all add: argument_ok_def)

lemma is_bool_iff: "is_bool a \<longleftrightarrow> (\<exists>b. a = JBool b)"
  by (cases a) simp_all

lemma schema_args:
  assumes "schema_ok whole (JObj kvs)"
  shows "map_of kvs ''enum'' = Some a \<Longrightarrow> \<exists>xs. a = JArr xs"
    and "map_of kvs ''oneOf'' = Some a \<Longrightarrow> \<exists>xs. a = JArr xs"
    and "map_of kvs ''required'' = Some a \<Longrightarrow> \<exists>ss. a = JArr (map JStr ss)"
    and "map_of kvs ''uniqueItems'' = Some a \<Longrightarrow> \<exists>b. a = JBool b"
    and "map_of kvs ''format'' = Some a \<Longrightarrow> a = JStr ''date-time''"
    and "map_of kvs ''items'' = Some a \<Longrightarrow> \<exists>cs. a = JObj cs"
    and "map_of kvs ''properties'' = Some a \<Longrightarrow> \<exists>cs. a = JObj cs"
    and "map_of kvs ''additionalProperties'' = Some a \<Longrightarrow> (\<exists>b. a = JBool b) \<or> (\<exists>cs. a = JObj cs)"
    and "map_of kvs ''$ref'' = Some a \<Longrightarrow> \<exists>t. resolve whole a = Inr t \<and> t \<in> set (subschemas whole)"
proof -
  note arg = schema_ok_arg [OF assms]
  show "map_of kvs ''enum'' = Some a \<Longrightarrow> \<exists>xs. a = JArr xs"
    "map_of kvs ''oneOf'' = Some a \<Longrightarrow> \<exists>xs. a = JArr xs"
    "map_of kvs ''required'' = Some a \<Longrightarrow> \<exists>ss. a = JArr (map JStr ss)"
    "map_of kvs ''uniqueItems'' = Some a \<Longrightarrow> \<exists>b. a = JBool b"
    "map_of kvs ''format'' = Some a \<Longrightarrow> a = JStr ''date-time''"
    "map_of kvs ''items'' = Some a \<Longrightarrow> \<exists>cs. a = JObj cs"
    "map_of kvs ''properties'' = Some a \<Longrightarrow> \<exists>cs. a = JObj cs"
    "map_of kvs ''additionalProperties'' = Some a \<Longrightarrow> (\<exists>b. a = JBool b) \<or> (\<exists>cs. a = JObj cs)"
    "map_of kvs ''$ref'' = Some a \<Longrightarrow> \<exists>t. resolve whole a = Inr t \<and> t \<in> set (subschemas whole)"
    by (drule arg, simp add: argument_keys json_strs_Some is_bool_iff split: json.splits sum.splits)+
qed

lemma agrees_bound:
  assumes "schema_ok whole (JObj kvs)"
    and "key \<in> {''minLength'', ''maxLength'', ''minimum'', ''maximum'', ''minItems'', ''maxItems''}"
  shows "agrees (reject_if (JObj kvs) key (\<lambda>n. rbind (py_number n) (\<lambda>b. Inr (q < b))) path message)
      (kw kvs key (kw_bound (\<le>) (Some q)))"
    and "agrees (reject_if (JObj kvs) key (\<lambda>n. rbind (py_number n) (\<lambda>b. Inr (q > b))) path message)
      (kw kvs key (kw_bound (\<ge>) (Some q)))"
proof -
  have num: "numeric arg \<noteq> None" if "map_of kvs key = Some arg" for arg
    using schema_ok_arg [OF assms(1) that] assms(2) by (auto simp: argument_ok_def)
  have read: "\<exists>b. py_number arg = Inr b \<and> numeric arg = Some b" if "map_of kvs key = Some arg" for arg
    using num [OF that] by (cases arg) auto
  show "agrees (reject_if (JObj kvs) key (\<lambda>n. rbind (py_number n) (\<lambda>b. Inr (q < b))) path message)
      (kw kvs key (kw_bound (\<le>) (Some q)))"
    using read by (intro agrees_reject) (force simp: kw_bound_def not_less split: option.splits)
  show "agrees (reject_if (JObj kvs) key (\<lambda>n. rbind (py_number n) (\<lambda>b. Inr (q > b))) path message)
      (kw kvs key (kw_bound (\<ge>) (Some q)))"
    using read by (intro agrees_reject) (force simp: kw_bound_def not_less split: option.splits)
qed

lemma has_type_supported: "has_type v t = None \<longleftrightarrow> has_type w t = None"
  by (simp add: has_type_def)

lemma type_matches_plain:
  "plain_numbers v \<Longrightarrow> type_matches t v = Inr b \<Longrightarrow> has_type v t = Some b"
  by (cases v) (auto simp: type_matches_def has_type_def split: if_splits)

lemma type_matches_Inl: "type_matches t v = Inl e \<Longrightarrow> has_type v t = None \<and> \<not> is_violation (Inl e)"
  by (auto simp: type_matches_def has_type_def split: if_splits)

lemma any_type_matches_plain:
  assumes "plain_numbers v" and "\<forall>t \<in> set ts. has_type v t \<noteq> None"
  shows "\<exists>b. any_type_matches ts v = Inr b \<and> (b \<longleftrightarrow> Some True \<in> has_type v ` set ts)"
  using assms
proof (induction ts)
  case Nil
  show ?case by auto
next
  case (Cons t ts)
  then obtain b where b: "type_matches t v = Inr b"
    by (cases "type_matches t v") (auto dest: type_matches_Inl)
  with Cons type_matches_plain [OF Cons.prems(1) b] show ?case by auto
qed

lemma agrees_type:
  assumes "schema_ok whole (JObj kvs)" and "plain_numbers v"
  shows "agrees (reject_if (JObj kvs) ''type'' (\<lambda>expected.
         rbind (any_type_matches (type_options expected) v) (\<lambda>b. Inr (\<not> b))) path message)
      (kw kvs ''type'' (\<lambda>t. kw_type t v))"
  unfolding type_options_def
proof (rule agrees_reject, simp split: option.split, intro allI impI)
  fix arg
  assume arg: "map_of kvs ''type'' = Some arg"
  let ?ts = "case arg of JArr ts \<Rightarrow> ts | _ \<Rightarrow> [arg]"
  have "\<forall>t \<in> set ?ts. has_type JNull t \<noteq> None"
    using schema_ok_arg [OF assms(1) arg]
    by (cases arg) (simp_all add: argument_keys list_all_iff)
  then have "\<forall>t \<in> set ?ts. has_type v t \<noteq> None" using has_type_supported [of v _ JNull] by blast
  moreover from this obtain b where "any_type_matches ?ts v = Inr b" "b \<longleftrightarrow> Some True \<in> has_type v ` set ?ts"
    using any_type_matches_plain [OF assms(2)] by blast
  ultimately show "(\<forall>b. rbind (any_type_matches ?ts v) (\<lambda>b. Inr (\<not> b)) = Inr b \<longrightarrow> kw_type arg v = Some (\<not> b)) \<and>
      (\<forall>e. rbind (any_type_matches ?ts v) (\<lambda>b. Inr (\<not> b)) = Inl e \<longrightarrow> \<not> is_violation (Inl e))"
    by (force simp: kw_type_def Let_def)
qed

lemma agrees_const:
  "agrees (reject_if (JObj kvs) ''const'' (\<lambda>c. Inr (\<not> json_equal c v)) path message)
     (kw kvs ''const'' (\<lambda>c. Some (json_equal c v)))"
  by (rule agrees_reject) (simp split: option.split)

lemma agrees_enum:
  assumes "schema_ok whole (JObj kvs)"
  shows "agrees (reject_if (JObj kvs) ''enum'' (\<lambda>opts. rbind (py_iter opts) (\<lambda>xs. Inr (\<not> json_eq_any xs v))) path message)
     (kw kvs ''enum'' (\<lambda>opts. kw_enum opts v))"
proof (rule agrees_reject, simp split: option.split, intro allI impI)
  fix arg
  assume "map_of kvs ''enum'' = Some arg"
  then obtain xs where "arg = JArr xs"
    using schema_args(1) [OF assms] by blast
  then show "(\<forall>b. rbind (py_iter arg) (\<lambda>xs. Inr (\<not> list_ex (\<lambda>option. json_equal option v) xs)) = Inr b
        \<longrightarrow> kw_enum arg v = Some (\<not> b)) \<and>
      (\<forall>e. rbind (py_iter arg) (\<lambda>xs. Inr (\<not> list_ex (\<lambda>option. json_equal option v) xs)) = Inl e
        \<longrightarrow> \<not> is_violation (Inl e))"
    by (auto simp: kw_enum_def list_ex_iff)
qed

lemma agrees_string:
  assumes "schema_ok whole (JObj kvs)"
  shows "agrees (validate_string rx (JObj kvs) s path)
    (conj3 [kw kvs ''minLength'' (kw_bound (\<le>) (Some (of_nat (length s)))),
            kw kvs ''maxLength'' (kw_bound (\<ge>) (Some (of_nat (length s)))),
            kw kvs ''pattern'' (\<lambda>p. kw_pattern rx p (JStr s)),
            kw kvs ''format'' (\<lambda>f. kw_format f (JStr s))])"
proof -
  have pattern: "agrees (reject_if (JObj kvs) ''pattern'' (\<lambda>p. case p of
           JStr pattern \<Rightarrow> (case rx pattern s of None \<Rightarrow> Inl ReError | Some b \<Rightarrow> Inr (\<not> b))
         | _ \<Rightarrow> Inl (SchemaError TypeError)) path m)
       (kw kvs ''pattern'' (\<lambda>p. kw_pattern rx p (JStr s)))" for m
    by (rule agrees_reject) (auto simp: kw_pattern_def split: option.splits json.splits)
  have format: "agrees (rbind (py_get (JObj kvs) ''format'' JNull) (\<lambda>format.
       if format = JStr ''date-time''
       then if date_time_ok s then Inr () else violation path ''is not an RFC 3339 date-time''
       else rbind (py_in ''format'' (JObj kvs)) (\<lambda>present.
         if present then Inl (schema_error (''schema format '' @ name_text format @ '' is not supported'')) else Inr ())))
       (kw kvs ''format'' (\<lambda>f. kw_format f (JStr s)))"
  proof (cases "map_of kvs ''format''")
    case None
    then have "''format'' \<notin> fst ` set kvs" by (simp add: map_of_eq_None_iff)
    with None show ?thesis by (simp add: kw_def agrees_Inr)
  next
    case (Some f)
    then have "f = JStr ''date-time''" by (rule schema_args(5) [OF assms])
    with Some show ?thesis by (simp add: kw_def kw_format_def agrees_def)
  qed
  show ?thesis
    unfolding validate_string_def conj3_simps and3_True
    by (intro agrees_bind agrees_bound [OF assms] pattern format) simp_all
qed

lemma agrees_number:
  assumes "schema_ok whole (JObj kvs)"
  shows "agrees (validate_number (JObj kvs) q path)
    (conj3 [kw kvs ''minimum'' (kw_bound (\<le>) (Some q)), kw kvs ''maximum'' (kw_bound (\<ge>) (Some q))])"
  unfolding validate_number_def conj3_simps and3_True
  by (intro agrees_bind agrees_bound [OF assms]) simp_all

lemma repeats_iff:
  "repeats ys xs \<longleftrightarrow> (\<exists>j < length xs. list_ex (json_equal (xs ! j)) (ys @ take j xs))"
proof (induction xs arbitrary: ys)
  case Nil
  show ?case by simp
next
  case (Cons x xs)
  show ?case
    unfolding repeats.simps Cons.IH
    by (auto simp: less_Suc_eq_0_disj)
qed

lemma take_ex: "j \<le> length xs \<Longrightarrow> list_ex P (take j xs) \<longleftrightarrow> (\<exists>i < j. P (xs ! i))"
  by (auto simp: list_ex_length)

lemma repeats_unique:
  "repeats [] xs \<longleftrightarrow> \<not> (\<forall>j < length xs. \<forall>i < j. \<not> json_equal (xs ! j) (xs ! i))"
  by (simp add: repeats_iff take_ex cong: conj_cong)

lemma map_enumerate_snd: "map (\<lambda>e. g (snd e)) (enumerate n xs) = map g xs"
  by (induction xs arbitrary: n) auto

lemma agrees_array:
  assumes ok: "schema_ok whole (JObj kvs)"
    and sub: "\<And>c x p. map_of kvs ''items'' = Some c \<Longrightarrow> x \<in> set xs \<Longrightarrow> agrees (visit c x p) (sub c x)"
  shows "agrees (validate_array visit (JObj kvs) xs path)
    (conj3 [kw kvs ''minItems'' (kw_bound (\<le>) (Some (of_nat (length xs)))),
            kw kvs ''maxItems'' (kw_bound (\<ge>) (Some (of_nat (length xs)))),
            kw kvs ''uniqueItems'' (\<lambda>u. kw_unique u (JArr xs)),
            kw kvs ''items'' (\<lambda>items. kw_items sub items (JArr xs))])"
proof -
  have unique: "agrees (if py_truth (case map_of kvs ''uniqueItems'' of None \<Rightarrow> JNull | Some v \<Rightarrow> v) \<and> repeats [] xs
        then violation path m else Inr ())
      (kw kvs ''uniqueItems'' (\<lambda>u. kw_unique u (JArr xs)))" for m
    by (cases "map_of kvs ''uniqueItems''")
      (auto simp: kw_def kw_unique_def agrees_def repeats_unique dest!: schema_args(4) [OF ok], blast)
  have items: "agrees (case (case map_of kvs ''items'' of None \<Rightarrow> JNull | Some v \<Rightarrow> v) of
         JObj cs \<Rightarrow> each (\<lambda>(index, x). visit (case map_of kvs ''items'' of None \<Rightarrow> JNull | Some v \<Rightarrow> v) x
             (path @ ''['' @ str_nat index @ '']'')) (enumerate 0 xs)
       | _ \<Rightarrow> Inr ()) (kw kvs ''items'' (\<lambda>items. kw_items sub items (JArr xs)))"
  proof (cases "map_of kvs ''items''")
    case None
    then show ?thesis by (simp add: kw_def agrees_Inr)
  next
    case (Some c)
    then obtain cs where cs: "c = JObj cs" using schema_args(6) [OF ok] by blast
    have "agrees (each (\<lambda>e. visit c (snd e) (path @ ''['' @ str_nat (fst e) @ '']'')) (enumerate 0 xs))
        (conj3 (map (\<lambda>e. sub c (snd e)) (enumerate 0 xs)))"
      by (rule agrees_each) (auto intro!: sub [OF Some] simp: in_set_enumerate_eq)
    with Some cs show ?thesis by (simp add: kw_def kw_items_def map_enumerate_snd split_def)
  qed
  show ?thesis
    unfolding validate_array_def conj3_simps and3_True py_get.simps rbind_simps
    by (intro agrees_bind agrees_bound [OF ok] unique items) simp_all
qed

lemma conj3_Some: "conj3 (map (\<lambda>x. Some (P x)) xs) = Some (\<forall>x \<in> set xs. P x)"
  by (induction xs) (auto simp: and3_def)

lemma agrees_required:
  assumes "schema_ok whole (JObj kvs)"
  shows "agrees (rbind (py_iter (case map_of kvs ''required'' of None \<Rightarrow> JArr [] | Some v \<Rightarrow> v))
      (\<lambda>names. each (require_name v path) names)) (kw kvs ''required'' (\<lambda>names. kw_required names (JObj v)))"
proof (cases "map_of kvs ''required''")
  case None
  then show ?thesis by (simp add: kw_def agrees_Inr)
next
  case (Some a)
  then obtain ss where ss: "a = JArr (map JStr ss)" using schema_args(3) [OF assms] by blast
  have "agrees (each (require_name v path) (map JStr ss))
      (conj3 (map (\<lambda>x. Some (case x of JStr k \<Rightarrow> k \<in> fst ` set v | _ \<Rightarrow> False)) (map JStr ss)))"
    by (rule agrees_each) (force simp: agrees_def require_name_def split: if_splits)
  with Some ss show ?thesis by (simp only: conj3_Some kw_def kw_required_def option.case json.case py_iter.simps rbind_simps)
qed

lemma mapM_marked:
  "mapM (\<lambda>(name, x). rbind (py_in name (JObj ps)) (\<lambda>known. Inr (known, name, x))) v
     = Inr (map (\<lambda>(name, x). (name \<in> fst ` set ps, name, x)) v)"
  by (rule mapM_eq_map) (auto split: prod.splits)

lemma marked_extra:
  "map snd (filter (\<lambda>e. \<not> fst e) (map (\<lambda>(name, x). (name \<in> S, name, x)) v)) = filter (\<lambda>(name, _). name \<notin> S) v"
  by (induction v) auto

lemma agrees_object:
  assumes ok: "schema_ok whole (JObj kvs)"
    and props: "\<And>name c x p. (name, c) \<in> set (declared kvs) \<Longrightarrow> x \<in> snd ` set v \<Longrightarrow> agrees (visit c x p) (sub c x)"
    and addl: "\<And>c x p. map_of kvs ''additionalProperties'' = Some c \<Longrightarrow> \<not> is_bool c \<Longrightarrow> x \<in> snd ` set v
      \<Longrightarrow> agrees (visit c x p) (sub c x)"
  shows "agrees (validate_object visit (JObj kvs) v path)
    (conj3 [kw kvs ''required'' (\<lambda>names. kw_required names (JObj v)),
            kw_properties sub kvs (JObj v),
            kw kvs ''additionalProperties'' (\<lambda>a. kw_additional sub kvs a (JObj v))])"
proof -
  let ?extra = "filter (\<lambda>(name, _). name \<notin> fst ` set (declared kvs)) v"
  let ?additional = "case map_of kvs ''additionalProperties'' of None \<Rightarrow> JBool True | Some a \<Rightarrow> a"
  have props_json: "(case map_of kvs ''properties'' of None \<Rightarrow> JObj [] | Some a \<Rightarrow> a) = JObj (declared kvs)"
    by (auto simp: declared_def dest: schema_args(7) [OF ok] split: option.splits)
  have "agrees (each (\<lambda>e. case map_of v (fst e) of None \<Rightarrow> Inr () | Some x \<Rightarrow> visit (snd e) x (path @ ''.'' @ fst e))
      (declared kvs))
    (conj3 (map (\<lambda>e. case map_of v (fst e) of None \<Rightarrow> Some True | Some x \<Rightarrow> sub (snd e) x) (declared kvs)))"
    by (rule agrees_each) (force simp: agrees_Inr split: option.split intro!: props dest!: map_of_SomeD)
  then have properties: "agrees (each (\<lambda>(name, child). case map_of v name of None \<Rightarrow> Inr ()
      | Some x \<Rightarrow> visit child x (path @ ''.'' @ name)) (declared kvs)) (kw_properties sub kvs (JObj v))"
    by (simp add: kw_properties_def split_def)
  have sub_extra: "agrees (each (\<lambda>(name, x). visit c x (path @ ''.<field>'')) ?extra)
      (conj3 (map (\<lambda>(_, x). sub c x) ?extra))"
    if "map_of kvs ''additionalProperties'' = Some c" "\<not> is_bool c" for c
    by (rule agrees_each) (force intro!: addl [OF that])
  have extra: "agrees (rbind (if ?extra \<noteq> [] \<and> ?additional = JBool False then violation path m else Inr ()) (\<lambda>_.
        rbind q (\<lambda>_. case ?additional of JObj cs \<Rightarrow> each (\<lambda>(name, x). visit ?additional x (path @ ''.<field>'')) ?extra
          | _ \<Rightarrow> Inr ())))
      (and3 p (kw kvs ''additionalProperties'' (\<lambda>a. kw_additional sub kvs a (JObj v))))"
    if q: "agrees q p" for q p m
  proof (cases "map_of kvs ''additionalProperties''")
    case None
    with q show ?thesis by (cases q) (simp_all add: kw_def)
  next
    case (Some a)
    then consider b where "a = JBool b" | cs where "a = JObj cs" using schema_args(8) [OF ok] by blast
    then show ?thesis
    proof cases
      case 1
      with Some q show ?thesis
        by (cases q) (auto simp: kw_def kw_additional_def agrees_def and3_def violation_def)
    next
      case 2
      with Some have "agrees (each (\<lambda>(name, x). visit a x (path @ ''.<field>'')) ?extra)
          (kw_additional sub kvs a (JObj v))"
        using sub_extra [OF Some] by (simp add: kw_additional_def)
      from agrees_bind [OF q this] Some 2 show ?thesis by (simp add: kw_def)
    qed
  qed
  show ?thesis
    unfolding validate_object_def conj3_simps and3_True py_get.simps rbind_simps props_json mapM_marked marked_extra
      Let_def json.case
    by (rule agrees_bind [OF agrees_required [OF ok, of v path] extra [OF properties], unfolded rbind_assoc])
qed

lemma count_matches_agrees:
  assumes "count_matches visit opts = Inr m" and "\<And>x. x \<in> set opts \<Longrightarrow> agrees (visit x) (sub x)"
  shows "None \<notin> sub ` set opts \<and> length (filter (\<lambda>r. r = Some True) (map sub opts)) = m"
  using assms
proof (induction opts arbitrary: m)
  case (Cons x xs)
  have x: "agrees (visit x) (sub x)" using Cons.prems(2) by simp
  have IH: "count_matches visit xs = Inr k \<Longrightarrow>
      None \<notin> sub ` set xs \<and> length (filter (\<lambda>r. r = Some True) (map sub xs)) = k" for k
    using Cons.IH Cons.prems(2) by simp
  show ?case
  proof (cases "is_violation (visit x)")
    case True
    with Cons.prems(1) have "count_matches visit xs = Inr m" by simp
    from IH [OF this] x True show ?thesis by (simp add: agrees_def)
  next
    case False
    with Cons.prems(1) obtain k where k: "visit x = Inr ()" "count_matches visit xs = Inr k" "m = Suc k"
      by (auto simp: rbind_Inr_iff)
    from IH [OF k(2)] x k show ?thesis by (simp add: agrees_def)
  qed
qed simp

lemma count_matches_Inl: "count_matches visit opts = Inl e \<Longrightarrow> \<not> is_violation (Inl e)"
  by (induction opts) (auto simp: rbind_Inl_iff split: if_splits)

lemma subschemas_self: "node \<in> set (subschemas node)"
  by (subst subschemas.simps) simp

lemma subschemas_child: "s \<in> set (subschemas node) \<Longrightarrow> c \<in> set (child_schemas s) \<Longrightarrow> c \<in> set (subschemas node)"
proof (induction node rule: subschemas.induct)
  case (1 node)
  from "1.prems"(1) consider "s = node" | d where "d \<in> set (child_schemas node)" "s \<in> set (subschemas d)"
    by (auto simp: subschemas.simps [of node])
  then show ?case
  proof cases
    case 1
    with "1.prems"(2) show ?thesis using subschemas_self [of c] by (auto simp: subschemas.simps [of node])
  next
    case 2
    with "1.IH" "1.prems"(2) show ?thesis by (auto simp: subschemas.simps [of node])
  qed
qed

text \<open>One level of the checker against one level of the semantics.\<close>

lemma kw_trivial [simp]: "kw kvs k (\<lambda>_. Some True) = Some True"
  by (simp add: kw_def split: option.split)

lemma kw_bound_None [simp]: "kw_bound r None = (\<lambda>_. Some True)"
  by (simp add: kw_bound_def fun_eq_iff)

text \<open>The keywords that look at the value by its type.\<close>

abbreviation value_keywords ::
  "regex_search \<Rightarrow> (json \<Rightarrow> json \<Rightarrow> bool option) \<Rightarrow> (string \<times> json) list \<Rightarrow> json \<Rightarrow> bool option" where
  "value_keywords rx sub kvs v \<equiv> conj3
     [kw kvs ''minLength'' (kw_bound (\<le>) (str_size v)),
      kw kvs ''maxLength'' (kw_bound (\<ge>) (str_size v)),
      kw kvs ''pattern'' (\<lambda>p. kw_pattern rx p v),
      kw kvs ''format'' (\<lambda>f. kw_format f v),
      kw kvs ''minimum'' (kw_bound (\<le>) (numeric v)),
      kw kvs ''maximum'' (kw_bound (\<ge>) (numeric v)),
      kw kvs ''minItems'' (kw_bound (\<le>) (arr_size v)),
      kw kvs ''maxItems'' (kw_bound (\<ge>) (arr_size v)),
      kw kvs ''uniqueItems'' (\<lambda>u. kw_unique u v),
      kw kvs ''items'' (\<lambda>items. kw_items sub items v),
      kw kvs ''required'' (\<lambda>names. kw_required names v),
      kw_properties sub kvs v,
      kw kvs ''additionalProperties'' (\<lambda>a. kw_additional sub kvs a v)]"

lemma value_keywords_by_type:
  "value_keywords rx sub kvs (JStr s) = conj3
     [kw kvs ''minLength'' (kw_bound (\<le>) (Some (of_nat (length s)))),
      kw kvs ''maxLength'' (kw_bound (\<ge>) (Some (of_nat (length s)))),
      kw kvs ''pattern'' (\<lambda>p. kw_pattern rx p (JStr s)),
      kw kvs ''format'' (\<lambda>f. kw_format f (JStr s))]"
  "numeric v = Some q \<Longrightarrow> value_keywords rx sub kvs v = conj3
     [kw kvs ''minimum'' (kw_bound (\<le>) (Some q)), kw kvs ''maximum'' (kw_bound (\<ge>) (Some q))]"
  "value_keywords rx sub kvs (JArr xs) = conj3
     [kw kvs ''minItems'' (kw_bound (\<le>) (Some (of_nat (length xs)))),
      kw kvs ''maxItems'' (kw_bound (\<ge>) (Some (of_nat (length xs)))),
      kw kvs ''uniqueItems'' (\<lambda>u. kw_unique u (JArr xs)),
      kw kvs ''items'' (\<lambda>items. kw_items sub items (JArr xs))]"
  "value_keywords rx sub kvs (JObj ys) = conj3
     [kw kvs ''required'' (\<lambda>names. kw_required names (JObj ys)),
      kw_properties sub kvs (JObj ys),
      kw kvs ''additionalProperties'' (\<lambda>a. kw_additional sub kvs a (JObj ys))]"
  "value_keywords rx sub kvs JNull = Some True" "value_keywords rx sub kvs (JBool b) = Some True"
  by (cases v; simp add: str_size_def arr_size_def kw_pattern_def kw_format_def kw_unique_def
      kw_items_def kw_required_def kw_properties_def kw_additional_def)+

lemma agrees_ref:
  assumes ok: "schema_ok whole (JObj kvs)"
    and refs: "\<And>t p. t \<in> set (subschemas whole) \<Longrightarrow> agrees (visit t p) (sub t)"
  shows "agrees (rbind (py_in ''$ref'' (JObj kvs)) (\<lambda>present.
        if \<not> present then Inr ()
        else rbind (py_getitem (JObj kvs) ''$ref'') (\<lambda>reference.
          rbind (resolve whole reference) (\<lambda>target. visit target path))))
    (kw kvs ''$ref'' (\<lambda>r. case resolve whole r of Inr target \<Rightarrow> sub target | Inl _ \<Rightarrow> None))"
proof (cases "map_of kvs ''$ref''")
  case None
  then have "''$ref'' \<notin> fst ` set kvs" by (simp add: map_of_eq_None_iff)
  with None show ?thesis by (simp add: kw_def agrees_Inr)
next
  case (Some a)
  then have "''$ref'' \<in> fst ` set kvs" by (metis map_of_eq_None_iff option.distinct(1))
  with Some schema_args(9) [OF ok Some] refs show ?thesis by (auto simp: kw_def)
qed

lemma agrees_one_of:
  assumes ok: "schema_ok whole (JObj kvs)"
    and subs: "\<And>c. c \<in> set (child_schemas (JObj kvs)) \<Longrightarrow> agrees (visit c) (sub c v)"
  shows "agrees (rbind (py_in ''oneOf'' (JObj kvs)) (\<lambda>present.
        if \<not> present then Inr ()
        else rbind (rbind (py_getitem (JObj kvs) ''oneOf'') py_iter) (\<lambda>options.
          rbind (count_matches visit options) (\<lambda>matches.
            if matches \<noteq> 1 then violation path m else Inr ()))))
    (kw kvs ''oneOf'' (\<lambda>opts. kw_one_of sub opts v))"
proof (cases "map_of kvs ''oneOf''")
  case None
  then have "''oneOf'' \<notin> fst ` set kvs" by (simp add: map_of_eq_None_iff)
  with None show ?thesis by (simp add: kw_def agrees_Inr)
next
  case (Some a)
  then have present: "''oneOf'' \<in> fst ` set kvs" by (metis map_of_eq_None_iff option.distinct(1))
  obtain opts where opts: "a = JArr opts" using schema_args(2) [OF ok Some] by blast
  then have visit: "\<And>x. x \<in> set opts \<Longrightarrow> agrees (visit x) (sub x v)"
    using subs Some by (simp add: child_schemas_def)
  show ?thesis
  proof (cases "count_matches visit opts")
    case (Inl e)
    with Some opts present count_matches_Inl [OF Inl] show ?thesis by (simp add: agrees_def)
  next
    case (Inr k)
    with count_matches_agrees [OF Inr visit] Some opts present show ?thesis
      by (auto simp: kw_def kw_one_of_def agrees_def Let_def image_iff split: if_splits)
  qed
qed

lemma agrees_node:
  assumes ok: "schema_ok whole (JObj kvs)" and plain: "plain_numbers v"
    and refs: "\<And>t p. t \<in> set (subschemas whole) \<Longrightarrow> agrees (validate_node rx n whole t v p) (conforms rx n whole t v)"
    and subs: "\<And>c x p. c \<in> set (child_schemas (JObj kvs)) \<Longrightarrow> plain_numbers x \<Longrightarrow>
      agrees (validate_node rx n whole c x p) (conforms rx n whole c x)"
  shows "agrees (validate_node rx (Suc n) whole (JObj kvs) v path) (conforms rx (Suc n) whole (JObj kvs) v)"
proof -
  have items: "c \<in> set (child_schemas (JObj kvs))" if "map_of kvs ''items'' = Some c" for c
    using that by (simp add: child_schemas_def)
  have declared: "c \<in> set (child_schemas (JObj kvs))" if "(name, c) \<in> set (declared kvs)" for name c
  proof -
    from that obtain cs where "map_of kvs ''properties'' = Some (JObj cs)" "(name, c) \<in> set cs"
      by (auto simp: declared_def split: option.splits json.splits dest: sym)
    then show ?thesis by (auto simp: child_schemas_def intro: rev_image_eqI)
  qed
  have additional: "c \<in> set (child_schemas (JObj kvs))"
    if "map_of kvs ''additionalProperties'' = Some c" "\<not> is_bool c" for c
    using that by (simp add: child_schemas_def)
  have array: "agrees (validate_array (validate_node rx n whole) (JObj kvs) xs path)
    (conj3 [kw kvs ''minItems'' (kw_bound (\<le>) (Some (of_nat (length xs)))),
            kw kvs ''maxItems'' (kw_bound (\<ge>) (Some (of_nat (length xs)))),
            kw kvs ''uniqueItems'' (\<lambda>u. kw_unique u (JArr xs)),
            kw kvs ''items'' (\<lambda>items. kw_items (conforms rx n whole) items (JArr xs))])" if "v = JArr xs" for xs
    by (rule agrees_array [OF ok]) (use plain that in \<open>auto intro!: subs items simp: list_all_iff\<close>)
  have object: "agrees (validate_object (validate_node rx n whole) (JObj kvs) xs path)
    (conj3 [kw kvs ''required'' (\<lambda>names. kw_required names (JObj xs)),
            kw_properties (conforms rx n whole) kvs (JObj xs),
            kw kvs ''additionalProperties'' (\<lambda>a. kw_additional (conforms rx n whole) kvs a (JObj xs))])"
    if "v = JObj xs" for xs
    by (rule agrees_object [OF ok])
      (use plain that in \<open>force intro!: subs intro: declared additional simp: list_all_iff\<close>)+
  have tail: "agrees (case v of
       JStr s \<Rightarrow> validate_string rx (JObj kvs) s path
     | JInt k \<Rightarrow> validate_number (JObj kvs) (of_int k) path
     | JFloat q \<Rightarrow> validate_number (JObj kvs) q path
     | JArr xs \<Rightarrow> validate_array (validate_node rx n whole) (JObj kvs) xs path
     | JObj xs \<Rightarrow> validate_object (validate_node rx n whole) (JObj kvs) xs path
     | _ \<Rightarrow> Inr ()) (value_keywords rx (conforms rx n whole) kvs v)"
    using array object agrees_string [OF ok] agrees_number [OF ok]
    by (cases v) (simp_all only: value_keywords_by_type(1,3-) value_keywords_by_type(2) [OF numeric.simps(1)]
        value_keywords_by_type(2) [OF numeric.simps(2)] json.case agrees_Inr)
  have "agrees (rbind (py_in ''$ref'' (JObj kvs)) (\<lambda>present.
        if \<not> present then Inr ()
        else rbind (py_getitem (JObj kvs) ''$ref'') (\<lambda>reference.
          rbind (resolve whole reference) (\<lambda>target. validate_node rx n whole target v path))))
      (kw kvs ''$ref'' (\<lambda>r. case resolve whole r of Inr target \<Rightarrow> conforms rx n whole target v | Inl _ \<Rightarrow> None))"
    by (rule agrees_ref [OF ok]) (rule refs)
  moreover have "agrees (rbind (py_in ''oneOf'' (JObj kvs)) (\<lambda>present.
        if \<not> present then Inr ()
        else rbind (rbind (py_getitem (JObj kvs) ''oneOf'') py_iter) (\<lambda>options.
          rbind (count_matches (\<lambda>option. validate_node rx n whole option v path) options) (\<lambda>matches.
            if matches \<noteq> 1 then violation path m else Inr ()))))
      (kw kvs ''oneOf'' (\<lambda>opts. kw_one_of (conforms rx n whole) opts v))" for m
    by (rule agrees_one_of [OF ok]) (rule subs [OF _ plain])
  ultimately show ?thesis
    unfolding validate_node.simps conforms.simps json.case conj3_simps(2) [of _ "_ # _ # _ # _ # _ # _ # _ # _ # _ # _ # _ # _ # _ # _"]
    by (intro agrees_bind agrees_type [OF ok plain] agrees_const agrees_enum [OF ok] tail)
qed

lemma check_keywords_error: "check_keywords node location = Inl e \<Longrightarrow> \<exists>m. e = SchemaError m"
proof (induction node arbitrary: location e rule: measure_induct_rule [of size])
  case (less node)
  show ?case
  proof (cases node)
    case (JObj kvs)
    have child: "\<exists>m. d = SchemaError m" if "check_keywords c l = Inl d" "size c < size (JObj kvs)" for c l d
      using less.IH [of c l d] that JObj by simp
    have objs: "\<exists>m. d = SchemaError m"
      if "each (\<lambda>(name, c). check_keywords c (f name)) cs = Inl d" "map_of kvs k = Some (JObj cs)" for f cs d k
      using each_Inl [OF that(1)] that(2) by (auto intro: child json_size_obj_child)
    have arrs: "\<exists>m. d = SchemaError m"
      if "each (\<lambda>(i, c). check_keywords c (f i)) (enumerate 0 cs) = Inl d" "map_of kvs k = Some (JArr cs)" for f cs d k
      using each_Inl [OF that(1)] that(2) by (auto intro: child json_size_arr_child)
    have section_error: "\<exists>m. d = SchemaError m"
      if "(case map_of kvs key of None \<Rightarrow> Inr ()
           | Some (JObj children) \<Rightarrow> each (\<lambda>(name, child). check_keywords child (f name)) children
           | Some _ \<Rightarrow> Inl (schema_error msg)) = Inl d" for key f msg d
      using that objs by (cases "map_of kvs key") (auto split: json.splits)
    have one_of_error: "\<exists>m. d = SchemaError m"
      if "(case map_of kvs key of None \<Rightarrow> Inr ()
           | Some (JArr children) \<Rightarrow> each (\<lambda>(i, child). check_keywords child (f i)) (enumerate 0 children)
           | Some _ \<Rightarrow> Inl (schema_error msg)) = Inl d" for key f msg d
      using that arrs by (cases "map_of kvs key") (auto split: json.splits)
    have item_error: "\<exists>m. d = SchemaError m"
      if "(case map_of kvs key of None \<Rightarrow> Inr () | Some c \<Rightarrow> check_keywords c l) = Inl d" for key l d
      using that by (cases "map_of kvs key") (auto intro: child json_size_item)
    have additional_error: "\<exists>m. d = SchemaError m"
      if "(case map_of kvs key of None \<Rightarrow> Inr () | Some c \<Rightarrow> if is_bool c then Inr () else check_keywords c l) = Inl d"
      for key l d
      using that by (cases "map_of kvs key") (auto intro: child json_size_item split: if_splits)
    show ?thesis
    proof (cases "unknown_keys kvs SUPPORTED_KEYWORDS = []")
      case False
      with less.prems JObj show ?thesis by (auto simp: check_keywords.simps [of "JObj kvs"])
    next
      case True
      from less.prems [unfolded JObj check_keywords.simps [of "JObj kvs"] json.case Let_def True
          not_True_eq_False refl simp_thms if_False rbind_Inl_iff]
      show ?thesis
        by (elim disjE exE conjE)
          ((drule each_Inl, erule bexE, erule section_error) | erule item_error | erule additional_error
            | erule one_of_error)+
    qed
  qed (use less.prems in \<open>auto simp: check_keywords.simps\<close>)
qed

lemma check_keywords_known:
  "check_keywords (JObj kvs) location = Inr () \<Longrightarrow> unknown_keys kvs SUPPORTED_KEYWORDS = []"
  by (rule ccontr) (simp add: check_keywords.simps [of "JObj kvs"])

lemma check_keywords_children:
  assumes "check_keywords (JObj kvs) location = Inr ()" and "c \<in> set (child_schemas (JObj kvs))"
  shows "\<exists>l. check_keywords c l = Inr ()"
proof -
  have known: "unknown_keys kvs SUPPORTED_KEYWORDS = []"
    using assms(1) by (rule check_keywords_known)
  note run = assms(1) [unfolded check_keywords.simps [of "JObj kvs"] json.case Let_def known
      not_True_eq_False refl simp_thms if_False rbind_Inr_iff each_Inr_iff]
  have objs: "\<exists>l. check_keywords c l = Inr ()"
    if "key \<in> set [''properties'', ''$defs'']" "map_of kvs key = Some (JObj cs)" "(a, c) \<in> set cs" for key cs a
  proof -
    from run that(1,2) have "each (\<lambda>(name, child). check_keywords child (location @ ''/'' @ key @ ''/'' @ name)) cs = Inr ()"
      by fastforce
    then have "\<forall>e \<in> set cs. check_keywords (snd e) (location @ ''/'' @ key @ ''/'' @ fst e) = Inr ()"
      by (simp add: each_Inr_iff split_def)
    with that(3) show ?thesis by fastforce
  qed
  have "\<exists>l. check_keywords c l = Inr ()" if "map_of kvs ''items'' = Some c" using run that by auto
  moreover have "\<exists>l. check_keywords c l = Inr ()" if "map_of kvs ''additionalProperties'' = Some c" "\<not> is_bool c"
    using run that by auto
  moreover have "\<exists>l. check_keywords c l = Inr ()" if "map_of kvs ''oneOf'' = Some (JArr cs)" "c \<in> set cs" for cs
  proof -
    have "c \<in> set (map snd (enumerate 0 cs))" using that(2) by simp
    then obtain i where "(i, c) \<in> set (enumerate 0 cs)" unfolding set_map by fastforce
    then show ?thesis using run that(1) by (fastforce simp: each_Inr_iff)
  qed
  ultimately show ?thesis
    using assms(2) objs [of "''properties''"] objs [of "''$defs''"]
    by (auto simp: child_schemas_def split: option.splits json.splits if_splits dest: sym)
qed

lemma check_keywords_subschemas:
  "check_keywords node location = Inr () \<Longrightarrow> s \<in> set (subschemas node) \<Longrightarrow> \<exists>l. check_keywords s l = Inr ()"
proof (induction node arbitrary: location rule: subschemas.induct)
  case (1 node)
  from "1.prems"(1) obtain kvs where node: "node = JObj kvs"
    by (cases node) (simp_all add: check_keywords.simps)
  from "1.prems"(2) consider "s = node" | d where "d \<in> set (child_schemas node)" "s \<in> set (subschemas d)"
    by (auto simp: subschemas.simps [of node])
  then show ?case
  proof cases
    case 2
    then obtain l where "check_keywords d l = Inr ()" using check_keywords_children "1.prems"(1) node by blast
    with "1.IH" 2 show ?thesis by blast
  qed (use "1.prems" in blast)
qed

section \<open>Depth\<close>

text \<open>Runs that do not end for lack of depth.\<close>

definition deep_enough :: "schema_exn + 'a \<Rightarrow> bool" where
  "deep_enough r \<longleftrightarrow> r \<noteq> Inl RecursionError"

lemma deep_simps [simp]:
  "deep_enough (Inr x)" "deep_enough (Inl (SchemaError e))" "deep_enough (Inl ReError)"
  "deep_enough (Inl (SchemaViolation m))" "deep_enough (violation path m)"
  by (simp_all add: deep_enough_def violation_def)

lemma deep_bind: "deep_enough r \<Longrightarrow> (\<And>x. r = Inr x \<Longrightarrow> deep_enough (f x)) \<Longrightarrow> deep_enough (rbind r f)"
  by (cases r) (auto simp: deep_enough_def)

lemma deep_each: "(\<And>x. x \<in> set xs \<Longrightarrow> deep_enough (f x)) \<Longrightarrow> deep_enough (each f xs)"
  using each_Inl [of f xs RecursionError] unfolding deep_enough_def by blast

lemma deep_count: "(\<And>x. x \<in> set xs \<Longrightarrow> deep_enough (f x)) \<Longrightarrow> deep_enough (count_matches f xs)"
  by (induction xs) (simp_all add: deep_bind)

lemma deep_values [simp]:
  "deep_enough (py_in k j)" "deep_enough (py_getitem j k)" "deep_enough (py_get j k d)" "deep_enough (py_iter j)"
  "deep_enough (py_number j)" "deep_enough (name_in j kvs)"
  by (cases j; simp split: option.split)+

lemma deep_type [simp]: "deep_enough (type_matches t v)"
  by (simp add: type_matches_def)

lemma deep_any_type [simp]: "deep_enough (any_type_matches ts v)"
  by (induction ts) (auto intro!: deep_bind)

lemma deep_reject: "(\<And>a. deep_enough (test a)) \<Longrightarrow> deep_enough (reject_if schema key test path m)"
  unfolding reject_if_def by (auto intro!: deep_bind)

lemma deep_string: "deep_enough (validate_string rx schema s path)"
  unfolding validate_string_def
  by (intro deep_bind deep_reject) (auto intro!: deep_bind split: json.split option.split)

lemma deep_number: "deep_enough (validate_number schema q path)"
  unfolding validate_number_def by (intro deep_bind deep_reject) (auto intro!: deep_bind)

lemma deep_array:
  assumes "\<And>c x p. map_of kvs ''items'' = Some c \<Longrightarrow> deep_enough (visit c x p)"
  shows "deep_enough (validate_array visit (JObj kvs) xs path)"
proof -
  have "deep_enough (case (case map_of kvs ''items'' of None \<Rightarrow> JNull | Some v \<Rightarrow> v) of
         JObj cs \<Rightarrow> each (\<lambda>(index, x). visit (case map_of kvs ''items'' of None \<Rightarrow> JNull | Some v \<Rightarrow> v) x
             (path @ ''['' @ str_nat index @ '']'')) (enumerate 0 xs)
       | _ \<Rightarrow> Inr ())"
    using assms by (cases "map_of kvs ''items''") (auto intro!: deep_each split: json.split)
  then show ?thesis
    unfolding validate_array_def py_get.simps rbind_simps
    by (intro deep_bind deep_reject) (auto intro!: deep_bind)
qed

lemma deep_object:
  assumes "\<And>name c x p. (name, c) \<in> set (declared kvs) \<Longrightarrow> deep_enough (visit c x p)"
    and "\<And>c x p. map_of kvs ''additionalProperties'' = Some c \<Longrightarrow> \<not> is_bool c \<Longrightarrow> deep_enough (visit c x p)"
  shows "deep_enough (validate_object visit (JObj kvs) v path)"
proof -
  let ?properties = "case map_of kvs ''properties'' of None \<Rightarrow> JObj [] | Some a \<Rightarrow> a"
  let ?additional = "case map_of kvs ''additionalProperties'' of None \<Rightarrow> JBool True | Some a \<Rightarrow> a"
  have props: "deep_enough (case ?properties of
            JObj ps \<Rightarrow> each (\<lambda>(name, child). case map_of v name of
                None \<Rightarrow> Inr ()
              | Some x \<Rightarrow> visit child x (path @ ''.'' @ name)) ps
          | _ \<Rightarrow> Inl (SchemaError AttributeError))"
  proof (cases ?properties)
    case (JObj ps)
    then have "set ps \<subseteq> set (declared kvs)" by (auto simp: declared_def split: option.splits)
    with JObj assms(1) show ?thesis by (auto intro!: deep_each split: option.split)
  qed simp_all
  have extra: "deep_enough (case ?additional of
          JObj _ \<Rightarrow> each (\<lambda>(name, x). visit ?additional x (path @ ''.<field>'')) es
        | _ \<Rightarrow> Inr ())" for es
    using assms(2) by (cases "map_of kvs ''additionalProperties''") (auto intro!: deep_each split: json.split)
  have marks: "deep_enough (mapM (\<lambda>(name, x). rbind (py_in name ?properties) (\<lambda>known. Inr (known, name, x))) v)"
    by (induction v) (auto intro!: deep_bind)
  have "deep_enough (require_name v path name)" for name
    unfolding require_name_def by (auto intro!: deep_bind)
  then show ?thesis
    unfolding validate_object_def py_get.simps rbind_simps Let_def
    by (intro deep_bind deep_each marks props extra deep_values) auto
qed

text \<open>
  A rank that falls from a schema to its subschemas and to what it refers to: the references have no
  cycle.
\<close>

definition ranks :: "(json \<Rightarrow> nat) \<Rightarrow> json \<Rightarrow> bool" where
  "ranks rank whole \<longleftrightarrow> (\<forall>s \<in> set (subschemas whole).
     (\<forall>c \<in> set (child_schemas s). rank c < rank s)
     \<and> (case s of JObj kvs \<Rightarrow> (case map_of kvs ''$ref'' of None \<Rightarrow> True
          | Some r \<Rightarrow> (case resolve whole r of Inr t \<Rightarrow> t \<in> set (subschemas whole) \<and> rank t < rank s | Inl _ \<Rightarrow> True))
        | _ \<Rightarrow> False))"

lemma resolve_deep [simp]: "deep_enough (resolve whole r)"
proof -
  have "deep_enough (resolve_parts node q parts)" for node q parts
    by (induction node q parts rule: resolve_parts.induct) (auto split: option.split)
  then show ?thesis
    by (auto simp: resolve_def intro!: deep_bind split: json.split)
qed

lemma declared_child: "(name, c) \<in> set (declared kvs) \<Longrightarrow> c \<in> set (child_schemas (JObj kvs))"
proof -
  assume "(name, c) \<in> set (declared kvs)"
  then obtain cs where "map_of kvs ''properties'' = Some (JObj cs)" "(name, c) \<in> set cs"
    by (auto simp: declared_def split: option.splits json.splits dest: sym)
  then show ?thesis by (auto simp: child_schemas_def intro: rev_image_eqI)
qed

lemma validate_node_deep:
  assumes "ranks rank whole" and "schema_family whole"
  shows "s \<in> set (subschemas whole) \<Longrightarrow> rank s < n \<Longrightarrow> deep_enough (validate_node rx n whole s v path)"
proof (induction n arbitrary: s v path)
  case (Suc n)
  have "schema_ok whole s" using assms(2) Suc.prems(1) by (simp add: schema_family_def list_all_iff)
  then obtain kvs where s: "s = JObj kvs" and ok: "schema_ok whole (JObj kvs)"
    by (cases s) (simp_all add: schema_ok_def)
  have child: "deep_enough (validate_node rx n whole c x p)" if "c \<in> set (child_schemas (JObj kvs))" for c x p
  proof -
    have "c \<in> set (subschemas whole)" "rank c < rank s"
      using that Suc.prems(1) s subschemas_child assms(1) unfolding ranks_def by blast+
    with Suc show ?thesis by simp
  qed
  have ref: "deep_enough (rbind (py_getitem (JObj kvs) ''$ref'') (\<lambda>reference.
      rbind (resolve whole reference) (\<lambda>target. validate_node rx n whole target v path)))"
  proof (cases "map_of kvs ''$ref''")
    case (Some r)
    then obtain t where t: "resolve whole r = Inr t" using schema_args(9) [OF ok] by blast
    then have "t \<in> set (subschemas whole) \<and> rank t < rank s"
      using assms(1) Suc.prems(1) s Some unfolding ranks_def by fastforce
    with Suc Some t show ?thesis by simp
  qed simp
  have one_of: "deep_enough (rbind (rbind (py_getitem (JObj kvs) ''oneOf'') py_iter) (\<lambda>options.
          rbind (count_matches (\<lambda>option. validate_node rx n whole option v path) options) (\<lambda>matches.
            if matches \<noteq> 1 then violation path m else Inr ())))" for m
  proof (cases "map_of kvs ''oneOf''")
    case (Some a)
    then obtain opts where "a = JArr opts" using schema_args(2) [OF ok] by blast
    with Some show ?thesis by (auto intro!: deep_bind deep_count child simp: child_schemas_def)
  qed simp
  have array: "deep_enough (validate_array (validate_node rx n whole) (JObj kvs) xs path)" for xs
    by (rule deep_array) (simp add: child child_schemas_def)
  have object: "deep_enough (validate_object (validate_node rx n whole) (JObj kvs) xs path)" for xs
    by (rule deep_object) (auto intro: child declared_child simp: child_schemas_def)
  have guarded: "deep_enough (rbind (py_in key (JObj kvs)) (\<lambda>present. if \<not> present then Inr () else r))"
    if "deep_enough r" for key and r :: "schema_exn + unit" using that by simp
  have typed: "deep_enough (rbind (any_type_matches ts v) (\<lambda>b. Inr (\<not> b)))" for ts
    by (rule deep_bind) simp_all
  have listed: "deep_enough (rbind (py_iter opts) (\<lambda>xs. Inr (\<not> json_eq_any xs v)))" for opts
    by (rule deep_bind) simp_all
  have tail: "deep_enough (case v of
       JStr s \<Rightarrow> validate_string rx (JObj kvs) s path
     | JInt k \<Rightarrow> validate_number (JObj kvs) (of_int k) path
     | JFloat q \<Rightarrow> validate_number (JObj kvs) q path
     | JArr xs \<Rightarrow> validate_array (validate_node rx n whole) (JObj kvs) xs path
     | JObj xs \<Rightarrow> validate_object (validate_node rx n whole) (JObj kvs) xs path
     | _ \<Rightarrow> Inr ())"
    by (cases v) (simp_all add: deep_string deep_number array object)
  show ?case
    unfolding s validate_node.simps
    by (rule deep_bind [OF guarded [OF ref]], rule deep_bind [OF guarded [OF one_of]])
      (intro deep_bind deep_reject typed listed tail deep_simps)
qed simp

section \<open>Properties\<close>

text \<open>
  No rule is skipped: \<open>validate\<close> gives a verdict on a value only for a schema all of whose
  subschemas are objects that use supported keywords and nothing else.
\<close>

lemma verdict_needs_supported_schema:
  assumes "validate rx depth schema v = Inr () \<or> is_violation (validate rx depth schema v)"
    and "s \<in> set (subschemas schema)"
  shows "\<exists>kvs. s = JObj kvs \<and> set (map fst kvs) \<subseteq> set SUPPORTED_KEYWORDS"
proof -
  have "check_keywords schema ''#'' = Inr ()"
    using assms(1) check_keywords_error [of schema "''#''"]
    by (cases "check_keywords schema ''#''") (auto simp: validate_def)
  from check_keywords_subschemas [OF this assms(2)] obtain l where l: "check_keywords s l = Inr ()" by blast
  then obtain kvs where s: "s = JObj kvs" by (cases s) (simp_all add: check_keywords.simps)
  with l have "unknown_keys kvs SUPPORTED_KEYWORDS = []" by (simp add: check_keywords_known)
  with s show ?thesis by (auto simp: unknown_keys_def obj_keys_def filter_empty_conv)
qed

text \<open>
  C19. The verdict is JSON Schema's: for a schema whose keywords have arguments of their types and
  whose references lead to its own subschemas, and a value without whole-number floats, \<open>validate\<close>
  returns only if the value conforms to the schema, and raises a violation only if it does not.
\<close>

theorem validate_agrees_with_json_schema:
  assumes "schema_family whole" and "plain_numbers v"
  shows "(validate rx depth whole v = Inr () \<longrightarrow> conforms rx depth whole whole v = Some True)
    \<and> (is_violation (validate rx depth whole v) \<longrightarrow> conforms rx depth whole whole v = Some False)"
proof -
  have "agrees (validate_node rx n whole s v p) (conforms rx n whole s v)"
    if "s \<in> set (subschemas whole)" "plain_numbers v" for n s v p
    using that
  proof (induction n arbitrary: s v p)
    case 0
    show ?case by (simp add: agrees_def)
  next
    case (Suc n)
    then have ok: "schema_ok whole s" using assms(1) by (simp add: schema_family_def list_all_iff)
    then obtain kvs where s: "s = JObj kvs" by (cases s) (simp_all add: schema_ok_def)
    show ?case
      unfolding s
    proof (rule agrees_node)
      show "schema_ok whole (JObj kvs)" "plain_numbers v" using ok s Suc.prems by simp_all
      show "agrees (validate_node rx n whole t v p) (conforms rx n whole t v)"
        if "t \<in> set (subschemas whole)" for t p using Suc that by blast
      show "agrees (validate_node rx n whole c x p) (conforms rx n whole c x)"
        if "c \<in> set (child_schemas (JObj kvs))" "plain_numbers x" for c x p
        using Suc that subschemas_child s by blast
    qed
  qed
  from this [OF subschemas_self assms(2)]
  have "agrees (validate_node rx depth whole whole v ''$'') (conforms rx depth whole whole v)" .
  then show ?thesis
    using check_keywords_error [of whole "''#''"]
    by (cases "check_keywords whole ''#''") (auto simp: validate_def agrees_def)
qed

text \<open>A schema with a reference, a list and alternatives, for the examples.\<close>

definition ex_schema :: json where
  "ex_schema = JObj [(''type'', JStr ''object''),
     (''$defs'', JObj [(''id'', JObj [(''type'', JStr ''string''), (''minLength'', JInt 1)])]),
     (''properties'', JObj [(''name'', JObj [(''$ref'', JStr ''#/$defs/id'')]),
        (''sizes'', JObj [(''type'', JStr ''array''), (''items'', JObj [(''type'', JStr ''integer'')]),
           (''uniqueItems'', JBool True)])]),
     (''required'', JArr [JStr ''name'']), (''additionalProperties'', JBool False)]"

definition ex_value :: json where
  "ex_value = JObj [(''name'', JStr ''mat''), (''sizes'', JArr [JInt 1, JInt 2])]"

definition no_regex :: regex_search where
  "no_regex pattern s = None"

lemma ex_schema_facts:
  "schema_family ex_schema" "plain_numbers ex_value" "validate no_regex 9 ex_schema ex_value = Inr ()"
  by code_simp+

theorem validate_agrees_with_json_schema_witness: "conforms no_regex 9 ex_schema ex_schema ex_value = Some True"
  using validate_agrees_with_json_schema [OF ex_schema_facts(1,2), of no_regex 9] ex_schema_facts(3) by blast

definition ex_number_schema :: json where
  "ex_number_schema =
     JObj [(''oneOf'', JArr [JObj [(''type'', JStr ''integer'')], JObj [(''type'', JStr ''number'')]])]"

text \<open>
  The exception to the agreement: the checker takes a whole-number float for no integer, so under a
  \<open>oneOf\<close> it can count one match where JSON Schema counts two, and accept a value JSON Schema refuses.
\<close>

lemma whole_float_accepted:
  "schema_family ex_number_schema
   \<and> validate no_regex 5 ex_number_schema (JFloat 1) = Inr ()
   \<and> conforms no_regex 5 ex_number_schema ex_number_schema (JFloat 1) = Some False"
proof (intro conjI)
  show "schema_family ex_number_schema" by code_simp
  show "validate no_regex 5 ex_number_schema (JFloat 1) = Inr ()" by code_simp
  show "conforms no_regex 5 ex_number_schema ex_number_schema (JFloat 1) = Some False"
    by (simp add: ex_number_schema_def eval_nat_numeral kw_def kw_one_of_def kw_type_def has_type_def and3_def
        kw_properties_def)
qed

text \<open>
  C20. Validation returns: for a well-formed schema whose references have no cycle, some depth is enough
  for every value, and with it \<open>validate\<close> does not run into the recursion limit.
\<close>

theorem validate_ends_without_cycles:
  assumes "schema_family whole" and "ranks rank whole" and "rank whole < depth"
  shows "validate rx depth whole v \<noteq> Inl RecursionError"
  using validate_node_deep [OF assms(2,1) subschemas_self assms(3), of rx v "''$''"] check_keywords_error [of whole "''#''"]
  by (cases "check_keywords whole ''#''") (auto simp: validate_def deep_enough_def)

definition ex_rank :: "json \<Rightarrow> nat" where
  "ex_rank s = (case s of JObj kvs \<Rightarrow> (if map_of kvs ''$defs'' \<noteq> None then 3 else if kvs = [(''type'', JStr ''integer'')] then 0
     else if map_of kvs ''minLength'' \<noteq> None then 0 else 1) | _ \<Rightarrow> 0)"

theorem validate_ends_without_cycles_witness: "validate no_regex 4 ex_schema (JArr [JNull]) \<noteq> Inl RecursionError"
proof (rule validate_ends_without_cycles [OF ex_schema_facts(1)])
  show "ranks ex_rank ex_schema" by code_simp
  show "ex_rank ex_schema < 4" by code_simp
qed

end
