(* ===== verification/Kernel_Uapi.thy ===== *)
theory Kernel_Uapi
  imports Prelude
begin

text \<open>
  The kernel interface catalogs, \<open>src/tools/hfxdev/kernel_uapi.py\<close>: the loader of one catalog, with the
  layout it computes for every structure, and the loader of the registry of catalogs.

  \<open>files\<close> gives the decoded document of a file (\<open>load_json\<close>) and \<open>sha\<close> its digest (\<open>sha256_file\<close>);
  the loops of the source are \<open>mapM\<close> and \<open>foldM\<close>.
\<close>

section \<open>Catalog data\<close>

definition PRIMITIVES :: "(string \<times> int \<times> int) list" where
  "PRIMITIVES = [(''u8'', 1, 1), (''u16'', 2, 2), (''u32'', 4, 4), (''i32'', 4, 4), (''u64'', 8, 8)]"

definition TOP_LEVEL_KEYS :: "string list" where
  "TOP_LEVEL_KEYS = [''$schema'', ''schema'', ''abi_version'', ''ioctl_magic'', ''limits'', ''enums'',
     ''structs'', ''ioctls'']"

definition REGISTRY_TOP_LEVEL_KEYS :: "string list" where
  "REGISTRY_TOP_LEVEL_KEYS = [''$schema'', ''schema'', ''entries'']"

definition REGISTRY_ENTRY_KEYS :: "string list" where
  "REGISTRY_ENTRY_KEYS = [''abi_version'', ''catalog'', ''schema'', ''schema_ref'', ''version_macro'', ''role'']"

definition MAX_IOCTL_STRUCT_BYTES :: int where
  "MAX_IOCTL_STRUCT_BYTES = 2 ^ 14"

record uapi_enum_value =
  ev_name :: string
  ev_value :: int

record uapi_enum =
  en_name :: string
  en_values :: "uapi_enum_value list"

datatype uapi_count = NoCount | CountOf int | CountLimit string

record uapi_field =
  uf_name :: string
  uf_type_name :: string
  uf_count :: uapi_count

record uapi_struct =
  us_name :: string
  us_fields :: "uapi_field list"
  us_size :: int
  us_alignment :: int

record uapi_ioctl =
  ui_name :: string
  ui_number :: int
  ui_direction :: string
  ui_struct_name :: string

record kernel_uapi =
  ku_abi_version :: int
  ku_ioctl_magic :: int
  ku_limits :: "(string \<times> int) list"
  ku_enums :: "uapi_enum list"
  ku_structs :: "uapi_struct list"
  ku_ioctls :: "uapi_ioctl list"
  ku_source_sha256 :: string

record kernel_uapi_registry_entry =
  re_abi_version :: int
  re_catalog_name :: string
  re_schema_name :: string
  re_schema_ref :: string
  re_version_macro :: string
  re_role :: string
  re_catalog :: kernel_uapi

record kernel_uapi_registry =
  kr_entries :: "kernel_uapi_registry_entry list"
  kr_source_sha256 :: string

section \<open>Checks of single values\<close>

definition uapi_name :: "json \<Rightarrow> string \<Rightarrow> model_error + string" where
  "uapi_name v label = (case v of
     JStr s \<Rightarrow> if word_of is_lower (\<lambda>c. is_lower c \<or> is_digit c \<or> c = CHR ''_'') s then Inr s
       else Inl (ModelError (''kernel UAPI '' @ label @ '' must be a canonical snake-case name''))
   | _ \<Rightarrow> Inl (ModelError (''kernel UAPI '' @ label @ '' must be a canonical snake-case name'')))"

definition uapi_integer :: "json \<Rightarrow> string \<Rightarrow> int \<Rightarrow> int option \<Rightarrow> model_error + int" where
  "uapi_integer v label minimum maximum = (case v of
     JInt n \<Rightarrow>
       if n < minimum then Inl (ModelError (''kernel UAPI '' @ label @ '' must be an integer >= '' @ str_int minimum))
       else (case maximum of
          Some hi \<Rightarrow> if n > hi then Inl (ModelError (''kernel UAPI '' @ label @ '' must be an integer <= '' @ str_int hi))
            else Inr n
        | None \<Rightarrow> Inr n)
   | _ \<Rightarrow> Inl (ModelError (''kernel UAPI '' @ label @ '' must be an integer >= '' @ str_int minimum)))"

definition uapi_exact_keys :: "(string \<times> json) list \<Rightarrow> string list \<Rightarrow> string \<Rightarrow> model_error + unit" where
  "uapi_exact_keys kvs expected label =
     (let missing = missing_keys kvs expected; unknown = unknown_keys kvs expected;
          detail = (if missing = [] then [] else [''missing '' @ join '', '' missing])
            @ (if unknown = [] then [] else [''unknown '' @ join '', '' unknown])
      in if detail \<noteq> [] then Inl (ModelError (''kernel UAPI '' @ label @ '': '' @ join ''; '' detail)) else Inr ())"

definition align_to :: "int \<Rightarrow> int \<Rightarrow> int" where
  "align_to offset alignment = (offset + alignment - 1) div alignment * alignment"

section \<open>Limits and enumerations\<close>

definition load_limit :: "string \<times> json \<Rightarrow> model_error + string \<times> int" where
  "load_limit entry =
     rbind (uapi_name (JStr (fst entry)) ''limit'') (\<lambda>name.
     rbind (uapi_integer (snd entry) (''limit '' @ name) 1 (Some 0xFFFFFFFFFFFFFFFF)) (\<lambda>n.
     Inr (name, n)))"

definition load_limits :: "json \<Rightarrow> model_error + (string \<times> int) list" where
  "load_limits raw = (case raw of
     JObj (e # es) \<Rightarrow> mapM load_limit (e # es)
   | _ \<Rightarrow> Inl (ModelError ''kernel UAPI limits must be a nonempty object''))"

definition load_enum_value :: "string \<Rightarrow> json \<Rightarrow> model_error + uapi_enum_value" where
  "load_enum_value name raw =
     rbind (object_or raw (''kernel UAPI enum '' @ name @ '' value must be an object'')) (\<lambda>kvs.
     rbind (uapi_exact_keys kvs [''name'', ''value''] (''enum '' @ name @ '' value'')) (\<lambda>_.
     rbind (rbind (item kvs ''name'') (\<lambda>v. uapi_name v (''enum '' @ name @ '' value''))) (\<lambda>value_name.
     rbind (rbind (item kvs ''value'') (\<lambda>v. uapi_integer v (''enum '' @ name @ '' value'') 0 (Some 0xFFFFFFFF))) (\<lambda>n.
     Inr \<lparr>ev_name = value_name, ev_value = n\<rparr>))))"

definition load_enum :: "json \<Rightarrow> model_error + uapi_enum" where
  "load_enum raw =
     rbind (object_or raw ''kernel UAPI enum must be an object'') (\<lambda>kvs.
     rbind (uapi_exact_keys kvs [''name'', ''values''] ''enum'') (\<lambda>_.
     rbind (rbind (item kvs ''name'') (\<lambda>v. uapi_name v ''enum'')) (\<lambda>name.
     rbind (rbind (item kvs ''values'') (\<lambda>v. nonempty_list_or v (''kernel UAPI enum '' @ name @ '' has no values''))) (\<lambda>raws.
     rbind (mapM (load_enum_value name) raws) (\<lambda>values.
     rbind (require_unique (map ev_name values) (''kernel UAPI '' @ name @ '' value name'')) (\<lambda>_.
     rbind (require_unique (map (\<lambda>v. str_int (ev_value v)) values) (''kernel UAPI '' @ name @ '' value'')) (\<lambda>_.
     Inr \<lparr>en_name = name, en_values = values\<rparr>)))))))"

section \<open>Structures\<close>

type_synonym layouts = "(string \<times> int \<times> int) list"

text \<open>The size and alignment of a field's type: a primitive or a structure declared before.\<close>

definition type_layout :: "layouts \<Rightarrow> string \<Rightarrow> (int \<times> int) option" where
  "type_layout ls t = (case map_of PRIMITIVES t of Some l \<Rightarrow> Some l | None \<Rightarrow> map_of ls t)"

definition resolve_count :: "(string \<times> int) list \<Rightarrow> string \<Rightarrow> json \<Rightarrow> model_error + uapi_count \<times> int" where
  "resolve_count limits name raw = (case raw of
     JStr _ \<Rightarrow>
       rbind (uapi_name raw (''struct '' @ name @ '' field count'')) (\<lambda>count.
         case map_of limits count of
           None \<Rightarrow> Inl (ModelError (''kernel UAPI struct '' @ name @ '' references unknown limit '' @ count))
         | Some n \<Rightarrow> Inr (CountLimit count, n))
   | JNull \<Rightarrow> Inr (NoCount, 1)
   | _ \<Rightarrow> rbind (uapi_integer raw (''struct '' @ name @ '' field count'') 1 None) (\<lambda>n. Inr (CountOf n, n)))"

text \<open>What one field contributes: the field, its element size, its alignment and how many elements.\<close>

definition load_field ::
  "(string \<times> int) list \<Rightarrow> layouts \<Rightarrow> string \<Rightarrow> json \<Rightarrow> model_error + uapi_field \<times> int \<times> int \<times> int" where
  "load_field limits ls name raw =
     rbind (object_or raw (''kernel UAPI struct '' @ name @ '' field must be an object'')) (\<lambda>kvs.
     if set (obj_keys kvs) \<noteq> {''name'', ''type''} \<and> set (obj_keys kvs) \<noteq> {''name'', ''type'', ''count''}
     then Inl (ModelError (''kernel UAPI struct '' @ name @ '' field has invalid keys''))
     else
       rbind (rbind (item kvs ''name'') (\<lambda>v. uapi_name v (''struct '' @ name @ '' field''))) (\<lambda>field_name.
       rbind (rbind (item kvs ''type'') (\<lambda>v. uapi_name v (''struct '' @ name @ '' field type''))) (\<lambda>type_name.
       case type_layout ls type_name of
         None \<Rightarrow> Inl (ModelError (''kernel UAPI struct '' @ name @ '' field '' @ field_name
           @ '' references an unknown or forward-declared type''))
       | Some (element_size, alignment) \<Rightarrow>
           rbind (resolve_count limits name (get_item kvs ''count'')) (\<lambda>(count, resolved).
             if resolved > 4096
             then Inl (ModelError (''kernel UAPI struct '' @ name @ '' field '' @ field_name @ '' is unbounded''))
             else Inr (\<lparr>uf_name = field_name, uf_type_name = type_name, uf_count = count\<rparr>,
                       element_size, alignment, resolved)))))"

text \<open>One round of the field loop: the fields so far, the offset after them and the alignment.\<close>

definition place_field ::
  "(string \<times> int) list \<Rightarrow> layouts \<Rightarrow> string \<Rightarrow> uapi_field list \<times> int \<times> int \<Rightarrow> json
    \<Rightarrow> model_error + uapi_field list \<times> int \<times> int" where
  "place_field limits ls name st raw =
     (let (fields, offset, struct_alignment) = st
      in rbind (load_field limits ls name raw) (\<lambda>(field, element_size, alignment, resolved).
           Inr (fields @ [field], align_to offset alignment + element_size * resolved,
                max struct_alignment alignment)))"

definition load_struct :: "(string \<times> int) list \<Rightarrow> layouts \<Rightarrow> json \<Rightarrow> model_error + uapi_struct" where
  "load_struct limits ls raw =
     rbind (object_or raw ''kernel UAPI struct must be an object'') (\<lambda>kvs.
     rbind (uapi_exact_keys kvs [''name'', ''fields''] ''struct'') (\<lambda>_.
     rbind (rbind (item kvs ''name'') (\<lambda>v. uapi_name v ''struct'')) (\<lambda>name.
     rbind (rbind (item kvs ''fields'') (\<lambda>v. nonempty_list_or v (''kernel UAPI struct '' @ name @ '' has no fields''))) (\<lambda>raws.
     rbind (foldM (place_field limits ls name) ([], 0, 1) raws) (\<lambda>(fields, offset, struct_alignment).
     rbind (require_unique (map uf_name fields) (''kernel UAPI '' @ name @ '' field'')) (\<lambda>_.
     let size = align_to offset struct_alignment
     in if size \<ge> MAX_IOCTL_STRUCT_BYTES
        then Inl (ModelError (''kernel UAPI struct '' @ name @ '' exceeds the Linux ioctl size field''))
        else Inr \<lparr>us_name = name, us_fields = fields, us_size = size, us_alignment = struct_alignment\<rparr>))))))"

definition struct_layout :: "uapi_struct \<Rightarrow> string \<times> int \<times> int" where
  "struct_layout s = (us_name s, us_size s, us_alignment s)"

text \<open>One round of the structure loop; a later structure of the same name hides an earlier one.\<close>

definition add_struct ::
  "(string \<times> int) list \<Rightarrow> uapi_struct list \<Rightarrow> json \<Rightarrow> model_error + uapi_struct list" where
  "add_struct limits structs raw =
     rbind (load_struct limits (rev (map struct_layout structs)) raw) (\<lambda>s. Inr (structs @ [s]))"

section \<open>Ioctls and the catalog\<close>

definition load_ioctl :: "string list \<Rightarrow> json \<Rightarrow> model_error + uapi_ioctl" where
  "load_ioctl struct_names raw =
     rbind (object_or raw ''kernel UAPI ioctl must be an object'') (\<lambda>kvs.
     rbind (uapi_exact_keys kvs [''name'', ''number'', ''direction'', ''struct''] ''ioctl'') (\<lambda>_.
     rbind (rbind (item kvs ''name'') (\<lambda>v. uapi_name v ''ioctl'')) (\<lambda>name.
     rbind (rbind (item kvs ''number'') (\<lambda>v. uapi_integer v (''ioctl '' @ name @ '' number'') 0 (Some 0xFF))) (\<lambda>number.
     rbind (item kvs ''direction'') (\<lambda>direction.
     rbind (in_strings direction [''read'', ''write'', ''read_write'']) (\<lambda>known.
     if \<not> known then Inl (ModelError (''kernel UAPI ioctl '' @ name @ '' has invalid direction''))
     else
       rbind (rbind (item kvs ''struct'') (\<lambda>v. uapi_name v (''ioctl '' @ name @ '' struct''))) (\<lambda>struct_name.
       if struct_name \<notin> set struct_names
       then Inl (ModelError (''kernel UAPI ioctl '' @ name @ '' references unknown struct '' @ struct_name))
       else Inr \<lparr>ui_name = name, ui_number = number,
           ui_direction = (case direction of JStr d \<Rightarrow> d | _ \<Rightarrow> []), ui_struct_name = struct_name\<rparr>)))))))"

definition load_catalog ::
  "(string \<Rightarrow> json option) \<Rightarrow> (string \<Rightarrow> string) \<Rightarrow> string \<Rightarrow> string \<Rightarrow> string \<Rightarrow> model_error + kernel_uapi" where
  "load_catalog files sha catalog_name schema_ref schema_name =
     (let path = ''uapi/'' @ catalog_name
      in rbind (load_json files path) (\<lambda>kvs.
     rbind (uapi_exact_keys kvs TOP_LEVEL_KEYS ''catalog'') (\<lambda>_.
     rbind (item kvs ''$schema'') (\<lambda>ref.
     if ref \<noteq> JStr schema_ref then Inl (ModelError ''kernel UAPI catalog has an unexpected schema reference'')
     else rbind (item kvs ''schema'') (\<lambda>schema.
     if schema \<noteq> JStr schema_name then Inl (ModelError ''unsupported kernel UAPI catalog schema'')
     else
     rbind (rbind (item kvs ''abi_version'') (\<lambda>v. uapi_integer v ''ABI version'' 1 (Some 0xFFFFFFFF))) (\<lambda>abi_version.
     rbind (rbind (item kvs ''ioctl_magic'') (\<lambda>v. uapi_integer v ''ioctl magic'' 1 (Some 0xFF))) (\<lambda>ioctl_magic.
     rbind (rbind (item kvs ''limits'') load_limits) (\<lambda>limits.
     rbind (rbind (item kvs ''enums'') (\<lambda>v. nonempty_list_or v ''kernel UAPI enums must be a nonempty array'')) (\<lambda>raw_enums.
     rbind (mapM load_enum raw_enums) (\<lambda>enums.
     rbind (require_unique (map en_name enums) ''kernel UAPI enum'') (\<lambda>_.
     rbind (rbind (item kvs ''structs'') (\<lambda>v. nonempty_list_or v ''kernel UAPI structs must be a nonempty array'')) (\<lambda>raw_structs.
     rbind (foldM (add_struct limits) [] raw_structs) (\<lambda>structs.
     rbind (require_unique (map us_name structs) ''kernel UAPI struct'') (\<lambda>_.
     rbind (rbind (item kvs ''ioctls'') (\<lambda>v. nonempty_list_or v ''kernel UAPI ioctls must be a nonempty array'')) (\<lambda>raw_ioctls.
     rbind (mapM (load_ioctl (map us_name structs)) raw_ioctls) (\<lambda>ioctls.
     rbind (require_unique (map ui_name ioctls) ''kernel UAPI ioctl'') (\<lambda>_.
     rbind (require_unique (map (\<lambda>i. str_int (ui_number i)) ioctls) ''kernel UAPI ioctl number'') (\<lambda>_.
     Inr \<lparr>ku_abi_version = abi_version, ku_ioctl_magic = ioctl_magic, ku_limits = limits, ku_enums = enums,
          ku_structs = structs, ku_ioctls = ioctls, ku_source_sha256 = sha path\<rparr>))))))))))))))))))"

definition load_kernel_uapi :: "(string \<Rightarrow> json option) \<Rightarrow> (string \<Rightarrow> string) \<Rightarrow> model_error + kernel_uapi" where
  "load_kernel_uapi files sha =
     load_catalog files sha ''kernel-uapi.json'' ''../schemas/kernel-uapi.schema.json'' ''hyperflux-kernel-uapi-v1''"

section \<open>The registry\<close>

text \<open>\<open>Path(name).name\<close>: the last component.\<close>

definition path_final_name :: "string \<Rightarrow> string" where
  "path_final_name s = (case posix_parts s of [] \<Rightarrow> [] | ps \<Rightarrow> last ps)"

definition local_json_name :: "json \<Rightarrow> model_error + string" where
  "local_json_name v = (case v of
     JStr s \<Rightarrow> if path_final_name s = s \<and> suffix_of ''.json'' s then Inr s
       else Inl (ModelError ''kernel UAPI registry catalog must be a local JSON file name'')
   | _ \<Rightarrow> Inl (ModelError ''kernel UAPI registry catalog must be a local JSON file name''))"

definition prefixed_string :: "string \<Rightarrow> string \<Rightarrow> json \<Rightarrow> model_error + string" where
  "prefixed_string start message v = (case v of
     JStr s \<Rightarrow> if prefix_of start s then Inr s else Inl (ModelError message)
   | _ \<Rightarrow> Inl (ModelError message))"

definition load_registry_entry ::
  "(string \<Rightarrow> json option) \<Rightarrow> (string \<Rightarrow> string) \<Rightarrow> json \<Rightarrow> model_error + kernel_uapi_registry_entry" where
  "load_registry_entry files sha raw =
     rbind (object_or raw ''kernel UAPI registry entry must be an object'') (\<lambda>kvs.
     rbind (uapi_exact_keys kvs REGISTRY_ENTRY_KEYS ''registry entry'') (\<lambda>_.
     rbind (rbind (item kvs ''abi_version'') (\<lambda>v. uapi_integer v ''registry ABI version'' 1 (Some 0xFFFFFFFF))) (\<lambda>abi_version.
     rbind (rbind (item kvs ''catalog'') local_json_name) (\<lambda>catalog_name.
     rbind (item kvs ''schema'') (\<lambda>raw_schema.
     rbind (item kvs ''schema_ref'') (\<lambda>raw_ref.
     rbind (prefixed_string ''hyperflux-kernel-uapi-'' ''kernel UAPI registry schema name is invalid'' raw_schema) (\<lambda>schema_name.
     rbind (prefixed_string ''../schemas/'' ''kernel UAPI registry schema reference is invalid'' raw_ref) (\<lambda>schema_ref.
     rbind (rbind (item kvs ''version_macro'') (\<lambda>v. uapi_name v ''registry version macro'')) (\<lambda>version_macro.
     rbind (rbind (item kvs ''role'') (\<lambda>v. uapi_name v ''registry role'')) (\<lambda>role.
     rbind (load_catalog files sha catalog_name schema_ref schema_name) (\<lambda>catalog.
     if ku_abi_version catalog \<noteq> abi_version
     then Inl (ModelError (''kernel UAPI registry ABI '' @ str_int abi_version @ '' does not match '' @ catalog_name))
     else Inr \<lparr>re_abi_version = abi_version, re_catalog_name = catalog_name, re_schema_name = schema_name,
       re_schema_ref = schema_ref, re_version_macro = version_macro, re_role = role,
       re_catalog = catalog\<rparr>)))))))))))"

definition is_baseline :: "kernel_uapi_registry_entry \<Rightarrow> bool" where
  "is_baseline e \<longleftrightarrow> re_abi_version e = 1 \<and> re_catalog_name e = ''kernel-uapi.json''
     \<and> re_version_macro e = ''abi_version'' \<and> re_role e = ''baseline''"

definition check_registry :: "kernel_uapi_registry_entry list \<Rightarrow> model_error + unit" where
  "check_registry entries =
     (let catalogs = map re_catalog entries
      in rbind (require_unique (map (\<lambda>e. str_int (re_abi_version e)) entries) ''kernel UAPI registry ABI'') (\<lambda>_.
     rbind (require_unique (map re_catalog_name entries) ''kernel UAPI registry catalog'') (\<lambda>_.
     rbind (require_unique (map re_version_macro entries) ''kernel UAPI registry version macro'') (\<lambda>_.
     rbind (require_unique (map re_role entries) ''kernel UAPI registry role'') (\<lambda>_.
     if map re_abi_version entries \<noteq> sort (map re_abi_version entries)
     then Inl (ModelError ''kernel UAPI registry entries must be ordered by ABI version'')
     else if \<not> is_baseline (hd entries)
     then Inl (ModelError ''kernel UAPI registry must preserve the v1 baseline first'')
     else if list_ex (\<lambda>c. ku_ioctl_magic c \<noteq> ku_ioctl_magic (hd catalogs)) catalogs
     then Inl (ModelError ''kernel UAPI registry catalogs must share one ioctl magic'')
     else
       rbind (require_unique (concat (map (\<lambda>c. map en_name (ku_enums c)) catalogs)) ''kernel UAPI registry enum'') (\<lambda>_.
       rbind (require_unique (concat (map (\<lambda>c. map us_name (ku_structs c)) catalogs)) ''kernel UAPI registry struct'') (\<lambda>_.
       rbind (require_unique (concat (map (\<lambda>c. map fst (ku_limits c)) catalogs)) ''kernel UAPI registry limit'') (\<lambda>_.
       rbind (require_unique (concat (map (\<lambda>c. map ui_name (ku_ioctls c)) catalogs)) ''kernel UAPI registry ioctl'') (\<lambda>_.
       require_unique (concat (map (\<lambda>c. map (\<lambda>i. str_int (ui_number i)) (ku_ioctls c)) catalogs))
         ''kernel UAPI registry ioctl number'')))))))))"

definition load_kernel_uapi_registry ::
  "(string \<Rightarrow> json option) \<Rightarrow> (string \<Rightarrow> string) \<Rightarrow> model_error + kernel_uapi_registry" where
  "load_kernel_uapi_registry files sha =
     rbind (load_json files ''uapi/registry.json'') (\<lambda>kvs.
     rbind (uapi_exact_keys kvs REGISTRY_TOP_LEVEL_KEYS ''registry'') (\<lambda>_.
     rbind (item kvs ''$schema'') (\<lambda>ref.
     if ref \<noteq> JStr ''../schemas/kernel-uapi-registry.schema.json''
     then Inl (ModelError ''kernel UAPI registry has an unexpected schema reference'')
     else rbind (item kvs ''schema'') (\<lambda>schema.
     if schema \<noteq> JStr ''hyperflux-kernel-uapi-registry-v1''
     then Inl (ModelError ''unsupported kernel UAPI registry schema'')
     else
     rbind (rbind (item kvs ''entries'') (\<lambda>v.
       nonempty_list_or v ''kernel UAPI registry entries must be a nonempty array'')) (\<lambda>raws.
     rbind (mapM (load_registry_entry files sha) raws) (\<lambda>entries.
     rbind (check_registry entries) (\<lambda>_.
     Inr \<lparr>kr_entries = entries, kr_source_sha256 = sha ''uapi/registry.json''\<rparr>)))))))"

text \<open>\<open>KernelUapi.struct\<close> and \<open>KernelUapiRegistry.baseline\<close>; \<open>next\<close> of an empty generator raises.\<close>

definition uapi_struct_named :: "kernel_uapi \<Rightarrow> string \<Rightarrow> uapi_struct option" where
  "uapi_struct_named k name = find (\<lambda>s. us_name s = name) (ku_structs k)"

definition registry_baseline :: "kernel_uapi_registry \<Rightarrow> kernel_uapi" where
  "registry_baseline r = re_catalog (hd (kr_entries r))"

section \<open>Structure layout\<close>

text \<open>
  The layout rule of C: every field, given by its byte length and alignment, stands at the least
  aligned offset not before the end of the field before it, and the structure ends at the least
  multiple of its alignment not before the end of its last field.
\<close>

fun packed :: "int \<Rightarrow> (int \<times> int) list \<Rightarrow> int list \<Rightarrow> int \<Rightarrow> bool" where
  "packed start [] [] stop \<longleftrightarrow> stop = start"
| "packed start ((len, al) # fs) (off # offs) stop \<longleftrightarrow>
     start \<le> off \<and> off < start + al \<and> al dvd off \<and> packed (off + len) fs offs stop"
| "packed start _ _ stop \<longleftrightarrow> False"

definition c_layout :: "(int \<times> int) list \<Rightarrow> int list \<Rightarrow> int \<Rightarrow> int \<Rightarrow> bool" where
  "c_layout fs offs whole al \<longleftrightarrow> al = Max (insert 1 (snd ` set fs))
     \<and> (\<exists>stop. packed 0 fs offs stop \<and> stop \<le> whole \<and> whole < stop + al \<and> al dvd whole)"

text \<open>The byte length and alignment of a field whose type and count are known.\<close>

fun count_value :: "(string \<times> int) list \<Rightarrow> uapi_count \<Rightarrow> int option" where
  "count_value limits NoCount = Some 1"
| "count_value limits (CountOf n) = Some n"
| "count_value limits (CountLimit l) = map_of limits l"

definition field_shape :: "(string \<times> int) list \<Rightarrow> layouts \<Rightarrow> uapi_field \<Rightarrow> (int \<times> int) option" where
  "field_shape limits ls f = (case (type_layout ls (uf_type_name f), count_value limits (uf_count f)) of
     (Some (width, al), Some n) \<Rightarrow> if 1 \<le> n \<and> n \<le> 4096 then Some (width * n, al) else None
   | _ \<Rightarrow> None)"

lemma packed_snoc:
  "packed a fs offs b \<Longrightarrow> b \<le> off \<Longrightarrow> off < b + al \<Longrightarrow> al dvd off
   \<Longrightarrow> packed a (fs @ [(len, al)]) (offs @ [off]) (off + len)"
  by (induction a fs offs b rule: packed.induct) auto

lemma align_to_bounds:
  assumes "0 < al"
  shows "n \<le> align_to n al" and "align_to n al < n + al" and "al dvd align_to n al"
proof -
  have "(n + al - 1) div al * al = n + al - 1 - (n + al - 1) mod al"
    by (simp add: minus_mod_eq_div_mult)
  moreover have "0 \<le> (n + al - 1) mod al" "(n + al - 1) mod al < al" using assms by auto
  ultimately show "n \<le> align_to n al" "align_to n al < n + al" by (auto simp: align_to_def)
  show "al dvd align_to n al" by (simp add: align_to_def)
qed

lemma packed_grows:
  "packed a fs offs b \<Longrightarrow> (\<And>len al. (len, al) \<in> set fs \<Longrightarrow> 0 < len) \<Longrightarrow> a \<le> b \<and> (fs \<noteq> [] \<longrightarrow> a < b)"
  by (induction a fs offs b rule: packed.induct) force+

definition good_layout :: "int \<Rightarrow> int \<Rightarrow> bool" where
  "good_layout width al \<longleftrightarrow> 0 < width \<and> al \<in> {1, 2, 4, 8}"

definition good_layouts :: "layouts \<Rightarrow> bool" where
  "good_layouts ls \<longleftrightarrow> (\<forall>(n, width, al) \<in> set ls. good_layout width al)"

definition good_limits :: "(string \<times> int) list \<Rightarrow> bool" where
  "good_limits limits \<longleftrightarrow> (\<forall>(l, n) \<in> set limits. 1 \<le> n \<and> n \<le> 0xFFFFFFFFFFFFFFFF)"

lemma type_layout_good:
  assumes "good_layouts ls" and "type_layout ls t = Some (width, al)"
  shows "good_layout width al"
proof -
  have "(t, width, al) \<in> set PRIMITIVES \<union> set ls"
    using assms(2) by (auto simp: type_layout_def split: option.splits dest: map_of_SomeD)
  moreover have "\<forall>(n, width, al) \<in> set PRIMITIVES. good_layout width al"
    by (simp add: PRIMITIVES_def good_layout_def)
  ultimately show ?thesis using assms(1) by (auto simp: good_layouts_def)
qed

lemma uapi_integer_Inr [result_simps]:
  "uapi_integer v label lo hi = Inr n \<longleftrightarrow> v = JInt n \<and> lo \<le> n \<and> (\<forall>h. hi = Some h \<longrightarrow> n \<le> h)"
  by (auto simp: uapi_integer_def split: json.splits option.splits if_splits)

lemma load_limits_good:
  assumes "load_limits raw = Inr limits"
  shows "good_limits limits"
  unfolding good_limits_def
proof clarify
  fix l n
  assume "(l, n) \<in> set limits"
  moreover have "\<exists>es. mapM load_limit es = Inr limits"
    using assms by (auto simp: load_limits_def simp del: mapM.simps split: json.splits list.splits)
  ultimately obtain e where "load_limit e = Inr (l, n)" by (metis mapM_in_set)
  then show "1 \<le> n \<and> n \<le> 0xFFFFFFFFFFFFFFFF"
    by (auto simp: load_limit_def result_simps)
qed

lemma resolve_count_value:
  assumes "resolve_count limits name raw = Inr (count, n)" and "good_limits limits"
  shows "count_value limits count = Some n \<and> 1 \<le> n"
  using assms
  by (auto simp: resolve_count_def good_limits_def result_simps split: json.splits option.splits dest: map_of_SomeD)

lemma load_field_shape:
  assumes "load_field limits ls name raw = Inr (f, width, al, n)" and "good_limits limits" and "good_layouts ls"
  shows "field_shape limits ls f = Some (width * n, al)" and "good_layout (width * n) al"
proof -
  obtain kvs count where rc: "resolve_count limits name (get_item kvs ''count'') = Inr (count, n)"
    and f: "type_layout ls (uf_type_name f) = Some (width, al)" "uf_count f = count" "n \<le> 4096"
    using assms(1)
    by (auto simp: load_field_def rbind_Inr_iff split: if_splits option.splits)
  have n: "count_value limits count = Some n" "1 \<le> n" using resolve_count_value [OF rc assms(2)] by auto
  show "field_shape limits ls f = Some (width * n, al)" using f n by (simp add: field_shape_def)
  show "good_layout (width * n) al"
    using type_layout_good [OF assms(3) f(1)] n by (simp add: good_layout_def)
qed

text \<open>What the field loop has built: the shapes of its fields, packed up to the current offset.\<close>

definition placed :: "(string \<times> int) list \<Rightarrow> layouts \<Rightarrow> (int \<times> int) list \<Rightarrow> int list \<Rightarrow> uapi_field list \<times> int \<times> int \<Rightarrow> bool" where
  "placed limits ls shapes offs st \<longleftrightarrow> (case st of (done_fields, offset, al) \<Rightarrow>
     map (field_shape limits ls) done_fields = map Some shapes \<and> packed 0 shapes offs offset
     \<and> al = Max (insert 1 (snd ` set shapes)) \<and> (\<forall>(len, al) \<in> set shapes. good_layout len al))"

lemma place_field_placed:
  assumes "place_field limits ls name st raw = Inr st'" and "good_limits limits" and "good_layouts ls"
    and "placed limits ls shapes offs st"
  shows "\<exists>shapes offs. shapes \<noteq> [] \<and> placed limits ls shapes offs st'"
proof -
  obtain done_fields offset al where st: "st = (done_fields, offset, al)" by (cases st)
  obtain f width fal n where lf: "load_field limits ls name raw = Inr (f, width, fal, n)"
    and st': "st' = (done_fields @ [f], align_to offset fal + width * n, max al fal)"
    using assms(1) by (auto simp: place_field_def st rbind_Inr_iff)
  note shape = load_field_shape [OF lf assms(2,3)]
  have pos: "0 < fal" using shape(2) by (auto simp: good_layout_def)
  have "packed 0 (shapes @ [(width * n, fal)]) (offs @ [align_to offset fal]) (align_to offset fal + width * n)"
    using assms(4) by (auto simp: placed_def st intro: packed_snoc align_to_bounds [OF pos])
  moreover have "Max (insert 1 (snd ` set (shapes @ [(width * n, fal)]))) = max al fal"
  proof -
    have "insert 1 (snd ` set (shapes @ [(width * n, fal)])) = insert fal (insert 1 (snd ` set shapes))" by auto
    then show ?thesis
      using assms(4) Max_insert [of "insert 1 (snd ` set shapes)" fal] by (simp add: placed_def st max.commute)
  qed
  ultimately have "placed limits ls (shapes @ [(width * n, fal)]) (offs @ [align_to offset fal]) st'"
    using assms(4) shape by (simp add: placed_def st st')
  then show ?thesis by blast
qed

lemma fields_placed:
  assumes "foldM (place_field limits ls name) ([], 0, 1) raws = Inr st" and "raws \<noteq> []"
    and "good_limits limits" and "good_layouts ls"
  shows "\<exists>shapes offs. shapes \<noteq> [] \<and> placed limits ls shapes offs st"
proof -
  have start: "placed limits ls [] [] ([], 0, 1)" by (simp add: placed_def)
  obtain raw rest where raws: "raws = rest @ [raw]" using assms(2) by (metis rev_exhaust)
  from assms(1) obtain st1 where 1: "foldM (place_field limits ls name) ([], 0, 1) rest = Inr st1"
    "place_field limits ls name st1 raw = Inr st"
    by (auto simp: raws foldM_append rbind_Inr_iff)
  have "\<exists>shapes offs. placed limits ls shapes offs st1"
    by (rule foldM_invariant [OF 1(1), where P = "\<lambda>st. \<exists>shapes offs. placed limits ls shapes offs st"])
       (use start place_field_placed [OF _ assms(3,4)] in blast)+
  then show ?thesis using place_field_placed [OF 1(2) assms(3,4)] by blast
qed

lemma load_struct_layout:
  assumes "load_struct limits ls raw = Inr s" and "good_limits limits" and "good_layouts ls"
  shows "\<exists>shapes offs. map (field_shape limits ls) (us_fields s) = map Some shapes \<and> distinct (map uf_name (us_fields s))
      \<and> c_layout shapes offs (us_size s) (us_alignment s)"
    and "good_layout (us_size s) (us_alignment s)" and "us_size s < 2 ^ 14"
proof -
  obtain name raws flds offset al where
    placing: "foldM (place_field limits ls name) ([], 0, 1) raws = Inr (flds, offset, al)" and "raws \<noteq> []"
    and "distinct (map uf_name flds)" and bound: "align_to offset al < 2 ^ 14"
    and s: "s = \<lparr>us_name = name, us_fields = flds, us_size = align_to offset al, us_alignment = al\<rparr>"
    using assms(1)
    by (auto simp: load_struct_def nonempty_list_or_def MAX_IOCTL_STRUCT_BYTES_def Let_def rbind_Inr_iff
        require_unique_Inr simp del: foldM.simps split: if_splits json.splits list.splits)
  obtain shapes offs where sh: "shapes \<noteq> []" "placed limits ls shapes offs (flds, offset, al)"
    using fields_placed [OF placing \<open>raws \<noteq> []\<close> assms(2,3)] by blast
  have al_in: "al \<in> insert 1 (snd ` set shapes)"
    using sh by (simp add: placed_def del: Max_insert) (metis Max_in finite_insert finite_imageI finite_set insert_iff insert_not_empty)
  then have al: "al \<in> {1, 2, 4, 8}" using sh by (auto simp: placed_def good_layout_def)
  then have pos: "0 < al" by auto
  have offset: "0 < offset"
    using packed_grows [of 0 shapes offs offset] sh by (auto simp: placed_def good_layout_def)
  show "\<exists>shapes offs. map (field_shape limits ls) (us_fields s) = map Some shapes \<and> distinct (map uf_name (us_fields s))
      \<and> c_layout shapes offs (us_size s) (us_alignment s)"
    using sh \<open>distinct (map uf_name flds)\<close> align_to_bounds [OF pos, of offset]
    by (auto simp: s placed_def c_layout_def)
  show "good_layout (us_size s) (us_alignment s)"
    using al offset align_to_bounds(1) [OF pos, of offset] by (simp add: s good_layout_def)
  show "us_size s < 2 ^ 14" using bound by (simp add: s)
qed

text \<open>The structures a catalog declares, each laid out over those before it.\<close>

definition laid_out :: "(string \<times> int) list \<Rightarrow> layouts \<Rightarrow> uapi_struct \<Rightarrow> bool" where
  "laid_out limits ls s \<longleftrightarrow> (\<exists>shapes offs. map (field_shape limits ls) (us_fields s) = map Some shapes
       \<and> c_layout shapes offs (us_size s) (us_alignment s))
     \<and> distinct (map uf_name (us_fields s)) \<and> good_layout (us_size s) (us_alignment s) \<and> us_size s < 2 ^ 14"

definition structs_laid_out :: "(string \<times> int) list \<Rightarrow> uapi_struct list \<Rightarrow> bool" where
  "structs_laid_out limits structs \<longleftrightarrow>
     (\<forall>i < length structs. laid_out limits (rev (map struct_layout (take i structs))) (structs ! i))"

lemma add_struct_laid_out:
  assumes "add_struct limits structs raw = Inr structs'" and "good_limits limits" and "structs_laid_out limits structs"
  shows "structs_laid_out limits structs'"
proof -
  let ?ls = "rev (map struct_layout structs)"
  obtain s where s: "load_struct limits ?ls raw = Inr s" and structs': "structs' = structs @ [s]"
    using assms(1) by (auto simp: add_struct_def rbind_Inr_iff)
  have "good_layouts ?ls"
    using assms(3)
    by (auto simp: good_layouts_def structs_laid_out_def laid_out_def struct_layout_def in_set_conv_nth)
  then have "laid_out limits ?ls s"
    using load_struct_layout [OF s assms(2)] by (auto simp: laid_out_def)
  then show ?thesis
    using assms(3) by (auto simp: structs_laid_out_def structs' nth_append less_Suc_eq)
qed

section \<open>What a loaded catalog guarantees\<close>

lemma type_layout_rev: "distinct (map fst ls) \<Longrightarrow> type_layout (rev ls) = type_layout ls"
  using map_of_inject_set [of "rev ls" ls]
  by (intro ext) (simp add: type_layout_def rev_map [symmetric] split: option.split)

lemma load_ioctl_Inr:
  assumes "load_ioctl names raw = Inr i"
  shows "ui_struct_name i \<in> set names" and "0 \<le> ui_number i" and "ui_number i \<le> 0xFF"
    and "ui_direction i \<in> {''read'', ''write'', ''read_write''}"
  using assms
  by (auto simp: load_ioctl_def result_simps in_strings_True split: if_splits)

lemma load_catalog_Inr:
  assumes "load_catalog files sha catalog_name schema_ref schema_name = Inr k"
  shows "\<exists>raw. load_limits raw = Inr (ku_limits k)"
    and "\<exists>raws. mapM load_enum raws = Inr (ku_enums k)"
    and "\<exists>raws. foldM (add_struct (ku_limits k)) [] raws = Inr (ku_structs k)"
    and "\<exists>raws. mapM (load_ioctl (map us_name (ku_structs k))) raws = Inr (ku_ioctls k)"
    and "1 \<le> ku_ioctl_magic k \<and> ku_ioctl_magic k \<le> 0xFF"
    and "distinct (map en_name (ku_enums k))" and "distinct (map us_name (ku_structs k))"
    and "distinct (map ui_name (ku_ioctls k))" and "distinct (map (\<lambda>i. str_int (ui_number i)) (ku_ioctls k))"
  using assms
  by (auto simp: load_catalog_def Let_def rbind_Inr_iff uapi_integer_Inr require_unique_Inr split: if_splits)

lemma load_catalog_laid_out:
  assumes "load_catalog files sha catalog_name schema_ref schema_name = Inr k"
  shows "structs_laid_out (ku_limits k) (ku_structs k)"
proof -
  obtain raws where raws: "foldM (add_struct (ku_limits k)) [] raws = Inr (ku_structs k)"
    using load_catalog_Inr(3) [OF assms] by blast
  have limits: "good_limits (ku_limits k)" using load_catalog_Inr(1) [OF assms] load_limits_good by blast
  show ?thesis
    by (rule foldM_invariant [OF raws]) (auto simp: structs_laid_out_def [of _ "[]"] intro: add_struct_laid_out limits)
qed

lemma catalog_structs_follow_c_layout_facts:
  assumes "load_catalog files sha catalog_name schema_ref schema_name = Inr k" and "i < length (ku_structs k)"
    and "s = ku_structs k ! i" and "earlier = map struct_layout (take i (ku_structs k))"
  shows "\<exists>shapes offs. map (field_shape (ku_limits k) earlier) (us_fields s) = map Some shapes
       \<and> c_layout shapes offs (us_size s) (us_alignment s)"
    and "distinct (map uf_name (us_fields s))"
    and "us_alignment s \<in> {1, 2, 4, 8}" and "0 < us_size s \<and> us_size s < 2 ^ 14"
proof -
  have "laid_out (ku_limits k) (rev earlier) s"
    using load_catalog_laid_out [OF assms(1)] assms(2-4) by (simp add: structs_laid_out_def)
  moreover have "distinct (map fst earlier)"
    using load_catalog_Inr(7) [OF assms(1)]
    by (simp add: assms(4) struct_layout_def comp_def take_map [symmetric] distinct_take)
  ultimately have "laid_out (ku_limits k) earlier s"
    using type_layout_rev by (simp add: laid_out_def field_shape_def [abs_def])
  then show "\<exists>shapes offs. map (field_shape (ku_limits k) earlier) (us_fields s) = map Some shapes
       \<and> c_layout shapes offs (us_size s) (us_alignment s)"
    and "distinct (map uf_name (us_fields s))"
    and "us_alignment s \<in> {1, 2, 4, 8}" and "0 < us_size s \<and> us_size s < 2 ^ 14"
    by (simp_all only: laid_out_def good_layout_def)
qed

text \<open>
  C21. Every structure of a loaded catalog is laid out as C lays it out: all its field types are
  primitives or structures declared before it, every count is known and between 1 and 4096, the
  fields stand at the least aligned offsets in order, the size is the least multiple of the
  alignment that holds them, and the size is positive and fits the 14 bits an ioctl has for it.
\<close>

theorem catalog_structs_follow_c_layout:
  assumes "load_catalog files sha catalog_name schema_ref schema_name = Inr k" and "i < length (ku_structs k)"
    and "s = ku_structs k ! i" and "earlier = map struct_layout (take i (ku_structs k))"
  shows "(\<exists>shapes offs. map (field_shape (ku_limits k) earlier) (us_fields s) = map Some shapes
       \<and> c_layout shapes offs (us_size s) (us_alignment s))
     \<and> distinct (map uf_name (us_fields s))
     \<and> us_alignment s \<in> {1, 2, 4, 8} \<and> 0 < us_size s \<and> us_size s < 2 ^ 14"
  using catalog_structs_follow_c_layout_facts [OF assms] by (intro conjI) (simp_all only:)

lemma catalog_ioctls_resolve_facts:
  assumes "load_catalog files sha catalog_name schema_ref schema_name = Inr k" and "c \<in> set (ku_ioctls k)"
  shows "\<exists>s \<in> set (ku_structs k). uapi_struct_named k (ui_struct_name c) = Some s \<and> us_name s = ui_struct_name c
       \<and> (\<forall>s' \<in> set (ku_structs k). us_name s' = ui_struct_name c \<longrightarrow> s' = s)"
    and "0 \<le> ui_number c \<and> ui_number c \<le> 255 \<and> ui_direction c \<in> {''read'', ''write'', ''read_write''}"
    and "\<forall>c' \<in> set (ku_ioctls k). ui_number c' = ui_number c \<longrightarrow> c' = c"
    and "1 \<le> ku_ioctl_magic k \<and> ku_ioctl_magic k \<le> 255"
proof -
  obtain raw where raw: "load_ioctl (map us_name (ku_structs k)) raw = Inr c"
    using load_catalog_Inr(4) [OF assms(1)] assms(2) by (metis mapM_in_set)
  then obtain s where s: "s \<in> set (ku_structs k)" "us_name s = ui_struct_name c"
    using load_ioctl_Inr(1) by fastforce
  have only: "s' = s" if "s' \<in> set (ku_structs k)" "us_name s' = ui_struct_name c" for s'
    using load_catalog_Inr(7) [OF assms(1)] s that by (simp add: distinct_map inj_on_def)
  have "uapi_struct_named k (ui_struct_name c) \<noteq> None"
    using s by (auto simp: uapi_struct_named_def find_None_iff)
  then have "uapi_struct_named k (ui_struct_name c) = Some s"
    using only by (fastforce simp: uapi_struct_named_def find_Some_iff in_set_conv_nth)
  then show "\<exists>s \<in> set (ku_structs k). uapi_struct_named k (ui_struct_name c) = Some s \<and> us_name s = ui_struct_name c
       \<and> (\<forall>s' \<in> set (ku_structs k). us_name s' = ui_struct_name c \<longrightarrow> s' = s)"
    using s only by blast
  show "0 \<le> ui_number c \<and> ui_number c \<le> 255 \<and> ui_direction c \<in> {''read'', ''write'', ''read_write''}"
    using load_ioctl_Inr [OF raw] by blast
  show "\<forall>c' \<in> set (ku_ioctls k). ui_number c' = ui_number c \<longrightarrow> c' = c"
    using load_catalog_Inr(9) [OF assms(1)] assms(2) by (simp add: distinct_map inj_on_def)
  show "1 \<le> ku_ioctl_magic k \<and> ku_ioctl_magic k \<le> 255" using load_catalog_Inr(5) [OF assms(1)] by simp
qed

text \<open>
  Every ioctl of a loaded catalog has a number of eight bits that no other has, a known direction,
  and carries exactly one of the catalog's structures, which \<open>KernelUapi.struct\<close> finds; the magic
  is a nonzero byte.
\<close>

lemma catalog_ioctls_resolve:
  assumes "load_catalog files sha catalog_name schema_ref schema_name = Inr k" and "c \<in> set (ku_ioctls k)"
  shows "(\<exists>s \<in> set (ku_structs k). uapi_struct_named k (ui_struct_name c) = Some s \<and> us_name s = ui_struct_name c
       \<and> (\<forall>s' \<in> set (ku_structs k). us_name s' = ui_struct_name c \<longrightarrow> s' = s))
     \<and> 0 \<le> ui_number c \<and> ui_number c \<le> 255 \<and> ui_direction c \<in> {''read'', ''write'', ''read_write''}
     \<and> (\<forall>c' \<in> set (ku_ioctls k). ui_number c' = ui_number c \<longrightarrow> c' = c)
     \<and> 1 \<le> ku_ioctl_magic k \<and> ku_ioctl_magic k \<le> 255"
  using catalog_ioctls_resolve_facts [OF assms] by (intro conjI) (simp_all only:)

section \<open>What a loaded registry guarantees\<close>

lemma distinct_concat_map_disjoint:
  assumes "distinct (concat (map h xs))" and "x \<in> set xs" and "y \<in> set xs" and "x \<noteq> y"
  shows "set (h x) \<inter> set (h y) = {}"
  using assms
proof (induction xs)
  case (Cons a xs)
  then have "set (h a) \<inter> (\<Union>z \<in> set xs. set (h z)) = {}" by simp
  then show ?case using Cons by (cases "x = a"; cases "y = a") auto
qed simp

lemma distinct_concat_map_eq:
  assumes "distinct (concat (map (\<lambda>x. map f (g x)) xs))"
    and "x \<in> set xs" and "y \<in> set xs" and "u \<in> set (g x)" and "v \<in> set (g y)" and "f u = f v"
  shows "x = y \<and> u = v"
proof (rule ccontr)
  assume "\<not> (x = y \<and> u = v)"
  then consider "x \<noteq> y" | "x = y" "u \<noteq> v" by blast
  then show False
  proof cases
    case 1
    show False
      using distinct_concat_map_disjoint [OF assms(1-3) 1] assms(4-6) by auto
  next
    case 2
    have "distinct (map f (g x))" using assms(1,2) by (induction xs) auto
    then show False using 2 assms(4-6) by (auto simp: distinct_map inj_on_def)
  qed
qed

lemma load_registry_entry_Inr:
  assumes "load_registry_entry files sha raw = Inr e"
  shows "load_catalog files sha (re_catalog_name e) (re_schema_ref e) (re_schema_name e) = Inr (re_catalog e)"
    and "ku_abi_version (re_catalog e) = re_abi_version e"
  using assms by (auto simp: load_registry_entry_def rbind_Inr_iff split: if_splits)

lemma load_registry_Inr:
  assumes "load_kernel_uapi_registry files sha = Inr r"
  shows "\<exists>raws. raws \<noteq> [] \<and> mapM (load_registry_entry files sha) raws = Inr (kr_entries r)"
    and "check_registry (kr_entries r) = Inr ()"
proof -
  obtain raw m raws where raws: "nonempty_list_or raw m = Inr raws"
      "mapM (load_registry_entry files sha) raws = Inr (kr_entries r)"
    and check: "check_registry (kr_entries r) = Inr ()"
    using assms by (auto simp: load_kernel_uapi_registry_def rbind_Inr_iff split: if_splits)
  show "check_registry (kr_entries r) = Inr ()" by (rule check)
  have "raws \<noteq> []" using raws(1) by (auto simp: nonempty_list_or_def split: json.splits list.splits)
  then show "\<exists>raws. raws \<noteq> [] \<and> mapM (load_registry_entry files sha) raws = Inr (kr_entries r)"
    using raws(2) by blast
qed

lemma check_registry_Inr:
  assumes "check_registry es = Inr ()"
  shows "sorted_wrt (<) (map re_abi_version es)" and "is_baseline (hd es)"
    and "\<forall>e \<in> set es. ku_ioctl_magic (re_catalog e) = ku_ioctl_magic (re_catalog (hd es))"
    and "distinct (concat (map (\<lambda>e. map (\<lambda>i. str_int (ui_number i)) (ku_ioctls (re_catalog e))) es))"
    and "distinct (concat (map (\<lambda>e. map us_name (ku_structs (re_catalog e))) es))"
    and "distinct es"
proof -
  have ids: "distinct (map (\<lambda>e. str_int (re_abi_version e)) es)"
    and sorted: "map re_abi_version es = sort (map re_abi_version es)"
    using assms by (auto simp: check_registry_def Let_def rbind_Inr_iff require_unique_Inr split: if_splits)
  from ids show "distinct es" by (simp add: distinct_map)
  from ids have "distinct (map re_abi_version es)" by (auto simp: distinct_map inj_on_def)
  then show "sorted_wrt (<) (map re_abi_version es)"
    using sorted by (metis sorted_sort strict_sorted_iff)
  show "is_baseline (hd es)"
    and "distinct (concat (map (\<lambda>e. map (\<lambda>i. str_int (ui_number i)) (ku_ioctls (re_catalog e))) es))"
    and "distinct (concat (map (\<lambda>e. map us_name (ku_structs (re_catalog e))) es))"
    using assms by (auto simp: check_registry_def Let_def rbind_Inr_iff require_unique_Inr comp_def split: if_splits)
  show "\<forall>e \<in> set es. ku_ioctl_magic (re_catalog e) = ku_ioctl_magic (re_catalog (hd es))"
  proof (cases es)
    case Cons
    then show ?thesis using assms by (auto simp: check_registry_def Let_def list_ex_iff rbind_Inr_iff split: if_splits)
  qed simp
qed

lemma registry_is_unambiguous_facts:
  assumes "load_kernel_uapi_registry files sha = Inr r"
  shows "sorted_wrt (<) (map re_abi_version (kr_entries r))"
    and "kr_entries r \<noteq> [] \<and> is_baseline (hd (kr_entries r)) \<and> ku_abi_version (registry_baseline r) = 1"
    and "e \<in> set (kr_entries r) \<Longrightarrow>
           load_catalog files sha (re_catalog_name e) (re_schema_ref e) (re_schema_name e) = Inr (re_catalog e)
           \<and> ku_abi_version (re_catalog e) = re_abi_version e
           \<and> ku_ioctl_magic (re_catalog e) = ku_ioctl_magic (registry_baseline r)"
    and "e \<in> set (kr_entries r) \<Longrightarrow> e' \<in> set (kr_entries r) \<Longrightarrow> c \<in> set (ku_ioctls (re_catalog e))
         \<Longrightarrow> c' \<in> set (ku_ioctls (re_catalog e')) \<Longrightarrow> ui_number c = ui_number c' \<Longrightarrow> e = e' \<and> c = c'"
    and "e \<in> set (kr_entries r) \<Longrightarrow> e' \<in> set (kr_entries r) \<Longrightarrow> s \<in> set (ku_structs (re_catalog e))
         \<Longrightarrow> s' \<in> set (ku_structs (re_catalog e')) \<Longrightarrow> us_name s = us_name s' \<Longrightarrow> e = e' \<and> s = s'"
proof -
  note checked = check_registry_Inr [OF load_registry_Inr(2) [OF assms]]
  obtain raws where "raws \<noteq> []" and raws: "mapM (load_registry_entry files sha) raws = Inr (kr_entries r)"
    using load_registry_Inr(1) [OF assms] by blast
  then have nonempty: "kr_entries r \<noteq> []" using mapM_length [OF raws] by auto
  have entry: "\<exists>raw. load_registry_entry files sha raw = Inr e" if "e \<in> set (kr_entries r)" for e
    using mapM_in_set [OF raws that] by metis
  show "sorted_wrt (<) (map re_abi_version (kr_entries r))" by (rule checked(1))
  show "kr_entries r \<noteq> [] \<and> is_baseline (hd (kr_entries r)) \<and> ku_abi_version (registry_baseline r) = 1"
    using nonempty checked(2) entry [of "hd (kr_entries r)"] load_registry_entry_Inr(2)
    by (fastforce simp: registry_baseline_def is_baseline_def)
  show "load_catalog files sha (re_catalog_name e) (re_schema_ref e) (re_schema_name e) = Inr (re_catalog e)
       \<and> ku_abi_version (re_catalog e) = re_abi_version e
       \<and> ku_ioctl_magic (re_catalog e) = ku_ioctl_magic (registry_baseline r)" if "e \<in> set (kr_entries r)"
    using entry [OF that] load_registry_entry_Inr checked(3) that by (fastforce simp: registry_baseline_def)
  show "e = e' \<and> c = c'" if "e \<in> set (kr_entries r)" "e' \<in> set (kr_entries r)" "c \<in> set (ku_ioctls (re_catalog e))"
      "c' \<in> set (ku_ioctls (re_catalog e'))" "ui_number c = ui_number c'"
    by (rule distinct_concat_map_eq [OF checked(4) that(1-4)]) (simp add: that(5))
  show "e = e' \<and> s = s'" if "e \<in> set (kr_entries r)" "e' \<in> set (kr_entries r)" "s \<in> set (ku_structs (re_catalog e))"
      "s' \<in> set (ku_structs (re_catalog e'))" "us_name s = us_name s'"
    by (rule distinct_concat_map_eq [OF checked(5) that])
qed

text \<open>
  C22. A loaded registry is strictly ordered by ABI version and starts with the version-1 baseline; every
  entry is the catalog its file loads to, of the version it names; all catalogs share the magic of
  the baseline; and an ioctl number, as a structure name, belongs to one catalog and one ioctl, as
  a structure, of the whole registry.
\<close>

theorem registry_is_unambiguous:
  assumes "load_kernel_uapi_registry files sha = Inr r"
  shows "sorted_wrt (<) (map re_abi_version (kr_entries r))
     \<and> kr_entries r \<noteq> [] \<and> is_baseline (hd (kr_entries r)) \<and> ku_abi_version (registry_baseline r) = 1
     \<and> (\<forall>e \<in> set (kr_entries r).
           load_catalog files sha (re_catalog_name e) (re_schema_ref e) (re_schema_name e) = Inr (re_catalog e)
           \<and> ku_abi_version (re_catalog e) = re_abi_version e
           \<and> ku_ioctl_magic (re_catalog e) = ku_ioctl_magic (registry_baseline r))
     \<and> (\<forall>e \<in> set (kr_entries r). \<forall>e' \<in> set (kr_entries r). \<forall>c \<in> set (ku_ioctls (re_catalog e)).
           \<forall>c' \<in> set (ku_ioctls (re_catalog e')). ui_number c = ui_number c' \<longrightarrow> e = e' \<and> c = c')
     \<and> (\<forall>e \<in> set (kr_entries r). \<forall>e' \<in> set (kr_entries r). \<forall>s \<in> set (ku_structs (re_catalog e)).
           \<forall>s' \<in> set (ku_structs (re_catalog e')). us_name s = us_name s' \<longrightarrow> e = e' \<and> s = s')"
  using registry_is_unambiguous_facts [OF assms] by (intro conjI ballI impI) simp_all

section \<open>A small catalog\<close>

definition ex_catalog_document :: json where
  "ex_catalog_document = JObj [(''$schema'', JStr ''../schemas/kernel-uapi.schema.json''),
     (''schema'', JStr ''hyperflux-kernel-uapi-v1''), (''abi_version'', JInt 1), (''ioctl_magic'', JInt 72),
     (''limits'', JObj [(''leds'', JInt 3)]),
     (''enums'', JArr [JObj [(''name'', JStr ''kind''),
        (''values'', JArr [JObj [(''name'', JStr ''none''), (''value'', JInt 0)]])]]),
     (''structs'', JArr [
        JObj [(''name'', JStr ''rgb''), (''fields'', JArr [
           JObj [(''name'', JStr ''flag''), (''type'', JStr ''u8'')],
           JObj [(''name'', JStr ''color''), (''type'', JStr ''u32''), (''count'', JStr ''leds'')]])],
        JObj [(''name'', JStr ''frame''), (''fields'', JArr [
           JObj [(''name'', JStr ''pair''), (''type'', JStr ''rgb''), (''count'', JInt 2)],
           JObj [(''name'', JStr ''stamp''), (''type'', JStr ''u64'')]])]]),
     (''ioctls'', JArr [JObj [(''name'', JStr ''put''), (''number'', JInt 1), (''direction'', JStr ''write''),
        (''struct'', JStr ''frame'')]])]"

definition ex_registry_document :: json where
  "ex_registry_document = JObj [(''$schema'', JStr ''../schemas/kernel-uapi-registry.schema.json''),
     (''schema'', JStr ''hyperflux-kernel-uapi-registry-v1''),
     (''entries'', JArr [JObj [(''abi_version'', JInt 1), (''catalog'', JStr ''kernel-uapi.json''),
        (''schema'', JStr ''hyperflux-kernel-uapi-v1''), (''schema_ref'', JStr ''../schemas/kernel-uapi.schema.json''),
        (''version_macro'', JStr ''abi_version''), (''role'', JStr ''baseline'')]])]"

definition ex_files :: "string \<Rightarrow> json option" where
  "ex_files path = (if path = ''uapi/kernel-uapi.json'' then Some ex_catalog_document
     else if path = ''uapi/registry.json'' then Some ex_registry_document else None)"

definition ex_uapi :: kernel_uapi where
  "ex_uapi = \<lparr>ku_abi_version = 1, ku_ioctl_magic = 72, ku_limits = [(''leds'', 3)],
     ku_enums = [\<lparr>en_name = ''kind'', en_values = [\<lparr>ev_name = ''none'', ev_value = 0\<rparr>]\<rparr>],
     ku_structs = [
       \<lparr>us_name = ''rgb'', us_fields = [\<lparr>uf_name = ''flag'', uf_type_name = ''u8'', uf_count = NoCount\<rparr>,
          \<lparr>uf_name = ''color'', uf_type_name = ''u32'', uf_count = CountLimit ''leds''\<rparr>], us_size = 16, us_alignment = 4\<rparr>,
       \<lparr>us_name = ''frame'', us_fields = [\<lparr>uf_name = ''pair'', uf_type_name = ''rgb'', uf_count = CountOf 2\<rparr>,
          \<lparr>uf_name = ''stamp'', uf_type_name = ''u64'', uf_count = NoCount\<rparr>], us_size = 40, us_alignment = 8\<rparr>],
     ku_ioctls = [\<lparr>ui_name = ''put'', ui_number = 1, ui_direction = ''write'', ui_struct_name = ''frame''\<rparr>],
     ku_source_sha256 = ''ab''\<rparr>"

definition ex_registry :: kernel_uapi_registry where
  "ex_registry = \<lparr>kr_entries = [\<lparr>re_abi_version = 1, re_catalog_name = ''kernel-uapi.json'',
       re_schema_name = ''hyperflux-kernel-uapi-v1'', re_schema_ref = ''../schemas/kernel-uapi.schema.json'',
       re_version_macro = ''abi_version'', re_role = ''baseline'', re_catalog = ex_uapi\<rparr>],
     kr_source_sha256 = ''ab''\<rparr>"

lemma ex_catalog_loads:
  "load_catalog ex_files (\<lambda>_. ''ab'') ''kernel-uapi.json'' ''../schemas/kernel-uapi.schema.json''
     ''hyperflux-kernel-uapi-v1'' = Inr ex_uapi"
  by code_simp

lemma ex_registry_loads: "load_kernel_uapi_registry ex_files (\<lambda>_. ''ab'') = Inr ex_registry"
  by code_simp

theorem catalog_structs_follow_c_layout_witness:
  "(\<exists>shapes offs. map (field_shape (ku_limits ex_uapi) (map struct_layout (take 1 (ku_structs ex_uapi))))
       (us_fields (ku_structs ex_uapi ! 1)) = map Some shapes
     \<and> c_layout shapes offs (us_size (ku_structs ex_uapi ! 1)) (us_alignment (ku_structs ex_uapi ! 1)))
   \<and> us_size (ku_structs ex_uapi ! 1) = 40"
  using catalog_structs_follow_c_layout [OF ex_catalog_loads, of 1, OF _ refl refl]
  by (simp add: ex_uapi_def)

theorem registry_is_unambiguous_witness:
  "sorted_wrt (<) (map re_abi_version (kr_entries ex_registry)) \<and> kr_entries ex_registry \<noteq> []"
  using registry_is_unambiguous [OF ex_registry_loads] by (elim conjE) (intro conjI)

end
