(* ===== verification/Testgraph.thy ===== *)
theory Testgraph
  imports Prelude "HOL-Library.AList" "HOL-Library.Multiset" "HOL-Library.Sublist"
begin

text \<open>
  The verification graph, \<open>src/tools/hfxdev/testgraph.py\<close>: the test catalog and its loader, the order
  in which tests run, and the selection of tests for a lane and a set of changed paths.

  Dictionaries are association lists in insertion order (\<open>AList.update\<close>, \<open>AList.delete\<close>).  The
  order in which Python iterates over a set is a parameter, \<open>iteration\<close>: any function that lists
  the elements of its argument.  \<open>globs\<close> says whether a glob matches a file of the repository, and
  \<open>render\<close> is \<open>str\<close> of a decoded value that is no string, used in error messages only.
\<close>

section \<open>Catalog data\<close>

definition CATALOG_KEYS :: "string list" where
  "CATALOG_KEYS = [''$schema'', ''schema'', ''tests'']"

definition TEST_KEYS :: "string list" where
  "TEST_KEYS = [''id'', ''title'', ''owned_domain'', ''lanes'', ''runner'', ''required_capabilities'',
     ''hardware_requirement'', ''writes_hardware'', ''expected_duration_seconds'', ''timeout_seconds'',
     ''dependencies'', ''isolation'', ''cache_inputs'', ''produced_evidence'', ''resume_policy'']"

definition LANES :: "string list" where
  "LANES = [''fast'', ''full-software'', ''hardware'']"

definition HARDWARE_REQUIREMENTS :: "string list" where
  "HARDWARE_REQUIREMENTS = [''none'', ''optional'', ''required'']"

definition ISOLATION_LEVELS :: "string list" where
  "ISOLATION_LEVELS = [''shared'', ''exclusive-process'', ''exclusive-system'', ''exclusive-hardware'']"

definition RESUME_POLICIES :: "string list" where
  "RESUME_POLICIES = [''rerun'', ''reuse-verified'', ''checkpoint'']"

definition KNOWN_RUNNERS :: "string list" where
  "KNOWN_RUNNERS = [''assurance-contracts'', ''dependency-security-contracts'', ''foundation-contracts'',
     ''schema-contracts'', ''schema-instances'', ''integration-contracts'', ''profile-contracts'',
     ''device-knowledge-contracts'', ''native-onboarding-contracts'', ''repository-atlas-contracts'',
     ''protocol-contracts'', ''error-contracts'', ''formal-model-contracts'', ''governance-contracts'',
     ''generated-freshness'', ''privacy-boundary'', ''python-unit'', ''toolchain-contract'',
     ''development-environment-contracts'', ''repository-documentation-contracts'',
     ''device-qualification-console-contracts'', ''rust-format'', ''rust-clippy'', ''rust-unit'',
     ''rust-property-contracts'', ''rust-coverage-contracts'', ''quality-contracts'',
     ''simulator-contracts'', ''cpp-sdk-contracts'', ''openrgb-adapter-contracts'',
     ''openrgb-native-route-contracts'', ''openrgb-thread-sanitizer'', ''openrazer-metadata-contracts'',
     ''openrazer-native-route-contracts'', ''openrazer-version-matrix-contracts'',
     ''kernel-profile-contracts'', ''package-contracts'']"

record test_node =
  tn_id :: string
  tn_title :: string
  tn_owned_domain :: string
  tn_lanes :: "string list"
  tn_runner :: string
  tn_required_capabilities :: "string list"
  tn_hardware_requirement :: string
  tn_writes_hardware :: bool
  tn_expected_duration_seconds :: int
  tn_timeout_seconds :: int
  tn_dependencies :: "string list"
  tn_isolation :: string
  tn_cache_inputs :: "string list"
  tn_produced_evidence :: "string list"
  tn_resume_policy :: string

record test_catalog =
  tc_nodes :: "test_node list"

record test_selection =
  ts_lane :: string
  ts_mode :: string
  ts_nodes :: "test_node list"
  ts_changed_paths :: "string list"
  ts_unmatched_paths :: "string list"

section \<open>Execution order\<close>

type_synonym pending = "(string \<times> string list) list"

definition by_id :: "test_node list \<Rightarrow> (string \<times> test_node) list" where
  "by_id nodes = foldl (\<lambda>d n. AList.update (tn_id n) n d) [] nodes"

definition initial_pending :: "test_node list \<Rightarrow> pending" where
  "initial_pending nodes = foldl (\<lambda>d n. AList.update (tn_id n) (remdups (tn_dependencies n)) d) [] nodes"

definition ready_ids :: "test_node list \<Rightarrow> pending \<Rightarrow> string list" where
  "ready_ids nodes remaining = filter (\<lambda>i. map_of remaining i = Some []) (map tn_id nodes)"

text \<open>One step of the inner loop: append the node, drop its entry and its id from all other entries.\<close>

definition schedule ::
  "(string \<times> test_node) list \<Rightarrow> test_node list \<times> pending \<Rightarrow> string \<Rightarrow> model_error + test_node list \<times> pending" where
  "schedule ids st node_id =
     (let (sched, remaining) = st
      in case map_of ids node_id of
           None \<Rightarrow> Inl (KeyError node_id)
         | Some n \<Rightarrow>
             if node_id \<notin> fst ` set remaining then Inl (KeyError node_id)
             else Inr (sched @ [n], map (\<lambda>(k, ds). (k, removeAll node_id ds)) (AList.delete node_id remaining)))"

lemma schedule_Inr:
  assumes "schedule ids (sched, remaining) i = Inr (sched', remaining')"
  shows "\<exists>n. map_of ids i = Some n \<and> sched' = sched @ [n]" and "i \<in> fst ` set remaining"
    and "remaining' = map (\<lambda>(k, ds). (k, removeAll i ds)) (AList.delete i remaining)"
  using assms by (auto simp: schedule_def split: option.splits if_splits)

lemma schedule_shrinks:
  assumes "schedule ids st i = Inr st'"
  shows "length (snd st') < length (snd st)"
proof -
  obtain a b a' b' where st: "st = (a, b)" "st' = (a', b')" by (cases st; cases st')
  then have "i \<in> fst ` set b" "b' = map (\<lambda>(k, ds). (k, removeAll i ds)) (AList.delete i b)"
    using schedule_Inr [of ids a b i a' b'] assms by auto
  then show ?thesis
    using length_filter_less [of _ b "\<lambda>(k', _). i \<noteq> k'"] by (force simp: st AList.delete_eq)
qed

lemma schedules_shrink:
  "foldM (schedule ids) st is = Inr st' \<Longrightarrow> length (snd st') + length is \<le> length (snd st)"
proof (induction "is" arbitrary: st)
  case (Cons i "is")
  then obtain st1 where "schedule ids st i = Inr st1" "foldM (schedule ids) st1 is = Inr st'"
    by (auto simp: rbind_Inr_iff)
  then show ?case using Cons.IH [of st1] schedule_shrinks [of ids st i st1] by simp
qed simp

function order_rounds ::
  "test_node list \<Rightarrow> (string \<times> test_node) list \<Rightarrow> test_node list \<Rightarrow> pending \<Rightarrow> model_error + test_node list" where
  "order_rounds nodes ids sched remaining =
     (if remaining = [] then Inr sched
      else if ready_ids nodes remaining = []
      then Inl (ModelError (''verification dependency cycle includes: '' @ join '', '' (py_sorted (map fst remaining))))
      else rbind (foldM (schedule ids) (sched, remaining) (ready_ids nodes remaining)) (\<lambda>st.
        order_rounds nodes ids (fst st) (snd st)))"
  by pat_completeness auto
termination
proof (relation "measure (\<lambda>(nodes, ids, sched, remaining). length remaining)")
  fix nodes ids sched remaining st
  assume "ready_ids nodes remaining \<noteq> []"
    and "foldM (schedule ids) (sched, remaining) (ready_ids nodes remaining) = Inr st"
  then show "((nodes, ids, fst st, snd st), nodes, ids, sched, remaining)
      \<in> measure (\<lambda>(nodes, ids, sched, remaining). length remaining)"
    using schedules_shrink [of ids "(sched, remaining)" "ready_ids nodes remaining" st] by (cases "ready_ids nodes remaining") (auto simp: split_beta)
qed simp

declare order_rounds.simps [simp del]

definition ordered :: "test_catalog \<Rightarrow> model_error + test_node list" where
  "ordered catalog =
     (let nodes = tc_nodes catalog in order_rounds nodes (by_id nodes) [] (initial_pending nodes))"

section \<open>Path patterns\<close>

text \<open>
  \<open>PurePosixPath.full_match\<close>: the pattern is translated part by part into a regular expression that has to
  match the whole text of the path.  \<open>AnyChars\<close> is \<open>[^/]*\<close>, \<open>SomeChars\<close> is \<open>[^/]+\<close>, \<open>Dirs\<close> is \<open>(?:.+/)?\<close>,
  \<open>DirsRest\<close> is \<open>.*/\<close>, \<open>Everything\<close> is \<open>.*\<close> and \<open>Bracket\<close> a bracket expression, negated or not.
\<close>

datatype glob_token =
    Lit char
  | AnyChar
  | AnyChars
  | SomeChars
  | Dirs
  | DirsRest
  | Everything
  | Bracket bool "(char \<times> char) list"

fun bracket_ranges :: "string \<Rightarrow> (char \<times> char) list" where
  "bracket_ranges [] = []"
| "bracket_ranges (a # d # b # cs) =
     (if d = CHR ''-'' then (a, b) # bracket_ranges cs else (a, a) # bracket_ranges (d # b # cs))"
| "bracket_ranges (a # cs) = (a, a) # bracket_ranges cs"

text \<open>The text between \<open>[\<close> and the \<open>]\<close> that closes it, and what follows; a \<open>]\<close> in first place is literal.\<close>

fun until_bracket :: "string \<Rightarrow> (string \<times> string) option" where
  "until_bracket [] = None"
| "until_bracket (c # cs) = (if c = CHR '']'' then Some ([], cs)
     else map_option (\<lambda>(body, rest). (c # body, rest)) (until_bracket cs))"

fun bracket_body :: "string \<Rightarrow> (string \<times> string) option" where
  "bracket_body [] = None"
| "bracket_body (c # cs) = map_option (\<lambda>(body, rest). (c # body, rest)) (until_bracket cs)"

definition bracket :: "string \<Rightarrow> (glob_token \<times> string) option" where
  "bracket cs = (case cs of
     c # cs' \<Rightarrow> if c = CHR ''!'' then map_option (\<lambda>(body, rest). (Bracket True (bracket_ranges body), rest)) (bracket_body cs')
       else map_option (\<lambda>(body, rest). (Bracket False (bracket_ranges body), rest)) (bracket_body cs)
   | [] \<Rightarrow> None)"

lemma until_bracket_shorter: "until_bracket cs = Some (body, rest) \<Longrightarrow> length rest < length cs"
  by (induction cs arbitrary: body) (fastforce split: if_splits)+

lemma bracket_body_shorter: "bracket_body cs = Some (body, rest) \<Longrightarrow> length rest < length cs"
  by (cases cs) (auto dest: until_bracket_shorter)

lemma bracket_shorter: "bracket cs = Some (t, rest) \<Longrightarrow> length rest < length cs"
  by (auto simp: bracket_def simp del: bracket_body.simps split: list.splits if_splits dest!: bracket_body_shorter)

function part_tokens :: "string \<Rightarrow> glob_token list" where
  "part_tokens [] = []"
| "part_tokens (c # cs) =
     (if c = CHR ''*'' then AnyChars # part_tokens cs
      else if c = CHR ''?'' then AnyChar # part_tokens cs
      else if c = CHR ''['' then
        (case bracket cs of None \<Rightarrow> Lit c # part_tokens cs | Some (t, rest) \<Rightarrow> t # part_tokens rest)
      else Lit c # part_tokens cs)"
  by pat_completeness auto
termination
  by (relation "measure length") (auto simp: less_Suc_eq dest: bracket_shorter)

fun glob_tokens :: "string list \<Rightarrow> glob_token list" where
  "glob_tokens [] = []"
| "glob_tokens [p] = (if p = ''*'' then [SomeChars] else if p = ''**'' then [Everything] else part_tokens p)"
| "glob_tokens (p # q # ps) =
     (if p = ''*'' then [SomeChars, Lit (CHR ''/'')]
      else if p = ''**'' then (if q \<noteq> ''**'' then [Dirs] else [])
      else part_tokens p @ [Lit (CHR ''/'')]) @ glob_tokens (q # ps)"

function (sequential) glob_match :: "glob_token list \<Rightarrow> string \<Rightarrow> bool" where
  "glob_match [] s \<longleftrightarrow> s = []"
| "glob_match (AnyChars # ts) s \<longleftrightarrow> glob_match ts s
     \<or> (case s of [] \<Rightarrow> False | c # s' \<Rightarrow> c \<noteq> CHR ''/'' \<and> glob_match (AnyChars # ts) s')"
| "glob_match (Everything # ts) s \<longleftrightarrow> glob_match ts s
     \<or> (case s of [] \<Rightarrow> False | c # s' \<Rightarrow> glob_match (Everything # ts) s')"
| "glob_match (Dirs # ts) s \<longleftrightarrow> glob_match ts s
     \<or> (case s of [] \<Rightarrow> False | c # s' \<Rightarrow> glob_match (DirsRest # ts) s')"
| "glob_match (t # ts) [] \<longleftrightarrow> False"
| "glob_match (Lit a # ts) (c # s) \<longleftrightarrow> c = a \<and> glob_match ts s"
| "glob_match (AnyChar # ts) (c # s) \<longleftrightarrow> c \<noteq> CHR ''/'' \<and> glob_match ts s"
| "glob_match (SomeChars # ts) (c # s) \<longleftrightarrow> c \<noteq> CHR ''/'' \<and> glob_match (AnyChars # ts) s"
| "glob_match (DirsRest # ts) (c # s) \<longleftrightarrow> c = CHR ''/'' \<and> glob_match ts s \<or> glob_match (DirsRest # ts) s"
| "glob_match (Bracket negated rs # ts) (c # s) \<longleftrightarrow>
     list_ex (\<lambda>(a, b). a \<le> c \<and> c \<le> b) rs \<noteq> negated \<and> glob_match ts s"
  by pat_completeness auto
termination
  by (relation "measures [\<lambda>(ts, s). length s, \<lambda>(ts, s). length ts]") auto

definition path_matches :: "string \<Rightarrow> string \<Rightarrow> bool" where
  "path_matches path pattern =
     (let plain = (\<lambda>s. if posix_root s = [] \<and> posix_parts s = [] then [] else posix_text s)
      in glob_match (glob_tokens (split_on (CHR ''/'') (plain pattern))) (plain path))"

section \<open>Selecting tests\<close>

definition CRITICAL_CHANGE_PATTERNS :: "string list" where
  "CRITICAL_CHANGE_PATTERNS = [''hfx'', ''schemas/test-catalog.schema.json'', ''schemas/verification-*.schema.json'',
     ''tools/hfxdev/cli.py'', ''tools/hfxdev/testgraph.py'', ''tools/hfxdev/verification_run.py'',
     ''tools/hfxdev/verify*.py'', ''verification/tests.json'']"

definition changed_path :: "string \<Rightarrow> model_error + string" where
  "changed_path v =
     (if v = [] \<or> prefix_of ''/'' v \<or> ''..'' \<in> set (posix_parts v) \<or> posix_text v \<noteq> v \<or> length v > 512
         \<or> list_ex (\<lambda>c. (of_char c :: nat) < 32 \<or> (of_char c :: nat) = 127) v
      then Inl (ModelError (''invalid changed repository path: '' @ v)) else Inr v)"

text \<open>The ids of the eligible tests one changed path touches.\<close>

definition touched :: "test_node list \<Rightarrow> string list \<Rightarrow> string \<Rightarrow> string list" where
  "touched os eligible path =
     map tn_id (filter (\<lambda>n. tn_id n \<in> set eligible \<and> list_ex (path_matches path) (tn_cache_inputs n)) os)"

definition add_id :: "string list \<Rightarrow> string \<Rightarrow> string list" where
  "add_id selected i = (if i \<in> set selected then selected else selected @ [i])"

definition add_dependents :: "test_node list \<Rightarrow> string list \<Rightarrow> string list \<Rightarrow> string list" where
  "add_dependents os eligible selected =
     foldl (\<lambda>sel n. if tn_id n \<in> set eligible \<and> tn_id n \<notin> set sel \<and> set (tn_dependencies n) \<inter> set sel \<noteq> {}
       then sel @ [tn_id n] else sel) selected os"

definition add_dependencies ::
  "(string \<times> test_node) list \<Rightarrow> string list \<Rightarrow> string list \<Rightarrow> model_error + string list" where
  "add_dependencies ids visit selected =
     foldM (\<lambda>sel i. case map_of ids i of None \<Rightarrow> Inl (KeyError i)
       | Some n \<Rightarrow> Inr (foldl add_id sel (tn_dependencies n))) selected visit"

text \<open>
  One round of the expansion loop.  Ids are only ever appended, so the flag \<open>expanded\<close> of the source is set
  when the round returns another list than it got.
\<close>

definition expansion_round ::
  "(string list \<Rightarrow> string list) \<Rightarrow> test_node list \<Rightarrow> (string \<times> test_node) list \<Rightarrow> string list \<Rightarrow> string list
    \<Rightarrow> model_error + string list" where
  "expansion_round iteration os ids eligible selected =
     (let sel = add_dependents os eligible selected in add_dependencies ids (iteration sel) sel)"

lemma add_dependents_grows:
  "\<exists>new. add_dependents os eligible selected = selected @ new \<and> distinct new \<and> set new \<inter> set selected = {}
     \<and> set new \<subseteq> tn_id ` set os"
proof (induction os rule: rev_induct)
  case Nil
  show ?case by (simp add: add_dependents_def)
next
  case (snoc n os)
  then show ?case by (auto simp: add_dependents_def)
qed

lemma add_ids_grow:
  "\<exists>new. foldl add_id selected is = selected @ new \<and> distinct new \<and> set new \<inter> set selected = {} \<and> set new \<subseteq> set is"
  by (induction "is" rule: rev_induct) (auto simp: add_id_def)

lemma add_ids_set: "set (foldl add_id selected is) = set selected \<union> set is"
  by (induction "is" rule: rev_induct) (auto simp: add_id_def)

lemma add_dependencies_grows:
  "add_dependencies ids visit selected = Inr sel \<Longrightarrow>
     \<exists>new. sel = selected @ new \<and> distinct new \<and> set new \<inter> set selected = {}
       \<and> set new \<subseteq> (\<Union>(k, n) \<in> set ids. set (tn_dependencies n))"
proof (induction visit arbitrary: selected)
  case Nil
  then show ?case by (simp add: add_dependencies_def)
next
  case (Cons i visit)
  then obtain n where n: "map_of ids i = Some n"
    "add_dependencies ids visit (foldl add_id selected (tn_dependencies n)) = Inr sel"
    by (auto simp: add_dependencies_def rbind_Inr_iff split: option.splits)
  obtain new1 where 1: "foldl add_id selected (tn_dependencies n) = selected @ new1" "distinct new1"
      "set new1 \<inter> set selected = {}" "set new1 \<subseteq> set (tn_dependencies n)"
    using add_ids_grow [of selected "tn_dependencies n"] by blast
  obtain new2 where 2: "sel = (selected @ new1) @ new2" "distinct new2" "set new2 \<inter> set (selected @ new1) = {}"
      "set new2 \<subseteq> (\<Union>(k, n) \<in> set ids. set (tn_dependencies n))"
    using Cons.IH [OF n(2)] unfolding 1(1) by blast
  have "set (tn_dependencies n) \<subseteq> (\<Union>(k, n) \<in> set ids. set (tn_dependencies n))"
    using map_of_SomeD [OF n(1)] by force
  then show ?case using 1 2 by (intro exI [of _ "new1 @ new2"]) auto
qed

text \<open>All ids the expansion can reach.\<close>

definition expansion_universe :: "test_node list \<Rightarrow> (string \<times> test_node) list \<Rightarrow> string set" where
  "expansion_universe os ids = tn_id ` set os \<union> (\<Union>(k, n) \<in> set ids. set (tn_dependencies n))"

lemma finite_expansion_universe: "finite (expansion_universe os ids)"
  by (auto simp: expansion_universe_def)

lemma expansion_round_grows:
  assumes "expansion_round iteration os ids eligible selected = Inr sel"
  shows "\<exists>new. sel = selected @ new \<and> distinct new \<and> set new \<inter> set selected = {} \<and> set new \<subseteq> expansion_universe os ids"
proof -
  obtain new1 where 1: "add_dependents os eligible selected = selected @ new1" "distinct new1"
      "set new1 \<inter> set selected = {}" "set new1 \<subseteq> tn_id ` set os"
    using add_dependents_grows by blast
  obtain new2 where 2: "sel = (selected @ new1) @ new2" "distinct new2" "set new2 \<inter> set (selected @ new1) = {}"
      "set new2 \<subseteq> (\<Union>(k, n) \<in> set ids. set (tn_dependencies n))"
    using assms add_dependencies_grows unfolding expansion_round_def Let_def 1(1) by metis
  show ?thesis using 1 2 by (intro exI [of _ "new1 @ new2"]) (auto simp: expansion_universe_def)
qed

function expand ::
  "(string list \<Rightarrow> string list) \<Rightarrow> test_node list \<Rightarrow> (string \<times> test_node) list \<Rightarrow> string list \<Rightarrow> string list
    \<Rightarrow> model_error + string list" where
  "expand iteration os ids eligible selected =
     rbind (expansion_round iteration os ids eligible selected) (\<lambda>sel.
       if sel = selected then Inr sel else expand iteration os ids eligible sel)"
  by pat_completeness auto
termination
proof (relation "measure (\<lambda>(iteration, os, ids, eligible, selected). card (expansion_universe os ids - set selected))")
  fix iteration os ids eligible selected sel
  assume "expansion_round iteration os ids eligible selected = Inr sel" and "sel \<noteq> selected"
  then obtain new where "new \<noteq> []" "sel = selected @ new" "set new \<inter> set selected = {}"
      "set new \<subseteq> expansion_universe os ids"
    using expansion_round_grows by blast
  then have "expansion_universe os ids - set sel \<subset> expansion_universe os ids - set selected"
    by (cases new) auto
  then show "((iteration, os, ids, eligible, sel), iteration, os, ids, eligible, selected)
      \<in> measure (\<lambda>(iteration, os, ids, eligible, selected). card (expansion_universe os ids - set selected))"
    using finite_expansion_universe by (simp add: psubset_card_mono)
qed simp

declare expand.simps [simp del]

definition selection :: "string \<Rightarrow> string \<Rightarrow> test_node list \<Rightarrow> string list \<Rightarrow> string list \<Rightarrow> test_selection" where
  "selection lane mode ns changed unmatched =
     \<lparr>ts_lane = lane, ts_mode = mode, ts_nodes = ns, ts_changed_paths = changed, ts_unmatched_paths = unmatched\<rparr>"

definition select_changed ::
  "(string list \<Rightarrow> string list) \<Rightarrow> test_catalog \<Rightarrow> string \<Rightarrow> test_node list \<Rightarrow> string list \<Rightarrow> string list
    \<Rightarrow> model_error + test_selection" where
  "select_changed iteration catalog lane os eligible changed =
     (let all = filter (\<lambda>n. tn_id n \<in> set eligible) os
      in if changed = [] then Inr (selection lane ''changed-paths-no-diff'' all [] [])
      else if list_ex (\<lambda>path. list_ex (path_matches path) CRITICAL_CHANGE_PATTERNS) changed
      then Inr (selection lane ''changed-paths-critical'' all changed [])
      else
        let unmatched = filter (\<lambda>path. touched os eligible path = []) changed
        in if unmatched \<noteq> [] then Inr (selection lane ''changed-paths-fail-closed'' all changed unmatched)
        else rbind (expand iteration os (by_id (tc_nodes catalog)) eligible
               (remdups (concat (map (touched os eligible) changed)))) (\<lambda>selected.
             Inr (selection lane ''changed-paths'' (filter (\<lambda>n. tn_id n \<in> set selected) os) changed [])))"

definition select_tests ::
  "(string list \<Rightarrow> string list) \<Rightarrow> test_catalog \<Rightarrow> string \<Rightarrow> string list option \<Rightarrow> model_error + test_selection" where
  "select_tests iteration catalog lane changed_paths =
     (if lane \<notin> {''fast'', ''full-software''}
      then Inl (ModelError (''unsupported software verification lane: '' @ lane))
      else rbind (ordered catalog) (\<lambda>os.
        let eligible = map tn_id (filter (\<lambda>n. lane \<in> set (tn_lanes n)) os)
        in if eligible = [] then Inl (ModelError (''verification lane has no tests: '' @ lane))
        else case changed_paths of
          None \<Rightarrow> Inr (selection lane ''lane'' (filter (\<lambda>n. tn_id n \<in> set eligible) os) [] [])
        | Some paths \<Rightarrow>
            rbind (mapM changed_path paths) (\<lambda>valid.
              select_changed iteration catalog lane os eligible (py_sorted (remdups valid)))))"

section \<open>Loading the catalog\<close>

definition is_identifier :: "string \<Rightarrow> bool" where
  "is_identifier s \<longleftrightarrow> length s \<le> 128 \<and>
     word_of (\<lambda>c. is_lower c \<or> is_digit c) (\<lambda>c. is_lower c \<or> is_digit c \<or> c \<in> set ''._-'') s"

definition node_identifier :: "json \<Rightarrow> string \<Rightarrow> model_error + string" where
  "node_identifier v label = (case v of
     JStr s \<Rightarrow> if is_identifier s then Inr s else Inl (ModelError (label @ '': invalid identifier''))
   | _ \<Rightarrow> Inl (ModelError (label @ '': invalid identifier'')))"

definition string_list :: "json \<Rightarrow> string \<Rightarrow> bool \<Rightarrow> model_error + string list" where
  "string_list v label identifiers =
     (case (case v of JArr xs \<Rightarrow> json_strs xs | _ \<Rightarrow> None) of
        None \<Rightarrow> Inl (ModelError (label @ '': must be a string array''))
      | Some ss \<Rightarrow>
          if \<not> distinct ss then Inl (ModelError (label @ '': duplicate values''))
          else if identifiers then rbind (each (\<lambda>s. rbind (node_identifier (JStr s) label) (\<lambda>_. Inr ())) ss) (\<lambda>_. Inr ss)
          else Inr ss)"

definition positive_integer :: "json \<Rightarrow> string \<Rightarrow> bool \<Rightarrow> model_error + int" where
  "positive_integer v label allow_zero =
     (let minimum = (if allow_zero then 0 else 1)
      in case v of
           JInt n \<Rightarrow> if n < minimum \<or> n > 86400
             then Inl (ModelError (label @ '': must be an integer from '' @ str_int minimum @ '' through 86400''))
             else Inr n
         | _ \<Rightarrow> Inl (ModelError (label @ '': must be an integer from '' @ str_int minimum @ '' through 86400'')))"

definition cache_input :: "(string \<Rightarrow> model_error + bool) \<Rightarrow> string \<Rightarrow> string \<Rightarrow> model_error + unit" where
  "cache_input globs label pattern =
     (if prefix_of ''/'' pattern \<or> ''..'' \<in> set (posix_parts pattern)
      then Inl (ModelError (label @ '': cache input must stay inside the repository: '' @ pattern))
      else rbind (globs pattern) (\<lambda>found.
        if \<not> found then Inl (ModelError (label @ '': cache input matches nothing: '' @ pattern)) else Inr ()))"

definition cache_inputs :: "(string \<Rightarrow> model_error + bool) \<Rightarrow> json \<Rightarrow> string \<Rightarrow> model_error + string list" where
  "cache_inputs globs v label =
     rbind (string_list v label False) (\<lambda>patterns.
     if patterns = [] then Inl (ModelError (label @ '': at least one cache input is required''))
     else rbind (each (cache_input globs label) patterns) (\<lambda>_. Inr patterns))"

text \<open>\<open>value in allowed\<close>, then the value as a string.\<close>

definition choice :: "json \<Rightarrow> string list \<Rightarrow> string \<Rightarrow> model_error + string" where
  "choice v allowed message =
     rbind (in_strings v allowed) (\<lambda>known.
       case v of JStr s \<Rightarrow> if known then Inr s else Inl (ModelError message) | _ \<Rightarrow> Inl (ModelError message))"

definition node_label :: "(json \<Rightarrow> string) \<Rightarrow> (string \<times> json) list \<Rightarrow> nat \<Rightarrow> string" where
  "node_label render kvs index = ''verification test '' @ label_value render kvs ''id'' index"

definition node_title :: "json \<Rightarrow> string \<Rightarrow> model_error + string" where
  "node_title v label = (case v of
     JStr s \<Rightarrow> if py_strip s = [] \<or> length s > 160
       then Inl (ModelError (label @ '': title must contain 1 through 160 characters'')) else Inr s
   | _ \<Rightarrow> Inl (ModelError (label @ '': title must contain 1 through 160 characters'')))"

definition node_bool :: "json \<Rightarrow> string \<Rightarrow> model_error + bool" where
  "node_bool v label = (case v of JBool b \<Rightarrow> Inr b
     | _ \<Rightarrow> Inl (ModelError (label @ '': writes_hardware must be boolean'')))"

text \<open>The lanes, hardware requirement and write permission of one test have to fit together.\<close>

definition check_hardware :: "string \<Rightarrow> string list \<Rightarrow> string \<Rightarrow> bool \<Rightarrow> model_error + unit" where
  "check_hardware label lanes hardware writes =
     (if writes \<and> hardware \<noteq> ''required''
      then Inl (ModelError (label @ '': a hardware-writing test must require hardware''))
      else if ''hardware'' \<in> set lanes \<and> hardware \<noteq> ''required''
      then Inl (ModelError (label @ '': hardware lane tests must require hardware''))
      else if set lanes \<inter> {''fast'', ''full-software''} \<noteq> {} \<and> hardware \<noteq> ''none''
      then Inl (ModelError (label @ '': software lanes may not require hardware''))
      else Inr ())"

definition load_node ::
  "(string \<Rightarrow> model_error + bool) \<Rightarrow> (json \<Rightarrow> string) \<Rightarrow> nat \<Rightarrow> json \<Rightarrow> model_error + test_node" where
  "load_node globs render index v =
     (case v of
        JObj kvs \<Rightarrow>
          (let label = node_label render kvs index
           in rbind (require_exact_keys kvs TEST_KEYS label) (\<lambda>_.
           rbind (rbind (item kvs ''id'') (\<lambda>x. node_identifier x (label @ '' id''))) (\<lambda>node_id.
           rbind (rbind (item kvs ''title'') (\<lambda>x. node_title x label)) (\<lambda>title.
           rbind (rbind (item kvs ''owned_domain'') (\<lambda>x. node_identifier x (label @ '' owned_domain''))) (\<lambda>domain.
           rbind (rbind (item kvs ''lanes'') (\<lambda>x. string_list x (label @ '' lanes'') False)) (\<lambda>lanes.
           if lanes = [] \<or> \<not> set lanes \<subseteq> set LANES
           then Inl (ModelError (label @ '': invalid or empty lane selection''))
           else rbind (rbind (item kvs ''runner'') (\<lambda>x. node_identifier x (label @ '' runner''))) (\<lambda>runner.
           if runner \<notin> set KNOWN_RUNNERS
           then Inl (ModelError (label @ '': runner is not implemented: '' @ runner))
           else rbind (rbind (item kvs ''required_capabilities'') (\<lambda>x. string_list x (label @ '' required_capabilities'') True)) (\<lambda>capabilities.
           rbind (rbind (item kvs ''hardware_requirement'') (\<lambda>x.
             choice x HARDWARE_REQUIREMENTS (label @ '': invalid hardware requirement''))) (\<lambda>hardware.
           rbind (rbind (item kvs ''writes_hardware'') (\<lambda>x. node_bool x label)) (\<lambda>writes.
           rbind (check_hardware label lanes hardware writes) (\<lambda>_.
           rbind (rbind (item kvs ''expected_duration_seconds'') (\<lambda>x. positive_integer x (label @ '' expected_duration_seconds'') True)) (\<lambda>expected.
           rbind (rbind (item kvs ''timeout_seconds'') (\<lambda>x. positive_integer x (label @ '' timeout_seconds'') False)) (\<lambda>timeout.
           if expected > timeout then Inl (ModelError (label @ '': expected duration exceeds timeout''))
           else rbind (rbind (item kvs ''dependencies'') (\<lambda>x. string_list x (label @ '' dependencies'') True)) (\<lambda>dependencies.
           if node_id \<in> set dependencies then Inl (ModelError (label @ '': cannot depend on itself''))
           else rbind (rbind (item kvs ''isolation'') (\<lambda>x. choice x ISOLATION_LEVELS (label @ '': invalid isolation level''))) (\<lambda>isolation.
           rbind (rbind (item kvs ''cache_inputs'') (\<lambda>x. cache_inputs globs x (label @ '' cache_inputs''))) (\<lambda>inputs.
           rbind (rbind (item kvs ''produced_evidence'') (\<lambda>x. string_list x (label @ '' produced_evidence'') True)) (\<lambda>evidence.
           if evidence = [] then Inl (ModelError (label @ '': at least one evidence output is required''))
           else rbind (rbind (item kvs ''resume_policy'') (\<lambda>x. choice x RESUME_POLICIES (label @ '': invalid resume policy''))) (\<lambda>policy.
           Inr \<lparr>tn_id = node_id, tn_title = py_strip title, tn_owned_domain = domain, tn_lanes = lanes,
                tn_runner = runner, tn_required_capabilities = capabilities, tn_hardware_requirement = hardware,
                tn_writes_hardware = writes, tn_expected_duration_seconds = expected, tn_timeout_seconds = timeout,
                tn_dependencies = dependencies, tn_isolation = isolation, tn_cache_inputs = inputs,
                tn_produced_evidence = evidence, tn_resume_policy = policy\<rparr>))))))))))))))))))
      | _ \<Rightarrow> Inl (ModelError (''verification test '' @ str_nat index @ '': must be an object'')))"

definition check_dependencies :: "test_node list \<Rightarrow> test_node \<Rightarrow> model_error + unit" where
  "check_dependencies nodes n =
     (let unknown = py_sorted (filter (\<lambda>d. d \<notin> set (map tn_id nodes)) (remdups (tn_dependencies n)))
      in if unknown \<noteq> [] then Inl (ModelError (tn_id n @ '': unknown dependencies '' @ join '', '' unknown)) else Inr ())"

definition load_test_catalog ::
  "(string \<Rightarrow> json option) \<Rightarrow> (string \<Rightarrow> model_error + bool) \<Rightarrow> (json \<Rightarrow> string) \<Rightarrow> model_error + test_catalog" where
  "load_test_catalog files globs render =
     rbind (load_json files ''verification/tests.json'') (\<lambda>kvs.
     rbind (require_exact_keys kvs CATALOG_KEYS ''verification catalog'') (\<lambda>_.
     rbind (item kvs ''schema'') (\<lambda>schema.
     if schema \<noteq> JStr ''hyperflux-test-catalog-v1''
     then Inl (ModelError ''unsupported verification catalog schema'')
     else rbind (rbind (item kvs ''tests'') (\<lambda>v.
       nonempty_list_or v ''verification catalog must contain tests'')) (\<lambda>tests.
     rbind (mapM_index (load_node globs render) tests) (\<lambda>nodes.
     rbind (require_unique (map tn_id nodes) ''verification test id'') (\<lambda>_.
     rbind (each (check_dependencies nodes) nodes) (\<lambda>_.
     let catalog = \<lparr>tc_nodes = nodes\<rparr>
     in rbind (ordered catalog) (\<lambda>_. Inr catalog))))))))"

section \<open>Reports\<close>

definition newline :: string where
  "newline = [CHR 0x0A]"

definition two_digits :: "nat \<Rightarrow> string" where
  "two_digits n = (if n < 10 then CHR ''0'' # str_nat n else str_nat n)"

definition plan_lines :: "nat \<times> test_node \<Rightarrow> string list" where
  "plan_lines entry =
     (let (index, n) = entry;
          dependencies = (if tn_dependencies n \<noteq> [] then join '', '' (tn_dependencies n) else ''none'');
          execution = tn_hardware_requirement n @ (if tn_writes_hardware n then [] else '', zero hardware writes'')
      in [two_digits index @ ''. '' @ tn_id n @ '' - '' @ tn_title n,
          ''    domain='' @ tn_owned_domain n @ '' runner='' @ tn_runner n @ '' isolation='' @ tn_isolation n,
          ''    hardware='' @ execution @ '' timeout='' @ str_int (tn_timeout_seconds n) @ ''s resume='' @ tn_resume_policy n,
          ''    depends='' @ dependencies])"

definition format_plan ::
  "(string list \<Rightarrow> string list) \<Rightarrow> test_catalog \<Rightarrow> string \<Rightarrow> string list option \<Rightarrow> model_error + string" where
  "format_plan iteration catalog lane changed_paths =
     rbind (select_tests iteration catalog lane changed_paths) (\<lambda>sel.
       let nodes = ts_nodes sel; expected = sum_list (map tn_expected_duration_seconds nodes)
       in Inr (join newline ([''HyperFlux Next verification plan'',
            ''Tests: '' @ str_nat (length nodes) @ '' | expected serial duration: '' @ str_int expected @ ''s'',
            ''Selection: '' @ ts_lane sel @ '' ('' @ ts_mode sel @ '')'', []]
          @ concat (map plan_lines (enumerate 1 nodes)))))"

definition markdown_row :: "nat \<times> test_node \<Rightarrow> string" where
  "markdown_row entry =
     (let (index, n) = entry
      in ''| '' @ str_nat index @ '' | `'' @ tn_id n @ ''` | `'' @ tn_owned_domain n @ ''` | ''
         @ join '', '' (map (\<lambda>lane. ''`'' @ lane @ ''`'') (tn_lanes n)) @ '' | '' @ str_int (tn_timeout_seconds n) @ ''s |'')"

definition markdown :: "test_catalog \<Rightarrow> model_error + string" where
  "markdown catalog =
     rbind (ordered catalog) (\<lambda>nodes. Inr (join newline ([''# Software Checks'', [],
       ''> Generated by `./hfx generate`. Do not edit manually.'', [],
       ''This page lists every software check you can run with `./hfx verify`, in the order they run, for contributors who want to know which checks cover their change.'',
       [],
       ''Which check depends on which, what each one caches, and what each one records are in [`verification/tests.json`](../../verification/tests.json).'',
       ''Every check runs in software only and is never allowed to write to hardware.'', [],
       ''| Order | Check | Area | Runs in | Time limit |'',
       ''| ---: | --- | --- | --- | ---: |'']
       @ map markdown_row (enumerate 1 nodes)
       @ [[], ''`./hfx verify` runs each check after the checks it depends on. Use `./hfx verify --fast --changed-from <commit>` while you work and `./hfx verify --full` before a release.'',
          []])))"

section \<open>The order puts dependencies first\<close>

definition deps_first :: "test_node list \<Rightarrow> bool" where
  "deps_first ns \<longleftrightarrow> (\<forall>i < length ns. set (tn_dependencies (ns ! i)) \<subseteq> tn_id ` set (take i ns))"

lemma deps_first_append:
  assumes "deps_first ms" and "\<And>n. n \<in> set ns \<Longrightarrow> set (tn_dependencies n) \<subseteq> tn_id ` set ms"
  shows "deps_first (ms @ ns)"
  unfolding deps_first_def
proof (intro allI impI)
  fix i
  assume i: "i < length (ms @ ns)"
  show "set (tn_dependencies ((ms @ ns) ! i)) \<subseteq> tn_id ` set (take i (ms @ ns))"
  proof (cases "i < length ms")
    case True
    then show ?thesis using assms(1) by (simp add: deps_first_def nth_append)
  next
    case False
    then have "(ms @ ns) ! i \<in> set ns" using i by (simp add: nth_append)
    then show ?thesis using assms(2) [of "(ms @ ns) ! i"] False by auto
  qed
qed

lemma by_id_SomeD: "map_of (by_id nodes) i = Some n \<Longrightarrow> n \<in> set nodes \<and> tn_id n = i"
  unfolding by_id_def
  by (induction nodes rule: rev_induct) (auto simp: update_conv' split: if_splits)

lemma by_id_exists: "i \<in> tn_id ` set nodes \<Longrightarrow> \<exists>n. map_of (by_id nodes) i = Some n"
  unfolding by_id_def
  by (induction nodes rule: rev_induct) (auto simp: update_conv' split: if_splits)

lemma by_id_Some: "distinct (map tn_id nodes) \<Longrightarrow> n \<in> set nodes \<Longrightarrow> map_of (by_id nodes) (tn_id n) = Some n"
  by (metis by_id_SomeD by_id_exists distinct_map image_eqI inj_on_def)

lemma map_of_initial_pending:
  "map_of (initial_pending nodes) i = map_option (\<lambda>n. remdups (tn_dependencies n)) (map_of (by_id nodes) i)"
  by (induction nodes rule: rev_induct) (auto simp: initial_pending_def by_id_def update_conv')

lemma distinct_initial_pending: "distinct (map fst (initial_pending nodes))"
  by (induction nodes rule: rev_induct) (auto simp: initial_pending_def distinct_update)

text \<open>A whole round of the inner loop in closed form.\<close>

lemma schedules_Inr:
  "foldM (schedule ids) (sched, remaining) is = Inr (sched', remaining') \<longleftrightarrow>
     distinct is \<and> set is \<subseteq> fst ` set remaining \<and> set is \<subseteq> dom (map_of ids)
     \<and> sched' = sched @ map (\<lambda>i. the (map_of ids i)) is
     \<and> remaining' = map (\<lambda>(k, ds). (k, filter (\<lambda>d. d \<notin> set is) ds)) (filter (\<lambda>(k, ds). k \<notin> set is) remaining)"
proof (induction "is" arbitrary: sched remaining)
  case Nil
  have "map (\<lambda>(k, ds). (k, ds)) remaining = remaining" by (simp add: split_beta)
  then show ?case by auto
next
  case (Cons i "is")
  let ?rem = "map (\<lambda>(k, ds). (k, removeAll i ds)) (AList.delete i remaining)"
  have keys: "fst ` set ?rem = fst ` set remaining - {i}"
    by (force simp: AList.delete_eq)
  have entries: "map (\<lambda>(k, ds). (k, filter (\<lambda>d. d \<notin> set is) ds)) (filter (\<lambda>(k, ds). k \<notin> set is) ?rem)
      = map (\<lambda>(k, ds). (k, filter (\<lambda>d. d \<notin> set (i # is)) ds)) (filter (\<lambda>(k, ds). k \<notin> set (i # is)) remaining)"
    by (induction remaining) (auto simp: AList.delete_eq removeAll_filter_not_eq conj_commute intro: filter_cong)
  show ?case
  proof (cases "\<exists>n. map_of ids i = Some n \<and> i \<in> fst ` set remaining")
    case True
    then obtain n where "map_of ids i = Some n" "schedule ids (sched, remaining) i = Inr (sched @ [n], ?rem)"
      by (auto simp: schedule_def)
    then have n: "map_of ids i = Some n"
      "foldM (schedule ids) (sched, remaining) (i # is) = foldM (schedule ids) (sched @ [n], ?rem) is"
      by simp_all
    show ?thesis
      unfolding n(2) Cons.IH keys entries using True n(1) by auto
  next
    case False
    then have "schedule ids (sched, remaining) i = Inl (KeyError i)"
      by (auto simp: schedule_def split: option.splits)
    then show ?thesis using False by (auto simp: dom_def)
  qed
qed

text \<open>What holds between two rounds.\<close>

definition order_inv :: "test_node list \<Rightarrow> test_node list \<Rightarrow> pending \<Rightarrow> bool" where
  "order_inv nodes sched remaining \<longleftrightarrow>
     distinct (map fst remaining) \<and> distinct (map tn_id sched) \<and> deps_first sched
     \<and> (\<forall>n \<in> set sched. map_of (by_id nodes) (tn_id n) = Some n \<and> count_list (map tn_id nodes) (tn_id n) = 1)
     \<and> tn_id ` set sched \<inter> fst ` set remaining = {}
     \<and> tn_id ` set sched \<union> fst ` set remaining = tn_id ` set nodes
     \<and> (\<forall>k ds. (k, ds) \<in> set remaining \<longrightarrow> (\<exists>n. map_of (by_id nodes) k = Some n
          \<and> set ds = set (tn_dependencies n) - tn_id ` set sched))"

lemma order_inv_initial: "order_inv nodes [] (initial_pending nodes)"
proof -
  have entry: "\<exists>n. map_of (by_id nodes) k = Some n \<and> set ds = set (tn_dependencies n)"
    if "(k, ds) \<in> set (initial_pending nodes)" for k ds
    using that map_of_is_SomeI [OF distinct_initial_pending that] by (auto simp: map_of_initial_pending)
  have "dom (map_of (initial_pending nodes)) = tn_id ` set nodes"
    using by_id_SomeD [of nodes] by_id_exists [of _ nodes] by (fastforce simp: map_of_initial_pending dom_def)
  then show ?thesis
    using entry by (auto simp: order_inv_def distinct_initial_pending deps_first_def dom_map_of_conv_image_fst)
qed

lemma count_list_filter_pred: "P x \<Longrightarrow> count_list (filter P xs) x = count_list xs x"
  by (induction xs) auto

lemma ready_ids_set: "set (ready_ids nodes remaining) = {i \<in> tn_id ` set nodes. map_of remaining i = Some []}"
  by (auto simp: ready_ids_def)

lemma distinct_count_one: "distinct xs \<Longrightarrow> x \<in> set xs \<Longrightarrow> count_list xs x = 1"
  by (induction xs) (auto simp: count_list_0_iff)

lemma order_inv_round:
  assumes inv: "order_inv nodes sched remaining"
    and round: "foldM (schedule (by_id nodes)) (sched, remaining) (ready_ids nodes remaining) = Inr (sched', remaining')"
  shows "order_inv nodes sched' remaining'"
proof -
  let ?is = "ready_ids nodes remaining" and ?node = "\<lambda>i. the (map_of (by_id nodes) i)"
  note closed = round [unfolded schedules_Inr]
  have node: "map_of (by_id nodes) i = Some (?node i) \<and> tn_id (?node i) = i" if "i \<in> set ?is" for i
    using that closed by_id_SomeD [of nodes i] by fastforce
  have new_ids: "map tn_id (map ?node ?is) = ?is" using node by (simp add: map_idI)
  have ready: "set (tn_dependencies (?node i)) \<subseteq> tn_id ` set sched" if "i \<in> set ?is" for i
    using that node [OF that] inv by (fastforce simp: order_inv_def ready_ids_set dest: map_of_SomeD)
  have once: "count_list (map tn_id nodes) i = 1" if "i \<in> set ?is" for i
  proof -
    have "count_list ?is i = count_list (map tn_id nodes) i"
      unfolding ready_ids_def by (rule count_list_filter_pred) (use that in \<open>simp add: ready_ids_set\<close>)
    then show ?thesis using distinct_count_one [OF _ that] closed by simp
  qed
  have ids': "tn_id ` set sched' = tn_id ` set sched \<union> set ?is"
    using closed new_ids by (metis (no_types) image_Un list.set_map set_append)
  have keys': "fst ` set remaining' = fst ` set remaining - set ?is"
    using closed by (simp add: image_image split_beta) force
  have "deps_first sched'"
  proof -
    have "deps_first (sched @ map ?node ?is)"
      by (rule deps_first_append) (use inv ready in \<open>auto simp: order_inv_def\<close>)
    then show ?thesis using closed by simp
  qed
  moreover have "distinct (map tn_id sched')"
    using closed inv new_ids by (auto simp: order_inv_def)
  moreover have "distinct (map fst remaining')"
    using closed inv by (auto simp: order_inv_def distinct_map inj_on_def split_beta)
  moreover have "\<forall>n \<in> set sched'. map_of (by_id nodes) (tn_id n) = Some n \<and> count_list (map tn_id nodes) (tn_id n) = 1"
    using closed inv node once by (auto simp: order_inv_def)
  moreover have "\<exists>n. map_of (by_id nodes) k = Some n \<and> set ds = set (tn_dependencies n) - tn_id ` set sched'"
    if kd: "(k, ds) \<in> set remaining'" for k ds
  proof -
    obtain ds0 where "(k, ds0) \<in> set remaining" "ds = filter (\<lambda>d. d \<notin> set ?is) ds0"
      using kd closed by auto
    then show ?thesis using inv by (fastforce simp: order_inv_def ids')
  qed
  moreover have "tn_id ` set sched' \<inter> fst ` set remaining' = {}" "tn_id ` set sched' \<union> fst ` set remaining' = tn_id ` set nodes"
  proof -
    have "set ?is \<subseteq> fst ` set remaining" using closed by simp
    moreover have "tn_id ` set sched \<inter> fst ` set remaining = {}" "tn_id ` set sched \<union> fst ` set remaining = tn_id ` set nodes"
      using inv by (simp_all add: order_inv_def)
    ultimately show "tn_id ` set sched' \<inter> fst ` set remaining' = {}" "tn_id ` set sched' \<union> fst ` set remaining' = tn_id ` set nodes"
      unfolding ids' keys' by blast+
  qed
  ultimately show ?thesis unfolding order_inv_def by blast
qed

definition topological_order :: "test_node list \<Rightarrow> test_node list \<Rightarrow> bool" where
  "topological_order nodes os \<longleftrightarrow> distinct (map tn_id nodes) \<and> mset os = mset nodes \<and> deps_first os"

lemma order_inv_finished:
  assumes "order_inv nodes sched []"
  shows "topological_order nodes sched"
proof -
  have ids: "tn_id ` set sched = tn_id ` set nodes" using assms by (simp add: order_inv_def)
  have once: "\<forall>i \<in> set (map tn_id nodes). count_list (map tn_id nodes) i \<le> 1"
  proof
    fix i
    assume "i \<in> set (map tn_id nodes)"
    then obtain n where "n \<in> set sched" "i = tn_id n" unfolding set_map ids [symmetric] by blast
    then show "count_list (map tn_id nodes) i \<le> 1" using assms by (simp add: order_inv_def)
  qed
  then have dist: "distinct (map tn_id nodes)" by (simp add: distinct_iff_count_list)
  have "set sched \<subseteq> set nodes" using assms by (auto simp: order_inv_def dest: by_id_SomeD)
  then have "set sched = set nodes"
  proof (rule subset_antisym)
    show "set nodes \<subseteq> set sched"
    proof
      fix n
      assume "n \<in> set nodes"
      moreover from this obtain n' where "n' \<in> set sched" "tn_id n' = tn_id n" using ids by (metis imageE image_eqI)
      ultimately show "n \<in> set sched"
        using dist \<open>set sched \<subseteq> set nodes\<close> by (metis distinct_map inj_onD subsetD)
    qed
  qed
  then have "mset sched = mset nodes"
    using assms dist by (auto simp: order_inv_def distinct_map set_eq_iff_mset_eq_distinct)
  then show ?thesis using assms dist by (simp add: topological_order_def order_inv_def)
qed

lemma order_rounds_topological:
  "order_inv nodes sched remaining \<Longrightarrow> order_rounds nodes (by_id nodes) sched remaining = Inr os
   \<Longrightarrow> topological_order nodes os"
proof (induction nodes "by_id nodes" sched remaining rule: order_rounds.induct)
  case (1 nodes sched remaining)
  show ?case
  proof (cases "remaining = []")
    case True
    then show ?thesis using 1(2,3) order_inv_finished by (simp add: order_rounds.simps)
  next
    case False
    then obtain st where st: "foldM (schedule (by_id nodes)) (sched, remaining) (ready_ids nodes remaining) = Inr st"
        "order_rounds nodes (by_id nodes) (fst st) (snd st) = Inr os" "ready_ids nodes remaining \<noteq> []"
      using 1(3) by (subst (asm) order_rounds.simps) (auto simp: rbind_Inr_iff split: if_splits)
    show ?thesis
      by (rule 1(1) [OF False st(3) st(1) _ st(2)])
         (use order_inv_round [OF 1(2), of "fst st" "snd st"] st(1) in simp)
  qed
qed

lemma ready_exists:
  assumes inv: "order_inv nodes sched remaining" and topo: "topological_order nodes os" and "remaining \<noteq> []"
  shows "ready_ids nodes remaining \<noteq> []"
proof -
  have os: "set os = set nodes" using topo by (metis topological_order_def set_mset_mset)
  let ?open = "\<lambda>j. j < length os \<and> tn_id (os ! j) \<in> fst ` set remaining"
  obtain k where "k \<in> fst ` set remaining" using \<open>remaining \<noteq> []\<close> by (cases remaining) auto
  then have "k \<in> tn_id ` set os" using inv by (auto simp: order_inv_def os)
  then have "\<exists>j. ?open j" using \<open>k \<in> fst ` set remaining\<close> by (metis imageE in_set_conv_nth)
  then obtain j where j: "?open j" and first: "\<forall>i < j. \<not> ?open i" 
    using exists_least_iff [of ?open] by blast
  let ?n = "os ! j"
  have "set (tn_dependencies ?n) \<subseteq> tn_id ` set (take j os)"
    using topo j by (simp add: topological_order_def deps_first_def)
  moreover have "tn_id ` set (take j os) \<subseteq> tn_id ` set sched"
  proof
    fix x
    assume "x \<in> tn_id ` set (take j os)"
    then obtain i where i: "i < j" "x = tn_id (os ! i)" using j by (auto simp: in_set_conv_nth)
    then have "x \<in> tn_id ` set nodes" using j os by (metis image_eqI nth_mem order.strict_trans)
    then have "x \<in> tn_id ` set sched \<union> fst ` set remaining" using inv by (simp add: order_inv_def)
    moreover have "x \<notin> fst ` set remaining" using first i j by (metis order.strict_trans)
    ultimately show "x \<in> tn_id ` set sched" by (metis UnE)
  qed
  ultimately have free: "set (tn_dependencies ?n) \<subseteq> tn_id ` set sched" by (rule subset_trans)
  obtain ds where ds: "(tn_id ?n, ds) \<in> set remaining" using j by auto
  have "map_of (by_id nodes) (tn_id ?n) = Some ?n"
    using topo j os by (auto simp: topological_order_def intro: by_id_Some)
  moreover have "\<exists>n. map_of (by_id nodes) (tn_id ?n) = Some n \<and> set ds = set (tn_dependencies n) - tn_id ` set sched"
    using inv ds unfolding order_inv_def by blast
  ultimately have "set ds = {}" using free by auto
  then have "ds = []" by simp
  then have "map_of remaining (tn_id ?n) = Some []"
    using ds inv by (simp add: order_inv_def)
  then have "tn_id ?n \<in> set (ready_ids nodes remaining)" using j os by (auto simp: ready_ids_set)
  then show ?thesis by auto
qed

lemma order_rounds_complete:
  "order_inv nodes sched remaining \<Longrightarrow> topological_order nodes os
   \<Longrightarrow> \<exists>os'. order_rounds nodes (by_id nodes) sched remaining = Inr os'"
proof (induction nodes "by_id nodes" sched remaining rule: order_rounds.induct)
  case (1 nodes sched remaining)
  show ?case
  proof (cases "remaining = []")
    case True
    then show ?thesis by (simp add: order_rounds.simps)
  next
    case False
    note ready = ready_exists [OF 1(2,3) False]
    have "distinct (ready_ids nodes remaining)"
      using 1(3) by (simp add: ready_ids_def topological_order_def)
    moreover have "set (ready_ids nodes remaining) \<subseteq> fst ` set remaining"
      by (auto simp: ready_ids_set) (metis fst_conv image_eqI map_of_SomeD)
    moreover have "set (ready_ids nodes remaining) \<subseteq> dom (map_of (by_id nodes))"
      using by_id_exists [of _ nodes] by (force simp: ready_ids_set)
    ultimately obtain st where
      st: "foldM (schedule (by_id nodes)) (sched, remaining) (ready_ids nodes remaining) = Inr st"
      using schedules_Inr by blast
    then have "order_inv nodes (fst st) (snd st)" using order_inv_round [OF 1(2), of "fst st" "snd st"] by simp
    then have "\<exists>os'. order_rounds nodes (by_id nodes) (fst st) (snd st) = Inr os'"
      by (rule 1(1) [OF False ready st _ 1(3)])
    then show ?thesis using False ready st by (subst order_rounds.simps) simp
  qed
qed

lemma ordered_topological: "ordered catalog = Inr os \<Longrightarrow> topological_order (tc_nodes catalog) os"
  by (auto simp: ordered_def Let_def intro: order_rounds_topological order_inv_initial)

lemma ordered_complete: "topological_order (tc_nodes catalog) os \<Longrightarrow> \<exists>os'. ordered catalog = Inr os'"
  unfolding ordered_def Let_def by (rule order_rounds_complete [OF order_inv_initial])

lemma ordered_is_topological_sort_facts:
  "(\<exists>os. ordered catalog = Inr os) \<longleftrightarrow> (\<exists>os. topological_order (tc_nodes catalog) os)"
  "ordered catalog = Inr os \<Longrightarrow> distinct (map tn_id (tc_nodes catalog)) \<and> mset os = mset (tc_nodes catalog)
     \<and> (\<forall>i < length os. set (tn_dependencies (os ! i)) \<subseteq> tn_id ` set (take i os))"
proof -
  show "(\<exists>os. ordered catalog = Inr os) \<longleftrightarrow> (\<exists>os. topological_order (tc_nodes catalog) os)"
    using ordered_topological ordered_complete by blast
  show "ordered catalog = Inr os \<Longrightarrow> distinct (map tn_id (tc_nodes catalog)) \<and> mset os = mset (tc_nodes catalog)
     \<and> (\<forall>i < length os. set (tn_dependencies (os ! i)) \<subseteq> tn_id ` set (take i os))"
    using ordered_topological unfolding topological_order_def deps_first_def by blast
qed

text \<open>
  C24. \<open>TestCatalog.ordered\<close> returns exactly when the tests have distinct ids and an order with every
  dependency before its dependents, and what it returns is such an order of all the tests.
\<close>

theorem ordered_is_topological_sort:
  "((\<exists>os. ordered catalog = Inr os) \<longleftrightarrow> (\<exists>os. topological_order (tc_nodes catalog) os))
   \<and> (\<forall>os. ordered catalog = Inr os \<longrightarrow> distinct (map tn_id (tc_nodes catalog)) \<and> mset os = mset (tc_nodes catalog)
        \<and> (\<forall>i < length os. set (tn_dependencies (os ! i)) \<subseteq> tn_id ` set (take i os)))"
  using ordered_is_topological_sort_facts by blast

section \<open>The selection is the least one that covers the changes\<close>

text \<open>
  The reference: the tests a set of seeds affects, closed under eligible dependents and under
  dependencies.
\<close>

inductive affected :: "test_node list \<Rightarrow> string set \<Rightarrow> string set \<Rightarrow> string \<Rightarrow> bool"
  for nodes eligible seeds where
  seed: "i \<in> seeds \<Longrightarrow> affected nodes eligible seeds i"
| dependent: "n \<in> set nodes \<Longrightarrow> tn_id n \<in> eligible \<Longrightarrow> d \<in> set (tn_dependencies n)
    \<Longrightarrow> affected nodes eligible seeds d \<Longrightarrow> affected nodes eligible seeds (tn_id n)"
| dependency: "n \<in> set nodes \<Longrightarrow> affected nodes eligible seeds (tn_id n) \<Longrightarrow> d \<in> set (tn_dependencies n)
    \<Longrightarrow> affected nodes eligible seeds d"

lemma add_dependents_complete:
  "n \<in> set os \<Longrightarrow> tn_id n \<in> set eligible \<Longrightarrow> set (tn_dependencies n) \<inter> set selected \<noteq> {}
   \<Longrightarrow> tn_id n \<in> set (add_dependents os eligible selected)"
proof (induction os rule: rev_induct)
  case (snoc m os)
  have "set selected \<subseteq> set (add_dependents os eligible selected)"
    using add_dependents_grows [of os eligible selected] by auto
  then show ?case using snoc by (auto simp: add_dependents_def)
qed simp

lemma add_dependents_sound:
  assumes "set selected \<subseteq> {i. affected nodes (set eligible) seeds i}" and "set os \<subseteq> set nodes"
  shows "set (add_dependents os eligible selected) \<subseteq> {i. affected nodes (set eligible) seeds i}"
  using assms(2)
proof (induction os rule: rev_induct)
  case Nil
  then show ?case using assms(1) by (simp add: add_dependents_def)
next
  case (snoc m os)
  then show ?case by (auto simp: add_dependents_def intro: affected.dependent)
qed

lemma add_dependencies_complete:
  assumes "add_dependencies ids visit selected = Inr sel" and "i \<in> set visit"
  shows "\<exists>n. map_of ids i = Some n \<and> set (tn_dependencies n) \<subseteq> set sel"
  using assms
proof (induction visit arbitrary: selected)
  case (Cons k visit)
  then obtain n where n: "map_of ids k = Some n"
    "add_dependencies ids visit (foldl add_id selected (tn_dependencies n)) = Inr sel"
    by (auto simp: add_dependencies_def rbind_Inr_iff split: option.splits)
  have "set (tn_dependencies n) \<subseteq> set sel"
    using add_dependencies_grows [OF n(2)] by (auto simp: add_ids_set)
  then show ?case using Cons.IH [OF n(2)] Cons.prems(2) n(1) by auto
qed simp

lemma add_dependencies_sound:
  assumes "add_dependencies (by_id nodes) visit selected = Inr sel"
    and "set selected \<subseteq> {i. affected nodes eligible seeds i}" and "set visit \<subseteq> {i. affected nodes eligible seeds i}"
  shows "set sel \<subseteq> {i. affected nodes eligible seeds i}"
  using assms
proof (induction visit arbitrary: selected)
  case Nil
  then show ?case by (simp add: add_dependencies_def)
next
  case (Cons k visit)
  then obtain n where n: "map_of (by_id nodes) k = Some n"
    "add_dependencies (by_id nodes) visit (foldl add_id selected (tn_dependencies n)) = Inr sel"
    by (auto simp: add_dependencies_def rbind_Inr_iff split: option.splits)
  have "set (tn_dependencies n) \<subseteq> {i. affected nodes eligible seeds i}"
    using by_id_SomeD [OF n(1)] Cons.prems(3) by (auto intro: affected.dependency)
  then show ?case using Cons.IH [OF n(2)] Cons.prems(2,3) by (auto simp: add_ids_set)
qed

lemma expansion_fixpoint:
  assumes "expansion_round iteration os ids eligible sel = Inr sel" and "set (iteration sel) = set sel"
  shows "add_dependents os eligible sel = sel" and "add_dependencies ids (iteration sel) sel = Inr sel"
proof -
  obtain new1 where 1: "add_dependents os eligible sel = sel @ new1" using add_dependents_grows by blast
  then obtain new2 where "sel = (sel @ new1) @ new2"
    using assms(1) add_dependencies_grows unfolding expansion_round_def Let_def by metis
  then show "add_dependents os eligible sel = sel" using 1 by simp
  then show "add_dependencies ids (iteration sel) sel = Inr sel"
    using assms(1) by (simp add: expansion_round_def Let_def)
qed

lemma expand_Inr_fixpoint:
  "expand iteration os ids eligible selected = Inr sel \<Longrightarrow> expansion_round iteration os ids eligible sel = Inr sel"
proof (induction iteration os ids eligible selected rule: expand.induct)
  case (1 iteration os ids eligible selected)
  from 1(2) show ?case
    by (subst (asm) expand.simps) (auto simp: rbind_Inr_iff split: if_splits intro: 1(1))
qed

lemma expand_sound:
  "expand iteration os (by_id nodes) eligible selected = Inr sel \<Longrightarrow> (\<And>xs. set (iteration xs) = set xs)
   \<Longrightarrow> set os \<subseteq> set nodes \<Longrightarrow> set selected \<subseteq> {i. affected nodes (set eligible) seeds i}
   \<Longrightarrow> set sel \<subseteq> {i. affected nodes (set eligible) seeds i}"
proof (induction iteration os "by_id nodes" eligible selected rule: expand.induct)
  case (1 iteration os eligible selected)
  obtain sel1 where sel1: "expansion_round iteration os (by_id nodes) eligible selected = Inr sel1"
    and rest: "sel1 \<noteq> selected \<Longrightarrow> expand iteration os (by_id nodes) eligible sel1 = Inr sel"
      "sel1 = selected \<Longrightarrow> sel = sel1"
    using 1(2) by (subst (asm) expand.simps) (auto simp: rbind_Inr_iff split: if_splits)
  have "set (add_dependents os eligible selected) \<subseteq> {i. affected nodes (set eligible) seeds i}"
    by (rule add_dependents_sound [OF 1(5,4)])
  then have sound: "set sel1 \<subseteq> {i. affected nodes (set eligible) seeds i}"
    using sel1 add_dependencies_sound 1(3) unfolding expansion_round_def Let_def by metis
  show ?case
  proof (cases "sel1 = selected")
    case True
    then show ?thesis using rest sound by simp
  next
    case False
    show ?thesis by (rule 1(1) [OF sel1 False rest(1) [OF False] 1(3) 1(4) sound])
  qed
qed

lemma expand_is_affected:
  assumes "expand iteration os (by_id nodes) eligible seeds = Inr sel" and "\<And>xs. set (iteration xs) = set xs"
    and "set os = set nodes" and "distinct (map tn_id nodes)"
  shows "set sel = {i. affected nodes (set eligible) (set seeds) i}"
proof
  show "set sel \<subseteq> {i. affected nodes (set eligible) (set seeds) i}"
    by (rule expand_sound [OF assms(1,2)]) (auto simp: assms(3) intro: affected.seed)
  note stable = expansion_fixpoint [OF expand_Inr_fixpoint [OF assms(1)] assms(2)]
  have seeds: "set seeds \<subseteq> set sel"
    using assms(1)
  proof (induction iteration os "by_id nodes" eligible seeds rule: expand.induct)
    case (1 iteration os eligible seeds)
    then obtain sel1 where sel1: "expansion_round iteration os (by_id nodes) eligible seeds = Inr sel1"
      "sel1 \<noteq> seeds \<Longrightarrow> expand iteration os (by_id nodes) eligible sel1 = Inr sel" "sel1 = seeds \<Longrightarrow> sel = sel1"
      by (subst (asm) (2) expand.simps) (auto simp: rbind_Inr_iff split: if_splits)
    have "set seeds \<subseteq> set sel1" using expansion_round_grows [OF sel1(1)] by auto
    then show ?case using 1(1) [OF sel1(1)] sel1(2,3) by blast
  qed
  have "i \<in> set sel" if "affected nodes (set eligible) (set seeds) i" for i
    using that
  proof induction
    case (seed i)
    then show ?case using seeds by blast
  next
    case (dependent n d)
    then show ?case using add_dependents_complete [of n os eligible sel] stable(1) assms(3) by auto
  next
    case (dependency n d)
    then show ?case
      using add_dependencies_complete [OF stable(2), of "tn_id n"] assms(2) by_id_Some [OF assms(4), of n] by auto
  qed
  then show "{i. affected nodes (set eligible) (set seeds) i} \<subseteq> set sel" by blast
qed

text \<open>With known dependencies the loop ends without a missing key.\<close>

lemma add_dependencies_total:
  assumes "\<And>n. n \<in> set nodes \<Longrightarrow> set (tn_dependencies n) \<subseteq> tn_id ` set nodes" and "set visit \<subseteq> tn_id ` set nodes"
    and "set selected \<subseteq> tn_id ` set nodes"
  shows "\<exists>sel. add_dependencies (by_id nodes) visit selected = Inr sel \<and> set sel \<subseteq> tn_id ` set nodes"
  using assms(2,3)
proof (induction visit arbitrary: selected)
  case (Cons k visit)
  obtain n where n: "map_of (by_id nodes) k = Some n" using Cons.prems(1) by_id_exists [of k nodes] by auto
  then have "set (foldl add_id selected (tn_dependencies n)) \<subseteq> tn_id ` set nodes"
    using assms(1) [of n] by_id_SomeD [OF n] Cons.prems(2) by (simp add: add_ids_set)
  with Cons show ?case by (simp add: add_dependencies_def n)
qed (simp add: add_dependencies_def)

lemma expand_total:
  assumes "\<And>n. n \<in> set nodes \<Longrightarrow> set (tn_dependencies n) \<subseteq> tn_id ` set nodes"
    and "\<And>xs. set (iteration xs) = set xs" and "set os = set nodes" and "set selected \<subseteq> tn_id ` set nodes"
  shows "\<exists>sel. expand iteration os (by_id nodes) eligible selected = Inr sel"
  using assms
proof (induction iteration os "by_id nodes" eligible selected rule: expand.induct)
  case (1 iteration os eligible selected)
  have "set (add_dependents os eligible selected) \<subseteq> tn_id ` set nodes"
    using add_dependents_grows [of os eligible selected] 1(4,5) by auto
  then obtain sel where sel: "expansion_round iteration os (by_id nodes) eligible selected = Inr sel"
      "set sel \<subseteq> tn_id ` set nodes"
    using add_dependencies_total [of nodes "iteration (add_dependents os eligible selected)"
        "add_dependents os eligible selected", OF 1(2)] 1(3)
    by (auto simp: expansion_round_def Let_def)
  then show ?case
    using 1(1) [OF sel(1) _ 1(2-4)] by (subst expand.simps) auto
qed

definition eligible_ids :: "string \<Rightarrow> test_node list \<Rightarrow> string set" where
  "eligible_ids lane nodes = tn_id ` {n \<in> set nodes. lane \<in> set (tn_lanes n)}"

definition touched_ids :: "string \<Rightarrow> test_node list \<Rightarrow> string list \<Rightarrow> string set" where
  "touched_ids lane nodes paths = tn_id ` {n \<in> set nodes. lane \<in> set (tn_lanes n)
     \<and> (\<exists>path \<in> set paths. \<exists>pattern \<in> set (tn_cache_inputs n). path_matches path pattern)}"

lemma changed_paths_valid: "mapM changed_path paths = Inr valid \<Longrightarrow> valid = paths"
  by (induction paths arbitrary: valid) (auto simp: rbind_Inr_iff changed_path_def split: if_splits)

lemma same_id: "distinct (map tn_id ns) \<Longrightarrow> n \<in> set ns \<Longrightarrow> m \<in> set ns \<Longrightarrow> tn_id n = tn_id m \<longleftrightarrow> n = m"
  by (auto simp: distinct_map inj_on_def)

lemma eligible_iff:
  "distinct (map tn_id os) \<Longrightarrow> n \<in> set os \<Longrightarrow>
     tn_id n \<in> set (map tn_id (filter (\<lambda>n. lane \<in> set (tn_lanes n)) os)) \<longleftrightarrow> lane \<in> set (tn_lanes n)"
  by (auto simp: same_id)

lemma touched_set:
  assumes "distinct (map tn_id os)"
  shows "set (touched os (map tn_id (filter (\<lambda>n. lane \<in> set (tn_lanes n)) os)) path) = touched_ids lane os [path]"
  using eligible_iff [OF assms] unfolding touched_def touched_ids_def
  by (fastforce simp: list_ex_iff)

lemma touched_ids_Union: "touched_ids lane os paths = (\<Union>path \<in> set paths. touched_ids lane os [path])"
  by (auto simp: touched_ids_def)

text \<open>What \<open>select_changed\<close> returns, with the expansion replaced by its specification.\<close>

lemma select_changed_spec:
  assumes order: "topological_order (tc_nodes catalog) os" and iteration: "\<And>xs. set (iteration xs) = set xs"
    and eligible: "eligible = map tn_id (filter (\<lambda>n. lane \<in> set (tn_lanes n)) os)"
  shows "select_changed iteration catalog lane os eligible changed =
     Inr (let all = filter (\<lambda>n. lane \<in> set (tn_lanes n)) os;
              unmatched = filter (\<lambda>path. touched_ids lane os [path] = {}) changed
          in if changed = [] then selection lane ''changed-paths-no-diff'' all [] []
             else if list_ex (\<lambda>path. list_ex (path_matches path) CRITICAL_CHANGE_PATTERNS) changed
             then selection lane ''changed-paths-critical'' all changed []
             else if unmatched \<noteq> [] then selection lane ''changed-paths-fail-closed'' all changed unmatched
             else selection lane ''changed-paths''
               (filter (\<lambda>n. affected (tc_nodes catalog) (eligible_ids lane os) (touched_ids lane os changed) (tn_id n)) os)
               changed [])"
proof -
  let ?nodes = "tc_nodes catalog"
  have os: "set os = set ?nodes" using order by (metis topological_order_def set_mset_mset)
  have dist: "distinct (map tn_id ?nodes)" "distinct (map tn_id os)"
    using order by (auto simp: topological_order_def) (metis mset_eq_imp_distinct_iff mset_map)
  have el: "set eligible = eligible_ids lane os" by (auto simp: eligible eligible_ids_def)
  have all: "filter (\<lambda>n. tn_id n \<in> set eligible) os = filter (\<lambda>n. lane \<in> set (tn_lanes n)) os"
    unfolding eligible by (rule filter_cong [OF refl]) (rule eligible_iff [OF dist(2)])
  have unmatched: "(touched os eligible path = []) = (touched_ids lane os [path] = {})" for path
    using touched_set [OF dist(2), of lane path] unfolding eligible by (metis set_empty)
  let ?seeds = "remdups (concat (map (touched os eligible) changed))"
  have seeds: "set ?seeds = touched_ids lane os changed"
    using touched_set [OF dist(2), of lane] unfolding eligible touched_ids_Union [of lane os changed] by simp
  have known: "set (tn_dependencies n) \<subseteq> tn_id ` set ?nodes" if "n \<in> set ?nodes" for n
    using that order os unfolding topological_order_def deps_first_def
    by (metis in_set_conv_nth image_mono set_take_subset subset_trans)
  have "touched_ids lane os changed \<subseteq> tn_id ` set ?nodes" unfolding os [symmetric] by (auto simp: touched_ids_def)
  then obtain sel where sel: "expand iteration os (by_id ?nodes) eligible ?seeds = Inr sel"
    using expand_total [OF known iteration os, of ?seeds eligible] seeds by auto
  have "set sel = {i. affected ?nodes (eligible_ids lane os) (touched_ids lane os changed) i}"
    using expand_is_affected [OF sel iteration os dist(1)] unfolding seeds el .
  then have "filter (\<lambda>n. tn_id n \<in> set sel) os =
      filter (\<lambda>n. affected ?nodes (eligible_ids lane os) (touched_ids lane os changed) (tn_id n)) os" by simp
  then show ?thesis
    unfolding select_changed_def all unmatched sel Let_def rbind_simps by simp
qed

lemma ordered_set: "ordered catalog = Inr os \<Longrightarrow> set os = set (tc_nodes catalog)"
  using ordered_topological by (metis topological_order_def set_mset_mset)

lemma ordered_deps_known:
  assumes "ordered catalog = Inr os" and "n \<in> set (tc_nodes catalog)"
  shows "set (tn_dependencies n) \<subseteq> tn_id ` set (tc_nodes catalog)"
  using ordered_topological [OF assms(1)] assms(2) ordered_set [OF assms(1)]
  unfolding topological_order_def deps_first_def
  by (metis in_set_conv_nth image_mono set_take_subset subset_trans)

lemma affected_known:
  assumes "affected nodes eligible seeds i" and "eligible \<subseteq> tn_id ` set nodes" and "seeds \<subseteq> tn_id ` set nodes"
    and "\<And>n. n \<in> set nodes \<Longrightarrow> set (tn_dependencies n) \<subseteq> tn_id ` set nodes"
  shows "i \<in> tn_id ` set nodes"
  using assms by induction blast+

lemma select_tests_Inr:
  assumes "select_tests iteration catalog lane (Some paths) = Inr sel" and "\<And>xs. set (iteration xs) = set xs"
  shows "\<exists>os. ordered catalog = Inr os \<and>
     (if ts_mode sel = ''changed-paths''
      then ts_nodes sel = filter (\<lambda>n. affected (tc_nodes catalog) (eligible_ids lane (tc_nodes catalog))
             (touched_ids lane (tc_nodes catalog) paths) (tn_id n)) os
           \<and> (\<forall>path \<in> set paths. touched_ids lane (tc_nodes catalog) [path] \<noteq> {})
      else ts_nodes sel = filter (\<lambda>n. lane \<in> set (tn_lanes n)) os)"
proof -
  obtain os valid where os: "ordered catalog = Inr os" and "mapM changed_path paths = Inr valid"
    and sel: "select_changed iteration catalog lane os (map tn_id (filter (\<lambda>n. lane \<in> set (tn_lanes n)) os))
      (py_sorted (remdups valid)) = Inr sel"
    using assms(1) by (auto simp: select_tests_def Let_def rbind_Inr_iff split: if_splits)
  then have "valid = paths" by (simp add: changed_paths_valid)
  have same: "eligible_ids lane os = eligible_ids lane (tc_nodes catalog)"
    "touched_ids lane os (py_sorted (remdups paths)) = touched_ids lane (tc_nodes catalog) paths"
    "touched_ids lane os [path] = touched_ids lane (tc_nodes catalog) [path]" for path
    using ordered_set [OF os] by (simp_all add: eligible_ids_def touched_ids_def)
  show ?thesis
    using sel os
    unfolding select_changed_spec [OF ordered_topological [OF os] assms(2) refl] \<open>valid = paths\<close> same Let_def
    by (auto simp: selection_def filter_empty_conv split: if_splits)
qed

lemma selection_covers_changes_facts:
  assumes "select_tests iteration catalog lane (Some paths) = Inr sel" and "\<And>xs. set (iteration xs) = set xs"
  shows "i \<in> eligible_ids lane (tc_nodes catalog)
      \<Longrightarrow> affected (tc_nodes catalog) (eligible_ids lane (tc_nodes catalog)) (touched_ids lane (tc_nodes catalog) paths) i
      \<Longrightarrow> i \<in> tn_id ` set (ts_nodes sel)"
    and "ts_mode sel = ''changed-paths'' \<Longrightarrow> tn_id ` set (ts_nodes sel) =
       {i. affected (tc_nodes catalog) (eligible_ids lane (tc_nodes catalog)) (touched_ids lane (tc_nodes catalog) paths) i}
       \<and> (\<forall>path \<in> set paths. touched_ids lane (tc_nodes catalog) [path] \<noteq> {})"
    and "ts_mode sel \<noteq> ''changed-paths'' \<Longrightarrow> set (ts_nodes sel) = {n \<in> set (tc_nodes catalog). lane \<in> set (tn_lanes n)}"
proof -
  let ?nodes = "tc_nodes catalog"
  let ?hit = "affected ?nodes (eligible_ids lane ?nodes) (touched_ids lane ?nodes paths)"
  obtain os where os: "ordered catalog = Inr os" and sel: "if ts_mode sel = ''changed-paths''
      then ts_nodes sel = filter (\<lambda>n. ?hit (tn_id n)) os \<and> (\<forall>path \<in> set paths. touched_ids lane ?nodes [path] \<noteq> {})
      else ts_nodes sel = filter (\<lambda>n. lane \<in> set (tn_lanes n)) os"
    using select_tests_Inr [OF assms] by blast
  have known: "i \<in> tn_id ` set os" if "?hit i" for i
    unfolding ordered_set [OF os]
    by (rule affected_known [OF that]) (auto simp: eligible_ids_def touched_ids_def dest: ordered_deps_known [OF os])
  show exact: "tn_id ` set (ts_nodes sel) = {i. ?hit i} \<and> (\<forall>path \<in> set paths. touched_ids lane ?nodes [path] \<noteq> {})"
    if "ts_mode sel = ''changed-paths''"
    using sel that known by auto
  show lane: "set (ts_nodes sel) = {n \<in> set ?nodes. lane \<in> set (tn_lanes n)}" if "ts_mode sel \<noteq> ''changed-paths''"
    using sel that ordered_set [OF os] by auto
  show "i \<in> tn_id ` set (ts_nodes sel)" if "i \<in> eligible_ids lane ?nodes" "?hit i"
  proof (cases "ts_mode sel = ''changed-paths''")
    case True
    then show ?thesis using exact that(2) by blast
  next
    case False
    then show ?thesis using lane that(1) by (simp add: eligible_ids_def)
  qed
qed

text \<open>
  C23. A selection by changed paths misses nothing: every eligible test that a changed path touches, that
  depends on an affected test, directly or through others, or that an affected test depends on, is
  selected.  Either every path touches a test and the selection is exactly the affected tests, or
  all tests of the lane are selected.  The order in which Python iterates over sets does not matter.
\<close>

theorem selection_covers_changes:
  assumes "select_tests iteration catalog lane (Some paths) = Inr sel" and "\<And>xs. set (iteration xs) = set xs"
    and "nodes = tc_nodes catalog" and "eligible = eligible_ids lane nodes" and "hit = touched_ids lane nodes paths"
  shows "(\<forall>i \<in> eligible. affected nodes eligible hit i \<longrightarrow> i \<in> tn_id ` set (ts_nodes sel))
     \<and> (if ts_mode sel = ''changed-paths''
        then tn_id ` set (ts_nodes sel) = {i. affected nodes eligible hit i}
          \<and> (\<forall>path \<in> set paths. touched_ids lane nodes [path] \<noteq> {})
        else set (ts_nodes sel) = {n \<in> set nodes. lane \<in> set (tn_lanes n)})"
proof (intro conjI ballI impI)
  note facts = selection_covers_changes_facts [OF assms(1,2), folded assms(3), folded assms(4,5)]
  show "i \<in> tn_id ` set (ts_nodes sel)" if "i \<in> eligible" "affected nodes eligible hit i" for i
    by (rule facts(1) [OF that])
  show "if ts_mode sel = ''changed-paths''
        then tn_id ` set (ts_nodes sel) = {i. affected nodes eligible hit i}
          \<and> (\<forall>path \<in> set paths. touched_ids lane nodes [path] \<noteq> {})
        else set (ts_nodes sel) = {n \<in> set nodes. lane \<in> set (tn_lanes n)}"
  proof (cases "ts_mode sel = ''changed-paths''")
    case True
    show ?thesis unfolding if_P [OF True] by (rule facts(2) [OF True])
  next
    case False
    show ?thesis unfolding if_not_P [OF False] by (rule facts(3) [OF False])
  qed
qed

text \<open>
  C25. Given a software lane with a test, a catalog that can be ordered and valid paths, the selection always
  ends with a result, and with the same one whatever order Python iterates over sets in.
\<close>

theorem selection_ends_with_one_result:
  assumes "ordered catalog = Inr os" and "lane \<in> {''fast'', ''full-software''}"
    and "n \<in> set (tc_nodes catalog)" and "lane \<in> set (tn_lanes n)" and "mapM changed_path paths = Inr paths"
  shows "\<exists>sel. \<forall>iteration. (\<forall>xs. set (iteration xs) = set xs)
     \<longrightarrow> select_tests iteration catalog lane (Some paths) = Inr sel"
proof -
  have "n \<in> set (filter (\<lambda>n. lane \<in> set (tn_lanes n)) os)" using assms(3,4) ordered_set [OF assms(1)] by simp
  then have eligible: "map tn_id (filter (\<lambda>n. lane \<in> set (tn_lanes n)) os) \<noteq> []" by (metis empty_iff empty_set map_is_Nil_conv)
  show ?thesis
    unfolding select_tests_def assms(1,5) Let_def rbind_simps option.case
    using assms(2) eligible select_changed_spec [OF ordered_topological [OF assms(1)] _ refl] by (simp add: Let_def)
qed

section \<open>What a loaded catalog guarantees\<close>

lemma positive_integer_Inr:
  "positive_integer v label z = Inr n \<Longrightarrow> (if z then 0 else 1) \<le> n \<and> n \<le> 86400"
  by (auto simp: positive_integer_def Let_def split: json.splits if_splits)

lemma check_hardware_Inr:
  assumes "check_hardware label lanes hardware writes = Inr ()"
  shows "\<not> (writes \<and> hardware \<noteq> ''required'')" and "\<not> (''hardware'' \<in> set lanes \<and> hardware \<noteq> ''required'')"
    and "\<not> (set lanes \<inter> {''fast'', ''full-software''} \<noteq> {} \<and> hardware \<noteq> ''none'')"
  using assms unfolding check_hardware_def by (simp_all only: split: if_splits) simp_all

lemma load_node_Inr:
  assumes "load_node globs render index v = Inr n"
  shows "tn_lanes n \<noteq> [] \<and> set (tn_lanes n) \<subseteq> set LANES" and "tn_runner n \<in> set KNOWN_RUNNERS"
    and "\<exists>label. check_hardware label (tn_lanes n) (tn_hardware_requirement n) (tn_writes_hardware n) = Inr ()"
    and "0 \<le> tn_expected_duration_seconds n \<and> tn_expected_duration_seconds n \<le> tn_timeout_seconds n
         \<and> tn_timeout_seconds n \<le> 86400"
    and "tn_id n \<notin> set (tn_dependencies n)"
  using assms
  by (auto simp: load_node_def Let_def rbind_Inr_iff dest!: positive_integer_Inr split: json.splits if_splits)

lemma load_test_catalog_Inr:
  assumes "load_test_catalog files globs render = Inr cat"
  shows "\<exists>raws. mapM_index (load_node globs render) raws = Inr (tc_nodes cat)" and "\<exists>os. ordered cat = Inr os"
  using assms
  by (auto simp: load_test_catalog_def Let_def rbind_Inr_iff split: if_splits)

lemma loaded_catalog_is_safe_facts:
  assumes "load_test_catalog files globs render = Inr cat"
  shows "\<exists>os. ordered cat = Inr os"
    and "n \<in> set (tc_nodes cat) \<Longrightarrow> tn_lanes n \<noteq> [] \<and> set (tn_lanes n) \<subseteq> {''fast'', ''full-software'', ''hardware''}
        \<and> tn_runner n \<in> set KNOWN_RUNNERS"
    and "n \<in> set (tc_nodes cat) \<Longrightarrow> ''fast'' \<in> set (tn_lanes n) \<or> ''full-software'' \<in> set (tn_lanes n)
        \<Longrightarrow> tn_hardware_requirement n = ''none'' \<and> \<not> tn_writes_hardware n"
    and "n \<in> set (tc_nodes cat) \<Longrightarrow> ''hardware'' \<in> set (tn_lanes n) \<Longrightarrow> tn_hardware_requirement n = ''required''"
    and "n \<in> set (tc_nodes cat) \<Longrightarrow> 0 \<le> tn_expected_duration_seconds n
        \<and> tn_expected_duration_seconds n \<le> tn_timeout_seconds n \<and> tn_timeout_seconds n \<le> 86400"
proof -
  have node: "\<exists>index v. load_node globs render index v = Inr n" if "n \<in> set (tc_nodes cat)"
    using load_test_catalog_Inr(1) [OF assms] that by (auto simp: mapM_index_Inr in_set_conv_nth) metis
  show "\<exists>os. ordered cat = Inr os" by (rule load_test_catalog_Inr(2) [OF assms])
  assume n: "n \<in> set (tc_nodes cat)"
  obtain index v where v: "load_node globs render index v = Inr n" using node [OF n] by blast
  obtain label where "check_hardware label (tn_lanes n) (tn_hardware_requirement n) (tn_writes_hardware n) = Inr ()"
    using load_node_Inr(3) [OF v] by blast
  note hardware = check_hardware_Inr [OF this]
  show "tn_lanes n \<noteq> [] \<and> set (tn_lanes n) \<subseteq> {''fast'', ''full-software'', ''hardware''} \<and> tn_runner n \<in> set KNOWN_RUNNERS"
    using load_node_Inr(1,2) [OF v] by (simp add: LANES_def)
  show "tn_hardware_requirement n = ''none'' \<and> \<not> tn_writes_hardware n"
    if "''fast'' \<in> set (tn_lanes n) \<or> ''full-software'' \<in> set (tn_lanes n)"
  proof -
    have "tn_hardware_requirement n = ''none''" using hardware(3) that by blast
    then show ?thesis using hardware(1) by simp
  qed
  show "tn_hardware_requirement n = ''required''" if "''hardware'' \<in> set (tn_lanes n)"
    using hardware(2) that by blast
  show "0 \<le> tn_expected_duration_seconds n \<and> tn_expected_duration_seconds n \<le> tn_timeout_seconds n
      \<and> tn_timeout_seconds n \<le> 86400"
    by (rule load_node_Inr(4) [OF v])
qed

text \<open>
  C26. A catalog that loads can be ordered, and its tests are well formed: known lanes and runners, no test of a
  software lane requires or writes hardware, a test of the hardware lane requires it, and the
  expected duration is within the time limit, which is at most a day.
\<close>

theorem loaded_catalog_is_safe:
  assumes "load_test_catalog files globs render = Inr cat"
  shows "(\<exists>os. ordered cat = Inr os)
     \<and> (\<forall>n \<in> set (tc_nodes cat).
          tn_lanes n \<noteq> [] \<and> set (tn_lanes n) \<subseteq> {''fast'', ''full-software'', ''hardware''} \<and> tn_runner n \<in> set KNOWN_RUNNERS
        \<and> (''fast'' \<in> set (tn_lanes n) \<or> ''full-software'' \<in> set (tn_lanes n)
             \<longrightarrow> tn_hardware_requirement n = ''none'' \<and> \<not> tn_writes_hardware n)
        \<and> (''hardware'' \<in> set (tn_lanes n) \<longrightarrow> tn_hardware_requirement n = ''required'')
        \<and> 0 \<le> tn_expected_duration_seconds n \<and> tn_expected_duration_seconds n \<le> tn_timeout_seconds n
        \<and> tn_timeout_seconds n \<le> 86400)"
  using loaded_catalog_is_safe_facts [OF assms] by (intro conjI ballI impI) simp_all

section \<open>A small catalog\<close>

definition ex_node :: "string \<Rightarrow> string list \<Rightarrow> string list \<Rightarrow> string list \<Rightarrow> test_node" where
  "ex_node i lanes deps inputs = \<lparr>tn_id = i, tn_title = i, tn_owned_domain = ''repository'', tn_lanes = lanes,
     tn_runner = ''python-unit'', tn_required_capabilities = [], tn_hardware_requirement = ''none'',
     tn_writes_hardware = False, tn_expected_duration_seconds = 1, tn_timeout_seconds = 2, tn_dependencies = deps,
     tn_isolation = ''shared'', tn_cache_inputs = inputs, tn_produced_evidence = [i], tn_resume_policy = ''rerun''\<rparr>"

definition ex_catalog :: test_catalog where
  "ex_catalog = \<lparr>tc_nodes = [
     ex_node ''unit'' [''fast'', ''full-software''] [''schema''] [''tools/**''],
     ex_node ''schema'' [''full-software''] [] [''schemas/*.json''],
     ex_node ''docs'' [''fast''] [] [''docs/**/*.md'']]\<rparr>"

lemma ex_catalog_ordered:
  "map_sum id (map tn_id) (ordered ex_catalog) = Inr [''schema'', ''docs'', ''unit'']"
  by code_simp

lemma map_sum_InrD: "map_sum id g r = Inr w \<Longrightarrow> \<exists>v. r = Inr v \<and> g v = w"
  by (cases r) auto

lemma ex_catalog_selects:
  "map_sum id (\<lambda>s. (ts_mode s, map tn_id (ts_nodes s))) (select_tests id ex_catalog ''fast'' (Some [''tools/a/b.py'']))
     = Inr (''changed-paths'', [''schema'', ''unit''])"
  by code_simp

theorem ordered_is_topological_sort_witness:
  "\<exists>os. ordered ex_catalog = Inr os \<and> map tn_id os = [''schema'', ''docs'', ''unit'']
     \<and> mset os = mset (tc_nodes ex_catalog)"
proof -
  obtain os where os: "ordered ex_catalog = Inr os" "map tn_id os = [''schema'', ''docs'', ''unit'']"
    using map_sum_InrD [OF ex_catalog_ordered] by (elim exE conjE)
  have "mset os = mset (tc_nodes ex_catalog)"
    by (rule ordered_is_topological_sort [THEN conjunct2, THEN spec, THEN mp, OF os(1), THEN conjunct2, THEN conjunct1])
  with os show ?thesis by (intro exI conjI)
qed

theorem selection_covers_changes_witness:
  "\<exists>sel. select_tests id ex_catalog ''fast'' (Some [''tools/a/b.py'']) = Inr sel
     \<and> {i. affected (tc_nodes ex_catalog) (eligible_ids ''fast'' (tc_nodes ex_catalog))
          (touched_ids ''fast'' (tc_nodes ex_catalog) [''tools/a/b.py'']) i} = {''schema'', ''unit''}"
proof -
  obtain sel where sel: "select_tests id ex_catalog ''fast'' (Some [''tools/a/b.py'']) = Inr sel"
      and pair: "(ts_mode sel, map tn_id (ts_nodes sel)) = (''changed-paths'', [''schema'', ''unit''])"
    using map_sum_InrD [OF ex_catalog_selects] by (elim exE conjE)
  have mode: "ts_mode sel = ''changed-paths''" using arg_cong [OF pair, of fst] unfolding fst_conv .
  have ids: "map tn_id (ts_nodes sel) = [''schema'', ''unit'']" using arg_cong [OF pair, of snd] unfolding snd_conv .
  have "set (id xs) = set xs" for xs :: "string list" by simp
  note exact = conjunct1 [OF conjunct2 [OF selection_covers_changes [OF sel this refl refl refl], unfolded if_P [OF mode]]]
  have "tn_id ` set (ts_nodes sel) = {''schema'', ''unit''}"
    using arg_cong [OF ids, of set] unfolding list.set_map list.set .
  with sel exact show ?thesis by (intro exI [of _ sel] conjI) (simp_all only:)
qed

theorem selection_ends_with_one_result_witness:
  "\<exists>sel. \<forall>iteration. (\<forall>xs. set (iteration xs) = set xs)
     \<longrightarrow> select_tests iteration ex_catalog ''fast'' (Some [''docs/a.md'']) = Inr sel"
proof -
  obtain os where os: "ordered ex_catalog = Inr os"
    using map_sum_InrD [OF ex_catalog_ordered] by (elim exE conjE)
  have valid: "mapM changed_path [''docs/a.md''] = Inr [''docs/a.md'']" by code_simp
  show ?thesis
    by (rule selection_ends_with_one_result [OF os, where n = "hd (tc_nodes ex_catalog)"])
       (simp_all only: valid, simp_all add: ex_catalog_def ex_node_def)
qed

definition ex_test_document :: "string \<Rightarrow> json list \<Rightarrow> json" where
  "ex_test_document i deps = JObj [(''id'', JStr i), (''title'', JStr '' Unit tests ''), (''owned_domain'', JStr ''repository''),
     (''lanes'', JArr [JStr ''fast'']), (''runner'', JStr ''python-unit''), (''required_capabilities'', JArr []),
     (''hardware_requirement'', JStr ''none''), (''writes_hardware'', JBool False),
     (''expected_duration_seconds'', JInt 10), (''timeout_seconds'', JInt 60), (''dependencies'', JArr deps),
     (''isolation'', JStr ''shared''), (''cache_inputs'', JArr [JStr ''tools/**'']),
     (''produced_evidence'', JArr [JStr ''unit-log'']), (''resume_policy'', JStr ''rerun'')]"

definition ex_tests_files :: "string \<Rightarrow> json option" where
  "ex_tests_files path = (if path = ''verification/tests.json'' then
     Some (JObj [(''$schema'', JStr ''s''), (''schema'', JStr ''hyperflux-test-catalog-v1''),
       (''tests'', JArr [ex_test_document ''unit'' [JStr ''base''], ex_test_document ''base'' []])]) else None)"

lemma ex_tests_load:
  "is_ok (load_test_catalog ex_tests_files (\<lambda>_. Inr True) (\<lambda>_. []))"
  by code_simp

theorem loaded_catalog_is_safe_witness:
  "\<exists>cat os. load_test_catalog ex_tests_files (\<lambda>_. Inr True) (\<lambda>_. []) = Inr cat \<and> ordered cat = Inr os"
proof -
  obtain cat where cat: "load_test_catalog ex_tests_files (\<lambda>_. Inr True) (\<lambda>_. []) = Inr cat"
    using ex_tests_load unfolding is_ok_iff ..
  show ?thesis using conjunct1 [OF loaded_catalog_is_safe [OF cat]] cat by blast
qed

end
