(* ===== verification/Verification_Run.thy ===== *)
theory Verification_Run
  imports Testgraph
begin

text \<open>
  A verification run, \<open>run_verification\<close> of \<open>src/tools/hfxdev/verification_run.py\<close>: the guard against
  hardware tests, the loop that blocks, runs and records every selected test, and the outcome, with
  the messages, annotations, claims and summary it records.

  What the run reaches outside its own state is a record of operations on a world \<open>'w\<close>: the clocks,
  the runners it is given, the package artifacts of a test and \<open>_persist\<close>, which writes the five
  report files.  The run here starts at the selection: the identity of the run, the input digests and the
  changed paths come in as values.  How they are computed and when that is refused, and \<open>_persist\<close> on a file
  system, is in \<open>Verification_Evidence\<close>, whose \<open>whole_run\<close> is the function from its first line to its last.
\<close>

section \<open>Run state\<close>

datatype status = Pending | Running | Passed | Failed | Blocked

record node_state =
  nd_id :: string
  nd_title :: string
  nd_domain :: string
  nd_runner :: string
  nd_dependencies :: "string list"
  nd_input_sha256 :: string
  nd_status :: status
  nd_started_at :: "string option"
  nd_finished_at :: "string option"
  nd_duration_ms :: "int option"
  nd_produced_evidence :: "string list"
  nd_error :: "string option"

record run_result =
  rr_run_id :: string
  rr_lane :: string
  rr_selection :: test_selection
  rr_base_revision :: "string option"
  rr_started_at :: string
  rr_finished_at :: "string option"
  rr_status :: status
  rr_duration_ms :: "int option"
  rr_nodes :: "node_state list"

record verification_outcome =
  vo_status :: status
  vo_passed_titles :: "string list"
  vo_failed_nodes :: "string list"

text \<open>A raised exception, by the name of its class and its text; \<open>RunRefused\<close> ends the run itself.\<close>

record raised =
  ex_class :: string
  ex_text :: string

datatype run_exn = RunRefused model_error | IoError string

text \<open>A recorded build artifact.\<close>

record artifact_record =
  ar_id :: string
  ar_node_id :: string
  ar_path :: string
  ar_sha256 :: json
  ar_size :: json

record 'w run_ops =
  op_timestamp :: "'w \<Rightarrow> string \<times> 'w"
  op_monotonic_ns :: "'w \<Rightarrow> int \<times> 'w"
  op_runner :: "string \<Rightarrow> (test_node \<Rightarrow> 'w \<Rightarrow> raised option \<times> 'w) option"
  op_artifacts :: "test_node \<Rightarrow> 'w \<Rightarrow> (raised + artifact_record list) \<times> 'w"
  op_persist :: "run_result \<Rightarrow> artifact_record list \<Rightarrow> 'w \<Rightarrow> (run_exn + unit) \<times> 'w"

section \<open>Messages without private paths\<close>

text \<open>\<open>" ".join(text.split())\<close>, \<open>text.replace(old, new)\<close> and the substitution of private paths.\<close>

fun words :: "string \<Rightarrow> string \<Rightarrow> string list" where
  "words acc [] = (if acc = [] then [] else [acc])"
| "words acc (c # cs) = (if py_isspace c then (if acc = [] then words [] cs else acc # words [] cs)
     else words (acc @ [c]) cs)"

function replace_text :: "string \<Rightarrow> string \<Rightarrow> string \<Rightarrow> string" where
  "replace_text old new [] = []"
| "replace_text old new (c # cs) =
     (if old \<noteq> [] \<and> prefix_of old (c # cs) then new @ replace_text old new (drop (length old) (c # cs))
      else c # replace_text old new cs)"
  by pat_completeness auto
termination by (relation "measure (\<lambda>(old, new, s). length s)") auto

definition after_prefix :: "string \<Rightarrow> string \<Rightarrow> string option" where
  "after_prefix p s = (if prefix_of p s then Some (drop (length p) s) else None)"

definition after_some :: "(char \<Rightarrow> bool) \<Rightarrow> string \<Rightarrow> string option" where
  "after_some ok s = (case s of [] \<Rightarrow> None | c # cs \<Rightarrow> if ok c then Some (dropWhile ok cs) else None)"

text \<open>\<open>/(?:home/[^/ ]+|tmp|var/tmp|run/user/[0-9]+)(?:/[^ ]*)?\<close> at the front of a text, and what follows it.\<close>

definition private_head :: "string \<Rightarrow> string option" where
  "private_head s = (case Option.bind (after_prefix ''/home/'' s) (after_some (\<lambda>c. c \<noteq> CHR ''/'' \<and> c \<noteq> CHR '' '')) of
     Some r \<Rightarrow> Some r
   | None \<Rightarrow> (case after_prefix ''/tmp'' s of Some r \<Rightarrow> Some r
   | None \<Rightarrow> (case after_prefix ''/var/tmp'' s of Some r \<Rightarrow> Some r
   | None \<Rightarrow> Option.bind (after_prefix ''/run/user/'' s) (after_some is_digit))))"

definition path_tail :: "string \<Rightarrow> string" where
  "path_tail s = (case s of [] \<Rightarrow> [] | c # cs \<Rightarrow> if c = CHR ''/'' then dropWhile (\<lambda>x. x \<noteq> CHR '' '') cs else s)"

definition private_path :: "string \<Rightarrow> string option" where
  "private_path s = map_option path_tail (private_head s)"

lemma after_prefix_shorter: "after_prefix p s = Some r \<Longrightarrow> p \<noteq> [] \<Longrightarrow> length r < length s"
  by (cases p; cases s) (auto simp: after_prefix_def split: if_splits)

lemma after_some_shorter: "after_some ok s = Some r \<Longrightarrow> length r < length s"
  by (auto simp: after_some_def less_Suc_eq_le length_dropWhile_le split: list.splits if_splits)

lemma private_head_shorter: "private_head s = Some r \<Longrightarrow> length r < length s"
  by (auto simp: private_head_def bind_eq_Some_conv split: option.splits
      dest!: after_some_shorter after_prefix_shorter)

lemma path_tail_shorter: "length (path_tail s) \<le> length s"
  by (auto simp: path_tail_def le_SucI length_dropWhile_le split: list.splits)

lemma private_path_shorter: "private_path s = Some r \<Longrightarrow> length r < length s"
  using path_tail_shorter private_head_shorter by (fastforce simp: private_path_def dest: order.strict_trans1)

function scrub :: "string \<Rightarrow> string" where
  "scrub [] = []"
| "scrub (c # cs) = (case private_path (c # cs) of
     Some rest \<Rightarrow> ''[private-path]'' @ scrub rest | None \<Rightarrow> c # scrub cs)"
  by pat_completeness auto
termination by (relation "measure length") (auto dest: private_path_shorter)

definition safe_message :: "string \<Rightarrow> raised \<Rightarrow> string" where
  "safe_message root_path e =
     (let plain = join '' '' (words [] (ex_text e)); message = (if plain = [] then ex_class e else plain)
      in take 512 (scrub (replace_text root_path ''.'' message)))"

section \<open>Running the selected tests\<close>

type_synonym 'w progress = "node_state list \<times> artifact_record list \<times> 'w"

definition unsafe_nodes :: "test_selection \<Rightarrow> string list" where
  "unsafe_nodes sel =
     map tn_id (filter (\<lambda>n. tn_hardware_requirement n \<noteq> ''none'' \<or> tn_writes_hardware n) (ts_nodes sel))"

definition initial_node :: "(test_node \<Rightarrow> run_exn + string) \<Rightarrow> test_node \<Rightarrow> run_exn + node_state" where
  "initial_node input_digest n =
     rbind (input_digest n) (\<lambda>digest.
       Inr \<lparr>nd_id = tn_id n, nd_title = tn_title n, nd_domain = tn_owned_domain n, nd_runner = tn_runner n,
         nd_dependencies = tn_dependencies n, nd_input_sha256 = digest, nd_status = Pending, nd_started_at = None,
         nd_finished_at = None, nd_duration_ms = None, nd_produced_evidence = tn_produced_evidence n, nd_error = None\<rparr>)"

text \<open>\<open>states[id]["status"]\<close>, and the dependencies of a test that are selected and did not pass.\<close>

definition status_of :: "node_state list \<Rightarrow> string \<Rightarrow> status option" where
  "status_of nodes i = map_of (rev (map (\<lambda>n. (nd_id n, nd_status n)) nodes)) i"

definition unavailable :: "node_state list \<Rightarrow> test_node \<Rightarrow> string list" where
  "unavailable nodes spec =
     filter (\<lambda>d. case status_of nodes d of None \<Rightarrow> False | Some s \<Rightarrow> s \<noteq> Passed) (tn_dependencies spec)"

definition keep :: "'w run_ops \<Rightarrow> run_result \<Rightarrow> 'w progress \<Rightarrow> run_exn + 'w progress" where
  "keep ops res st =
     (let (nodes, artifacts, w) = st; (r, w') = op_persist ops (res\<lparr>rr_nodes := nodes\<rparr>) artifacts w
      in rbind r (\<lambda>_. Inr (nodes, artifacts, w')))"

text \<open>The \<open>try\<close> block: the runner, then the package artifacts; any exception becomes the error of the test.\<close>

definition attempt ::
  "'w run_ops \<Rightarrow> (test_node \<Rightarrow> 'w \<Rightarrow> raised option \<times> 'w) \<Rightarrow> test_node \<Rightarrow> 'w \<Rightarrow> (raised + artifact_record list) \<times> 'w" where
  "attempt ops runner spec w =
     (case runner spec w of
        (Some e, w') \<Rightarrow> (Inl e, w')
      | (None, w') \<Rightarrow> op_artifacts ops spec w')"

definition elapsed_ms :: "int \<Rightarrow> int \<Rightarrow> int" where
  "elapsed_ms t0 t1 = max 0 ((t1 - t0) div 1000000)"

definition mark_running :: "string \<Rightarrow> node_state \<Rightarrow> node_state" where
  "mark_running started nd = nd\<lparr>nd_started_at := Some started, nd_status := Running\<rparr>"

definition mark_finished ::
  "string \<Rightarrow> raised + artifact_record list \<Rightarrow> string \<Rightarrow> int \<Rightarrow> node_state \<Rightarrow> node_state" where
  "mark_finished root_path r finished ms nd =
     (case r of Inr _ \<Rightarrow> nd\<lparr>nd_status := Passed\<rparr>
      | Inl e \<Rightarrow> nd\<lparr>nd_status := Failed, nd_error := Some (safe_message root_path e)\<rparr>)
     \<lparr>nd_finished_at := Some finished, nd_duration_ms := Some ms\<rparr>"

definition execute ::
  "'w run_ops \<Rightarrow> string \<Rightarrow> run_result \<Rightarrow> 'w progress \<Rightarrow> nat \<Rightarrow> test_node
    \<Rightarrow> (test_node \<Rightarrow> 'w \<Rightarrow> raised option \<times> 'w) \<Rightarrow> run_exn + 'w progress" where
  "execute ops root_path res st index spec runner =
     (let (nodes, artifacts, w) = st;
          (t0, w1) = op_monotonic_ns ops w;
          (started, w2) = op_timestamp ops w1
      in rbind (keep ops res (nodes[index := mark_running started (nodes ! index)], artifacts, w2)) (\<lambda>(nodes1, artifacts, w3).
           let (r, w4) = attempt ops runner spec w3;
               (finished, w5) = op_timestamp ops w4;
               (t1, w6) = op_monotonic_ns ops w5;
               produced = (case r of Inr a \<Rightarrow> a | Inl _ \<Rightarrow> [])
           in keep ops res
                (nodes1[index := mark_finished root_path r finished (elapsed_ms t0 t1) (nodes1 ! index)],
                 artifacts @ produced, w6)))"

definition run_node ::
  "'w run_ops \<Rightarrow> string \<Rightarrow> run_result \<Rightarrow> 'w progress \<Rightarrow> nat \<times> test_node \<Rightarrow> run_exn + 'w progress" where
  "run_node ops root_path res st entry =
     (let (nodes, artifacts, w) = st; (index, spec) = entry; missing = unavailable nodes spec
      in if missing \<noteq> [] then
           keep ops res (nodes[index := (nodes ! index)\<lparr>nd_status := Blocked,
             nd_error := Some (''dependency did not pass: '' @ join '', '' missing)\<rparr>], artifacts, w)
         else case op_runner ops (tn_runner spec) of
           None \<Rightarrow> keep ops res (nodes[index := (nodes ! index)\<lparr>nd_status := Failed,
             nd_error := Some (''trusted runner is unavailable: '' @ tn_runner spec)\<rparr>], artifacts, w)
         | Some runner \<Rightarrow> execute ops root_path res st index spec runner)"

definition run_nodes ::
  "'w run_ops \<Rightarrow> string \<Rightarrow> (test_node \<Rightarrow> run_exn + string) \<Rightarrow> run_result \<Rightarrow> test_selection \<Rightarrow> 'w \<Rightarrow> run_exn + 'w progress" where
  "run_nodes ops root_path input_digest res sel w =
     rbind (mapM (initial_node input_digest) (ts_nodes sel)) (\<lambda>nodes.
     rbind (keep ops res (nodes, [], w)) (\<lambda>st.
     foldM (run_node ops root_path res) st (enumerate 0 (ts_nodes sel))))"

definition failed_ids :: "node_state list \<Rightarrow> string list" where
  "failed_ids nodes = map nd_id (filter (\<lambda>n. nd_status n \<in> {Failed, Blocked}) nodes)"

definition finish ::
  "'w run_ops \<Rightarrow> run_result \<Rightarrow> int \<Rightarrow> 'w progress \<Rightarrow> run_exn + verification_outcome \<times> 'w" where
  "finish ops res start_ns st =
     (let (nodes, artifacts, w) = st;
          failed = failed_ids nodes;
          verdict = (if failed \<noteq> [] then Failed else Passed);
          (finished, w1) = op_timestamp ops w;
          (t1, w2) = op_monotonic_ns ops w1;
          final = res\<lparr>rr_nodes := nodes, rr_status := verdict, rr_finished_at := Some finished,
            rr_duration_ms := Some (elapsed_ms start_ns t1)\<rparr>;
          (r, w3) = op_persist ops final artifacts w2
      in rbind r (\<lambda>_. Inr (\<lparr>vo_status = verdict,
           vo_passed_titles = map nd_title (filter (\<lambda>n. nd_status n = Passed) nodes), vo_failed_nodes = failed\<rparr>, w3)))"

definition run_verification ::
  "'w run_ops \<Rightarrow> (string list \<Rightarrow> string list) \<Rightarrow> (test_node \<Rightarrow> run_exn + string) \<Rightarrow> string \<Rightarrow> test_catalog \<Rightarrow> string
    \<Rightarrow> (string \<times> string list) option \<Rightarrow> string \<Rightarrow> 'w \<Rightarrow> run_exn + verification_outcome \<times> 'w" where
  "run_verification ops iteration input_digest root_path catalog lane changed run_id w =
     (case select_tests iteration catalog lane (map_option snd changed) of
        Inl e \<Rightarrow> Inl (RunRefused e)
      | Inr sel \<Rightarrow>
          if unsafe_nodes sel \<noteq> []
          then Inl (RunRefused (ModelError (''software verification selected hardware-authorized nodes: ''
            @ join '', '' (unsafe_nodes sel))))
          else
            let (started, w1) = op_timestamp ops w;
                (start_ns, w2) = op_monotonic_ns ops w1;
                res = \<lparr>rr_run_id = run_id, rr_lane = lane, rr_selection = sel, rr_base_revision = map_option fst changed,
                  rr_started_at = started, rr_finished_at = None, rr_status = Running, rr_duration_ms = None, rr_nodes = []\<rparr>
            in rbind (run_nodes ops root_path input_digest res sel w2) (finish ops res start_ns))"

section \<open>What a run records\<close>

definition annotations :: "node_state list \<Rightarrow> (string \<times> string \<times> string option) list" where
  "annotations nodes =
     map (\<lambda>n. (if nd_status n = Failed then ''failure'' else ''warning'', nd_title n, nd_error n))
       (filter (\<lambda>n. nd_status n \<in> {Failed, Blocked}) nodes)"

definition evidence_claims :: "node_state list \<Rightarrow> (string \<times> string \<times> status) list" where
  "evidence_claims nodes =
     concat (map (\<lambda>n. map (\<lambda>e. (nd_id n, e, nd_status n)) (nd_produced_evidence n)) nodes)"

definition evidence_measurements :: "node_state list \<Rightarrow> (string \<times> string \<times> int) list" where
  "evidence_measurements nodes =
     concat (map (\<lambda>n. case nd_duration_ms n of None \<Rightarrow> []
       | Some d \<Rightarrow> [(''duration-'' @ nd_id n, nd_id n, d)]) nodes)"

section \<open>Dependencies of selected tests\<close>

lemma keep_Inr: "keep ops res (nodes, artifacts, w) = Inr (nodes', artifacts', w') \<Longrightarrow> nodes' = nodes \<and> artifacts' = artifacts"
  by (auto simp: keep_def rbind_Inr_iff split: prod.splits)

lemma mark_simps [simp]:
  "nd_id (mark_running started nd) = nd_id nd" "nd_id (mark_finished root_path r finished ms nd) = nd_id nd"
  "nd_status (mark_finished root_path r finished ms nd) \<in> {Passed, Failed}"
  by (auto simp: mark_running_def mark_finished_def split: sum.splits)

lemma execute_Inr:
  assumes "execute ops root_path res (nodes, artifacts, w) k spec runner = Inr (nodes', artifacts', w')"
    and "k < length nodes"
  shows "\<exists>nd. nodes' = nodes[k := nd] \<and> nd_id nd = nd_id (nodes ! k) \<and> nd_status nd \<in> {Passed, Failed}"
proof -
  obtain t0 w1 where 1: "op_monotonic_ns ops w = (t0, w1)" by fastforce
  obtain started w2 where 2: "op_timestamp ops w1 = (started, w2)" by fastforce
  let ?nodes1 = "nodes[k := mark_running started (nodes ! k)]"
  obtain w3 where 3: "keep ops res (?nodes1, artifacts, w2) = Inr (?nodes1, artifacts, w3)"
    using assms(1) by (auto simp: execute_def 1 2 rbind_Inr_iff dest: keep_Inr)
  obtain r w4 where 4: "attempt ops runner spec w3 = (r, w4)" by fastforce
  obtain finished w5 where 5: "op_timestamp ops w4 = (finished, w5)" by fastforce
  obtain t1 w6 where 6: "op_monotonic_ns ops w5 = (t1, w6)" by fastforce
  have "nodes' = ?nodes1[k := mark_finished root_path r finished (elapsed_ms t0 t1) (?nodes1 ! k)]"
    using assms(1) by (auto simp: execute_def 1 2 3 4 5 6 dest: keep_Inr)
  then show ?thesis
    using assms(2) by (intro exI [of _ "mark_finished root_path r finished (elapsed_ms t0 t1) (?nodes1 ! k)"]) (simp del: insert_iff)
qed

lemma run_node_Inr:
  assumes "run_node ops root_path res (nodes, artifacts, w) (k, spec) = Inr (nodes', artifacts', w')"
    and "k < length nodes"
  shows "\<exists>nd. nodes' = nodes[k := nd] \<and> nd_id nd = nd_id (nodes ! k) \<and> nd_status nd \<in> {Passed, Failed, Blocked}
     \<and> (nd_status nd = Blocked \<longleftrightarrow> unavailable nodes spec \<noteq> [])"
proof (cases "unavailable nodes spec = []")
  case True
  show ?thesis
  proof (cases "op_runner ops (tn_runner spec)")
    case None
    then show ?thesis
      using assms(1) True by (auto simp: run_node_def Let_def dest!: keep_Inr intro!: exI)
  next
    case (Some runner)
    then have "execute ops root_path res (nodes, artifacts, w) k spec runner = Inr (nodes', artifacts', w')"
      using assms(1) True by (simp add: run_node_def)
    from execute_Inr [OF this assms(2)] show ?thesis using True by auto
  qed
next
  case False
  then show ?thesis
    using assms(1) by (auto simp: run_node_def Let_def dest!: keep_Inr intro!: exI)
qed

lemma select_tests_filter:
  assumes "select_tests iteration catalog lane changed = Inr sel"
  shows "\<exists>os P. ordered catalog = Inr os \<and> ts_nodes sel = filter P os"
  using assms
  by (auto simp: select_tests_def select_changed_def selection_def Let_def rbind_Inr_iff split: if_splits option.splits)

lemma deps_first_snoc:
  "deps_first (ns @ [n]) \<longleftrightarrow> deps_first ns \<and> set (tn_dependencies n) \<subseteq> tn_id ` set ns"
  by (auto simp: deps_first_def nth_append less_Suc_eq)

lemma filter_deps_earlier:
  assumes "deps_first os" and "distinct (map tn_id os)" and "i < length (filter P os)"
    and "d \<in> set (tn_dependencies (filter P os ! i))" and "d \<in> tn_id ` set (filter P os)"
  shows "\<exists>l < i. tn_id (filter P os ! l) = d"
  using assms
proof (induction os arbitrary: i rule: rev_induct)
  case (snoc n os)
  have split: "deps_first os" "set (tn_dependencies n) \<subseteq> tn_id ` set os" "distinct (map tn_id os)" "tn_id n \<notin> tn_id ` set os"
    using snoc.prems by (auto simp: deps_first_snoc)
  show ?case
  proof (cases "i < length (filter P os)")
    case True
    then have dep: "d \<in> set (tn_dependencies (filter P os ! i))" using snoc.prems(4) by (simp add: nth_append split: if_splits)
    have "filter P os ! i \<in> set os" using True nth_mem by fastforce
    then have "d \<in> tn_id ` set os"
      using dep split(1) unfolding deps_first_def by (metis image_mono in_set_conv_nth set_take_subset subsetD)
    moreover from this have "d \<noteq> tn_id n" using split(4) by metis
    ultimately have "d \<in> tn_id ` set (filter P os)" using snoc.prems(5) by (auto split: if_splits)
    then obtain l where "l < i" "tn_id (filter P os ! l) = d" using snoc.IH [OF split(1,3) True dep] by blast
    then show ?thesis using True by (intro exI [of _ l]) (simp add: nth_append)
  next
    case False
    then have n: "P n" "i = length (filter P os)" using snoc.prems(3) by (auto split: if_splits)
    then have "d \<in> tn_id ` set os" using snoc.prems(4) split(2) by auto
    moreover from this have "d \<noteq> tn_id n" using split(4) by metis
    ultimately have "d \<in> tn_id ` set (filter P os)" using snoc.prems(5) n by auto
    then obtain l where "l < length (filter P os)" "tn_id (filter P os ! l) = d" by (metis imageE in_set_conv_nth)
    then show ?thesis using n by (intro exI [of _ l]) (simp add: nth_append)
  qed
qed simp

lemma selection_order:
  assumes "select_tests iteration catalog lane changed = Inr sel"
  shows "distinct (map tn_id (ts_nodes sel))"
    and "\<lbrakk>i < length (ts_nodes sel); d \<in> set (tn_dependencies (ts_nodes sel ! i)); d \<in> tn_id ` set (ts_nodes sel)\<rbrakk>
      \<Longrightarrow> \<exists>l < i. tn_id (ts_nodes sel ! l) = d"
proof -
  obtain os P where os: "ordered catalog = Inr os" and sel: "ts_nodes sel = filter P os"
    using select_tests_filter [OF assms] by blast
  have "deps_first os" "distinct (map tn_id os)"
    using ordered_topological [OF os] by (auto simp: topological_order_def) (metis mset_eq_imp_distinct_iff mset_map)
  then show "distinct (map tn_id (ts_nodes sel))"
    and "\<lbrakk>i < length (ts_nodes sel); d \<in> set (tn_dependencies (ts_nodes sel ! i)); d \<in> tn_id ` set (ts_nodes sel)\<rbrakk>
      \<Longrightarrow> \<exists>l < i. tn_id (ts_nodes sel ! l) = d"
    unfolding sel by (auto simp: distinct_map_filter intro: filter_deps_earlier)
qed

text \<open>
  What holds of the recorded states when the first \<open>k\<close> tests are settled: a settled test is blocked
  exactly when one of its selected dependencies did not pass.
\<close>

definition settled :: "test_node list \<Rightarrow> node_state list \<Rightarrow> nat \<Rightarrow> bool" where
  "settled specs nodes k \<longleftrightarrow> map nd_id nodes = map tn_id specs \<and> (\<forall>j < k. nd_status (nodes ! j) \<in> {Passed, Failed, Blocked}
     \<and> (nd_status (nodes ! j) = Blocked \<longleftrightarrow>
          (\<exists>l < j. tn_id (specs ! l) \<in> set (tn_dependencies (specs ! j)) \<and> nd_status (nodes ! l) \<noteq> Passed)))"

lemma status_of_Some:
  assumes "distinct (map nd_id nodes)" and "l < length nodes"
  shows "status_of nodes (nd_id (nodes ! l)) = Some (nd_status (nodes ! l))"
proof -
  have "(nd_id (nodes ! l), nd_status (nodes ! l)) \<in> set (rev (map (\<lambda>n. (nd_id n, nd_status n)) nodes))"
    using assms(2) by (auto intro: rev_image_eqI)
  moreover have "distinct (map fst (rev (map (\<lambda>n. (nd_id n, nd_status n)) nodes)))"
    using assms(1) by (simp add: rev_map [symmetric] comp_def)
  ultimately show ?thesis by (simp add: status_of_def)
qed

lemma status_of_None: "d \<notin> set (map nd_id nodes) \<Longrightarrow> status_of nodes d = None"
  by (auto simp: status_of_def map_of_eq_None_iff)

lemma unavailable_iff:
  assumes "map nd_id nodes = map tn_id specs" and "distinct (map tn_id specs)" and "k < length specs"
    and "\<And>d. d \<in> set (tn_dependencies (specs ! k)) \<Longrightarrow> d \<in> tn_id ` set specs \<Longrightarrow> \<exists>l < k. tn_id (specs ! l) = d"
  shows "unavailable nodes (specs ! k) \<noteq> [] \<longleftrightarrow>
     (\<exists>l < k. tn_id (specs ! l) \<in> set (tn_dependencies (specs ! k)) \<and> nd_status (nodes ! l) \<noteq> Passed)"
proof -
  have len: "length nodes = length specs" using assms(1) by (metis length_map)
  have id: "nd_id (nodes ! l) = tn_id (specs ! l)" if "l < length specs" for l
    using assms(1) that len by (metis nth_map)
  have status: "status_of nodes (tn_id (specs ! l)) = Some (nd_status (nodes ! l))" if "l < length specs" for l
    using status_of_Some [of nodes l] id [OF that] assms(1,2) that len by simp
  have "unavailable nodes (specs ! k) \<noteq> [] \<longleftrightarrow>
      (\<exists>d \<in> set (tn_dependencies (specs ! k)). \<exists>s. status_of nodes d = Some s \<and> s \<noteq> Passed)"
    by (auto simp: unavailable_def filter_empty_conv split: option.splits)
  also have "\<dots> \<longleftrightarrow> (\<exists>l < k. tn_id (specs ! l) \<in> set (tn_dependencies (specs ! k)) \<and> nd_status (nodes ! l) \<noteq> Passed)"
  proof
    assume "\<exists>d \<in> set (tn_dependencies (specs ! k)). \<exists>s. status_of nodes d = Some s \<and> s \<noteq> Passed"
    then obtain d s where d: "d \<in> set (tn_dependencies (specs ! k))" "status_of nodes d = Some s" "s \<noteq> Passed" by blast
    then have "d \<in> set (map nd_id nodes)" by (metis option.distinct(1) status_of_None)
    then have "d \<in> tn_id ` set specs" unfolding assms(1) by simp
    then obtain l where "l < k" "tn_id (specs ! l) = d" using assms(4) d(1) by blast
    then show "\<exists>l < k. tn_id (specs ! l) \<in> set (tn_dependencies (specs ! k)) \<and> nd_status (nodes ! l) \<noteq> Passed"
      using d status [of l] assms(3) by (intro exI [of _ l]) auto
  next
    assume "\<exists>l < k. tn_id (specs ! l) \<in> set (tn_dependencies (specs ! k)) \<and> nd_status (nodes ! l) \<noteq> Passed"
    then show "\<exists>d \<in> set (tn_dependencies (specs ! k)). \<exists>s. status_of nodes d = Some s \<and> s \<noteq> Passed"
      using status assms(3) by (metis order.strict_trans)
  qed
  finally show ?thesis .
qed

lemma settled_step:
  assumes "settled specs nodes k" and "distinct (map tn_id specs)" and "k < length specs"
    and "\<And>d. d \<in> set (tn_dependencies (specs ! k)) \<Longrightarrow> d \<in> tn_id ` set specs \<Longrightarrow> \<exists>l < k. tn_id (specs ! l) = d"
    and "run_node ops root_path res (nodes, artifacts, w) (k, specs ! k) = Inr (nodes', artifacts', w')"
  shows "settled specs nodes' (Suc k)"
proof -
  have ids: "map nd_id nodes = map tn_id specs" using assms(1) by (simp add: settled_def)
  then have len: "length nodes = length specs" by (metis length_map)
  then obtain nd where nd: "nodes' = nodes[k := nd]" "nd_id nd = nd_id (nodes ! k)"
      "nd_status nd \<in> {Passed, Failed, Blocked}" "nd_status nd = Blocked \<longleftrightarrow> unavailable nodes (specs ! k) \<noteq> []"
    using run_node_Inr [OF assms(5)] assms(3) by auto
  have "map nd_id nodes' = map tn_id specs"
    using ids assms(3) len by (simp add: nd map_update) (metis list_update_id nth_map)
  moreover have at: "nodes' ! l = (if l = k then nd else nodes ! l)" for l
    using assms(3) len by (simp add: nd(1))
  moreover have "nd_status (nodes' ! j) \<in> {Passed, Failed, Blocked} \<and> (nd_status (nodes' ! j) = Blocked \<longleftrightarrow>
      (\<exists>l < j. tn_id (specs ! l) \<in> set (tn_dependencies (specs ! j)) \<and> nd_status (nodes' ! l) \<noteq> Passed))"
    if "j < Suc k" for j
  proof (cases "j = k")
    case True
    have "nd_status (nodes' ! l) = nd_status (nodes ! l)" if "l < k" for l using that at [of l] by simp
    then show ?thesis using True nd(3,4) unavailable_iff [OF ids assms(2-4)] at [of k] by auto
  next
    case False
    then have "j < k" using that by simp
    then have "nd_status (nodes' ! l) = nd_status (nodes ! l)" if "l \<le> j" for l using that at [of l] by simp
    then show ?thesis using assms(1) \<open>j < k\<close> unfolding settled_def by (metis order.strict_implies_order order_refl)
  qed
  ultimately show ?thesis unfolding settled_def by blast
qed

lemma settled_loop:
  assumes "distinct (map tn_id specs)"
    and "\<And>k d. \<lbrakk>k < length specs; d \<in> set (tn_dependencies (specs ! k)); d \<in> tn_id ` set specs\<rbrakk>
      \<Longrightarrow> \<exists>l < k. tn_id (specs ! l) = d"
  shows "k \<le> length specs \<Longrightarrow> settled specs nodes k
    \<Longrightarrow> foldM (run_node ops root_path res) (nodes, artifacts, w) (enumerate k (drop k specs)) = Inr (nodes', artifacts', w')
    \<Longrightarrow> settled specs nodes' (length specs)"
proof (induction "length specs - k" arbitrary: k nodes artifacts w)
  case 0
  then show ?case by simp
next
  case (Suc n)
  then have k: "k < length specs" by simp
  then have "drop k specs = specs ! k # drop (Suc k) specs" by (simp add: Cons_nth_drop_Suc)
  with Suc.prems(3) obtain st where step: "run_node ops root_path res (nodes, artifacts, w) (k, specs ! k) = Inr st"
    and rest: "foldM (run_node ops root_path res) st (enumerate (Suc k) (drop (Suc k) specs)) = Inr (nodes', artifacts', w')"
    by (auto simp: rbind_Inr_iff)
  obtain nodes1 artifacts1 w1 where st: "st = (nodes1, artifacts1, w1)" by (cases st)
  have "settled specs nodes1 (Suc k)"
    by (rule settled_step [OF Suc.prems(2) assms(1) k assms(2) [OF k] step [unfolded st]])
  moreover have "n = length specs - Suc k" using Suc.hyps(2) by simp
  ultimately show ?case using Suc.hyps(1) [of "Suc k" nodes1 artifacts1 w1] k rest unfolding st by simp
qed

lemma initial_node_id: "initial_node input_digest n = Inr nd \<Longrightarrow> nd_id nd = tn_id n"
  by (auto simp: initial_node_def rbind_Inr_iff)

lemma run_nodes_settled:
  assumes "select_tests iteration catalog lane changed = Inr sel"
    and "run_nodes ops root_path input_digest res sel w = Inr (nodes, artifacts, w')"
  shows "settled (ts_nodes sel) nodes (length (ts_nodes sel))"
proof -
  obtain nodes0 w1 where nodes0: "mapM (initial_node input_digest) (ts_nodes sel) = Inr nodes0"
    and loop: "foldM (run_node ops root_path res) (nodes0, [], w1) (enumerate 0 (ts_nodes sel)) = Inr (nodes, artifacts, w')"
    using assms(2) by (auto simp: run_nodes_def rbind_Inr_iff dest: keep_Inr)
  have "map nd_id nodes0 = map tn_id (ts_nodes sel)"
  proof (rule nth_equalityI)
    show "length (map nd_id nodes0) = length (map tn_id (ts_nodes sel))" using mapM_length [OF nodes0] by simp
  next
    fix i
    assume "i < length (map nd_id nodes0)"
    then show "map nd_id nodes0 ! i = map tn_id (ts_nodes sel) ! i"
      using nodes0 initial_node_id by (fastforce simp: mapM_Inr_iff list_all2_conv_all_nth)
  qed
  then have start: "settled (ts_nodes sel) nodes0 0" by (simp add: settled_def)
  show ?thesis
    by (rule settled_loop [OF selection_order [OF assms(1)] le0 start]) (use loop in simp_all)
qed

lemma tests_run_after_their_dependencies_facts:
  assumes "select_tests iteration catalog lane changed = Inr sel"
    and "run_nodes ops root_path input_digest res sel w = Inr (nodes, artifacts, w')"
    and "i < length (ts_nodes sel)"
  shows "nd_id (nodes ! i) = tn_id (ts_nodes sel ! i) \<and> nd_status (nodes ! i) \<in> {Passed, Failed, Blocked}"
    and "nd_status (nodes ! i) = Blocked \<longleftrightarrow> (\<exists>j < length nodes.
       nd_id (nodes ! j) \<in> set (tn_dependencies (ts_nodes sel ! i)) \<and> nd_status (nodes ! j) \<noteq> Passed)"
proof -
  note inv = run_nodes_settled [OF assms(1,2), unfolded settled_def]
  have len: "length nodes = length (ts_nodes sel)" using inv by (metis length_map)
  have id: "nd_id (nodes ! j) = tn_id (ts_nodes sel ! j)" if "j < length nodes" for j
    using inv that len by (metis nth_map)
  show "nd_id (nodes ! i) = tn_id (ts_nodes sel ! i) \<and> nd_status (nodes ! i) \<in> {Passed, Failed, Blocked}"
    using inv assms(3) id len by auto
  show "nd_status (nodes ! i) = Blocked \<longleftrightarrow> (\<exists>j < length nodes.
       nd_id (nodes ! j) \<in> set (tn_dependencies (ts_nodes sel ! i)) \<and> nd_status (nodes ! j) \<noteq> Passed)"
  proof
    assume "nd_status (nodes ! i) = Blocked"
    then obtain l where "l < i" "tn_id (ts_nodes sel ! l) \<in> set (tn_dependencies (ts_nodes sel ! i))"
        "nd_status (nodes ! l) \<noteq> Passed" using inv assms(3) by blast
    then show "\<exists>j < length nodes. nd_id (nodes ! j) \<in> set (tn_dependencies (ts_nodes sel ! i)) \<and> nd_status (nodes ! j) \<noteq> Passed"
      using id len assms(3) by (intro exI [of _ l]) simp
  next
    assume "\<exists>j < length nodes. nd_id (nodes ! j) \<in> set (tn_dependencies (ts_nodes sel ! i)) \<and> nd_status (nodes ! j) \<noteq> Passed"
    then obtain j where j: "j < length nodes" "tn_id (ts_nodes sel ! j) \<in> set (tn_dependencies (ts_nodes sel ! i))"
        "nd_status (nodes ! j) \<noteq> Passed" using id by auto
    moreover have "j < i"
    proof -
      obtain l where "l < i" "tn_id (ts_nodes sel ! l) = tn_id (ts_nodes sel ! j)"
        using selection_order(2) [OF assms(1,3) j(2)] j(1) len by auto
      then have "l = j"
        using nth_eq_iff_index_eq [OF selection_order(1) [OF assms(1)], of l j] assms(3) j(1) len by simp
      then show ?thesis using \<open>l < i\<close> by simp
    qed
    ultimately show "nd_status (nodes ! i) = Blocked" using inv assms(3) by blast
  qed
qed

text \<open>
  C27. In every run whose loop ends, each selected test ends passed, failed or blocked, and it is blocked exactly
  when a selected dependency of it did not pass; so a test passes only after all its selected
  dependencies passed.
\<close>

theorem tests_run_after_their_dependencies:
  assumes "select_tests iteration catalog lane changed = Inr sel"
    and "run_nodes ops root_path input_digest res sel w = Inr (nodes, artifacts, w')"
    and "i < length (ts_nodes sel)"
  shows "nd_id (nodes ! i) = tn_id (ts_nodes sel ! i) \<and> nd_status (nodes ! i) \<in> {Passed, Failed, Blocked}
     \<and> (nd_status (nodes ! i) = Blocked \<longleftrightarrow> (\<exists>j < length nodes.
          nd_id (nodes ! j) \<in> set (tn_dependencies (ts_nodes sel ! i)) \<and> nd_status (nodes ! j) \<noteq> Passed))"
  using tests_run_after_their_dependencies_facts [OF assms] by (intro conjI) (simp_all only:)

section \<open>The outcome and the hardware guard\<close>

lemma run_verification_Inr:
  assumes "run_verification ops iteration input_digest root_path catalog lane changed run_id w = Inr (out, w')"
  shows "\<exists>sel res start_ns w1 nodes artifacts w2. select_tests iteration catalog lane (map_option snd changed) = Inr sel
     \<and> unsafe_nodes sel = [] \<and> run_nodes ops root_path input_digest res sel w1 = Inr (nodes, artifacts, w2)
     \<and> finish ops res start_ns (nodes, artifacts, w2) = Inr (out, w')"
proof -
  obtain sel where sel: "select_tests iteration catalog lane (map_option snd changed) = Inr sel"
    using assms by (auto simp: run_verification_def split: sum.splits)
  obtain started w1 where 1: "op_timestamp ops w = (started, w1)" by fastforce
  obtain start_ns w2 where 2: "op_monotonic_ns ops w1 = (start_ns, w2)" by fastforce
  have "unsafe_nodes sel = []" using assms by (auto simp: run_verification_def sel split: if_splits)
  moreover from this obtain res nodes artifacts w3 where
    "run_nodes ops root_path input_digest res sel w2 = Inr (nodes, artifacts, w3)"
    "finish ops res start_ns (nodes, artifacts, w3) = Inr (out, w')"
    using assms by (auto simp: run_verification_def sel 1 2 Let_def rbind_Inr_iff)
  ultimately show ?thesis using sel by blast
qed

lemma finish_Inr:
  assumes "finish ops res start_ns (nodes, artifacts, w) = Inr (out, w')"
  shows "vo_failed_nodes out = failed_ids nodes" and "vo_status out = (if failed_ids nodes = [] then Passed else Failed)"
    and "vo_passed_titles out = map nd_title (filter (\<lambda>n. nd_status n = Passed) nodes)"
  using assms by (auto simp: finish_def Let_def rbind_Inr_iff split: prod.splits)

text \<open>
  C29. A run that returns has run no hardware test, and its outcome is what the tests gave: it passes exactly when
  every selected test passed, and otherwise names exactly the tests that did not.
\<close>

theorem outcome_is_what_the_tests_gave:
  assumes "run_verification ops iteration input_digest root_path catalog lane changed run_id w = Inr (out, w')"
  shows "\<exists>sel res w1 nodes artifacts w2. select_tests iteration catalog lane (map_option snd changed) = Inr sel
     \<and> run_nodes ops root_path input_digest res sel w1 = Inr (nodes, artifacts, w2)
     \<and> (\<forall>n \<in> set (ts_nodes sel). tn_hardware_requirement n = ''none'' \<and> \<not> tn_writes_hardware n)
     \<and> (vo_status out = Passed \<longleftrightarrow> (\<forall>n \<in> set nodes. nd_status n = Passed))
     \<and> vo_failed_nodes out = map nd_id (filter (\<lambda>n. nd_status n \<noteq> Passed) nodes)"
proof -
  obtain sel res start_ns w1 nodes artifacts w2 where
    sel: "select_tests iteration catalog lane (map_option snd changed) = Inr sel" "unsafe_nodes sel = []"
    and run: "run_nodes ops root_path input_digest res sel w1 = Inr (nodes, artifacts, w2)"
    and out: "finish ops res start_ns (nodes, artifacts, w2) = Inr (out, w')"
    using run_verification_Inr [OF assms] by blast
  note inv = run_nodes_settled [OF sel(1) run, unfolded settled_def]
  have len: "length nodes = length (ts_nodes sel)" using inv by (metis length_map)
  have ended: "nd_status n \<in> {Passed, Failed, Blocked}" if "n \<in> set nodes" for n
    using inv that len by (metis in_set_conv_nth)
  have failed: "failed_ids nodes = map nd_id (filter (\<lambda>n. nd_status n \<noteq> Passed) nodes)"
    unfolding failed_ids_def by (rule arg_cong [where f = "map nd_id"], rule filter_cong [OF refl]) (use ended in auto)
  have "\<forall>n \<in> set (ts_nodes sel). tn_hardware_requirement n = ''none'' \<and> \<not> tn_writes_hardware n"
    using sel(2) by (simp add: unsafe_nodes_def filter_empty_conv)
  moreover have "vo_status out = Passed \<longleftrightarrow> (\<forall>n \<in> set nodes. nd_status n = Passed)"
    using finish_Inr(2) [OF out] by (simp add: failed filter_empty_conv)
  moreover have "vo_failed_nodes out = map nd_id (filter (\<lambda>n. nd_status n \<noteq> Passed) nodes)"
    using finish_Inr(1) [OF out] failed by simp
  ultimately show ?thesis using sel(1) run by (intro exI conjI)
qed

text \<open>
  C28. No hardware test is ever run: whatever the runners do with tests that require or write hardware, a run
  gives the same result, refusals and records included.
\<close>

theorem hardware_tests_never_run:
  assumes "\<And>name. runners name = None \<longleftrightarrow> op_runner ops name = None"
    and "\<And>name f g n w. \<lbrakk>runners name = Some f; op_runner ops name = Some g; tn_hardware_requirement n = ''none'';
      \<not> tn_writes_hardware n\<rbrakk> \<Longrightarrow> f n w = g n w"
  shows "run_verification (ops\<lparr>op_runner := runners\<rparr>) iteration input_digest root_path catalog lane changed run_id w
     = run_verification ops iteration input_digest root_path catalog lane changed run_id w"
proof -
  let ?ops = "ops\<lparr>op_runner := runners\<rparr>"
  have same_keep: "keep ?ops = keep ops" by (simp add: keep_def fun_eq_iff)
  have same_execute: "execute ?ops root_path res st k n f = execute ops root_path res st k n g"
    if "f n = g n" for f g res st k n
  proof -
    have "attempt ?ops f n = attempt ops g n" by (rule ext) (simp add: attempt_def that split: prod.splits option.splits)
    then show ?thesis by (simp add: execute_def same_keep)
  qed
  have same_node: "run_node ?ops root_path res st (k, n) = run_node ops root_path res st (k, n)"
    if "tn_hardware_requirement n = ''none''" "\<not> tn_writes_hardware n" for res st k n
  proof (cases "op_runner ops (tn_runner n)")
    case None
    then have "runners (tn_runner n) = None" using assms(1) by simp
    with None show ?thesis by (cases st) (simp add: run_node_def same_keep Let_def)
  next
    case (Some g)
    then obtain f where f: "runners (tn_runner n) = Some f" using assms(1) by fastforce
    have "f n = g n" by (rule ext) (rule assms(2) [OF f Some that])
    then show ?thesis using Some f same_execute by (cases st) (simp add: run_node_def same_keep Let_def)
  qed
  have "run_nodes ?ops root_path input_digest res sel w1 = run_nodes ops root_path input_digest res sel w1"
    if "unsafe_nodes sel = []" for res sel w1
  proof -
    have "foldM (run_node ?ops root_path res) st (enumerate 0 (ts_nodes sel))
        = foldM (run_node ops root_path res) st (enumerate 0 (ts_nodes sel))" for st
    proof (rule foldM_cong)
      fix st entry
      assume "entry \<in> set (enumerate 0 (ts_nodes sel))"
      then have "snd entry \<in> set (ts_nodes sel)" 
        using set_zip_rightD [of "fst entry" "snd entry" "[0..<length (ts_nodes sel)]" "ts_nodes sel"]
        by (simp add: enumerate_eq_zip)
      then have "tn_hardware_requirement (snd entry) = ''none''" "\<not> tn_writes_hardware (snd entry)"
        using that by (simp_all add: unsafe_nodes_def filter_empty_conv)
      from same_node [OF this, of res st "fst entry"]
      show "run_node ?ops root_path res st entry = run_node ops root_path res st entry" by simp
    qed
    then show ?thesis by (simp add: run_nodes_def same_keep)
  qed
  moreover have "finish ?ops = finish ops" by (simp add: finish_def fun_eq_iff)
  ultimately show ?thesis
    by (auto simp: run_verification_def split: sum.splits prod.splits)
qed

section \<open>A small run\<close>

text \<open>A world that counts, runners of which \<open>python-unit\<close> fails on the test \<open>schema\<close>, no artifacts.\<close>

definition ex_ops :: "nat run_ops" where
  "ex_ops = \<lparr>op_timestamp = \<lambda>w. (''t'', Suc w), op_monotonic_ns = \<lambda>w. (int w * 1000000, Suc w),
     op_runner = \<lambda>name. if name = ''python-unit''
       then Some (\<lambda>n w. (if tn_id n = ''schema'' then Some \<lparr>ex_class = ''ModelError'', ex_text = ''bad /home/u/x file''\<rparr> else None, w))
       else None,
     op_artifacts = \<lambda>n w. (Inr [], w), op_persist = \<lambda>r a w. (Inr (), w)\<rparr>"

definition ex_run_result :: "test_selection \<Rightarrow> run_result" where
  "ex_run_result sel = \<lparr>rr_run_id = ''run'', rr_lane = ''full-software'', rr_selection = sel, rr_base_revision = None,
     rr_started_at = ''t'', rr_finished_at = None, rr_status = Running, rr_duration_ms = None, rr_nodes = []\<rparr>"

definition ex_run :: "run_exn + nat progress" where
  "ex_run = (case select_tests id ex_catalog ''full-software'' None of
     Inl e \<Rightarrow> Inl (RunRefused e)
   | Inr sel \<Rightarrow> run_nodes ex_ops ''/repo'' (\<lambda>_. Inr ''ab'') (ex_run_result sel) sel 0)"

lemma ex_run_value:
  "map_sum id (\<lambda>(nodes, artifacts, w). map (\<lambda>n. (nd_id n, nd_status n, nd_error n)) nodes) ex_run
     = Inr [(''schema'', Failed, Some ''bad [private-path] file''), (''unit'', Blocked, Some ''dependency did not pass: schema'')]"
  by code_simp

lemma ex_outcome_value:
  "map_sum id (\<lambda>(out, w). (vo_status out, vo_failed_nodes out))
     (run_verification ex_ops id (\<lambda>_. Inr ''ab'') ''/repo'' ex_catalog ''full-software'' None ''run'' 0)
     = Inr (Failed, [''schema'', ''unit''])"
  by code_simp

theorem tests_run_after_their_dependencies_witness:
  "\<exists>nodes. (\<exists>artifacts w. ex_run = Inr (nodes, artifacts, w))
     \<and> (nd_status (nodes ! 1) = Blocked \<longleftrightarrow> (\<exists>j < length nodes. nd_id (nodes ! j) \<in> {''schema''} \<and> nd_status (nodes ! j) \<noteq> Passed))"
proof -
  obtain sel where sel: "select_tests id ex_catalog ''full-software'' None = Inr sel"
      and ids: "map (\<lambda>n. (tn_id n, tn_dependencies n)) (ts_nodes sel) = [(''schema'', []), (''unit'', [''schema''])]"
  proof -
    have "map_sum id (\<lambda>sel. map (\<lambda>n. (tn_id n, tn_dependencies n)) (ts_nodes sel)) (select_tests id ex_catalog ''full-software'' None)
        = Inr [(''schema'', []), (''unit'', [''schema''])]" by code_simp
    from map_sum_InrD [OF this] show ?thesis by (elim exE conjE) (rule that)
  qed
  have "is_ok ex_run" by code_simp
  then obtain nodes artifacts w where run: "ex_run = Inr (nodes, artifacts, w)" unfolding is_ok_iff by auto
  have len: "length (ts_nodes sel) = 2" using arg_cong [OF ids, of length] by simp
  have dep: "tn_dependencies (ts_nodes sel ! 1) = [''schema'']"
    using arg_cong [OF ids, of "\<lambda>xs. snd (xs ! 1)"] len by simp
  have "run_nodes ex_ops ''/repo'' (\<lambda>_. Inr ''ab'') (ex_run_result sel) sel 0 = Inr (nodes, artifacts, w)"
    using run by (simp only: ex_run_def sel sum.case)
  from tests_run_after_their_dependencies [OF sel this, of 1] len dep run show ?thesis by auto
qed

theorem outcome_is_what_the_tests_gave_witness:
  "\<exists>out w. run_verification ex_ops id (\<lambda>_. Inr ''ab'') ''/repo'' ex_catalog ''full-software'' None ''run'' 0 = Inr (out, w)
     \<and> vo_failed_nodes out = [''schema'', ''unit'']
     \<and> (\<exists>sel. select_tests id ex_catalog ''full-software'' None = Inr sel
          \<and> (\<forall>n \<in> set (ts_nodes sel). tn_hardware_requirement n = ''none'' \<and> \<not> tn_writes_hardware n))"
proof -
  obtain p where p: "run_verification ex_ops id (\<lambda>_. Inr ''ab'') ''/repo'' ex_catalog ''full-software'' None ''run'' 0 = Inr p"
      "(case p of (out, w) \<Rightarrow> (vo_status out, vo_failed_nodes out)) = (Failed, [''schema'', ''unit''])"
    using map_sum_InrD [OF ex_outcome_value] by (elim exE conjE)
  obtain out w where out: "p = (out, w)" by (cases p)
  have failed: "vo_failed_nodes out = [''schema'', ''unit'']" using arg_cong [OF p(2), of snd] by (simp only: out prod.case snd_conv)
  show ?thesis
    using outcome_is_what_the_tests_gave [OF p(1) [unfolded out]] p(1) [unfolded out] failed unfolding option.map
    by metis
qed

theorem hardware_tests_never_run_witness:
  "run_verification (ex_ops\<lparr>op_runner := \<lambda>name. map_option (\<lambda>g n w. if tn_writes_hardware n then (None, 0) else g n w)
       (op_runner ex_ops name)\<rparr>) id (\<lambda>_. Inr ''ab'') ''/repo'' ex_catalog ''full-software'' None ''run'' 0
   = run_verification ex_ops id (\<lambda>_. Inr ''ab'') ''/repo'' ex_catalog ''full-software'' None ''run'' 0"
  by (rule hardware_tests_never_run) auto

text \<open>
  What the plan of a lane leaves out: a test of the lane whose dependency is in another lane is selected without
  it, so the run does not wait for that dependency, which the generated documentation says it does.
\<close>

lemma lane_leaves_out_dependencies:
  "map_sum id (\<lambda>sel. map (\<lambda>n. (tn_id n, tn_dependencies n)) (ts_nodes sel)) (select_tests id ex_catalog ''fast'' None)
     = Inr [(''docs'', []), (''unit'', [''schema''])]"
  by code_simp

end
