(* ===== verification/Protocol_Catalog.thy ===== *)
theory Protocol_Catalog
  imports Prelude
begin

text \<open>
  The protocol catalogs, \<open>src/tools/hfxdev/protocol.py\<close>: the loader of one catalog with its records, unions
  and methods, and the loader of the registry of frozen, current and retired versions.

  \<open>files\<close> gives the decoded document of a file, \<open>digests\<close> the digest of a regular file, and \<open>render\<close> is \<open>str\<close>
  of a decoded value that is no string, used in error messages only.
\<close>

section \<open>Catalog data\<close>

definition PROTOCOL_CATALOG_KEYS :: "string list" where
  "PROTOCOL_CATALOG_KEYS = [''$schema'', ''schema'', ''minimum_version'', ''maximum_version'', ''limits'', ''features'', ''records'', ''unions'', ''methods'']"

definition REGISTRY_KEYS :: "string list" where
  "REGISTRY_KEYS = [''$schema'', ''schema'', ''current_version'', ''versions'']"

definition VERSION_KEYS :: "string list" where
  "VERSION_KEYS = [''version'', ''catalog'', ''sha256'', ''served_features'']"

definition RETIRED_KEYS :: "string list" where
  "RETIRED_KEYS = [''version'', ''retired_in'', ''sha256'']"

definition RECORD_KEYS :: "string list" where
  "RECORD_KEYS = [''name'', ''description'', ''fields'']"

definition FIELD_KEYS :: "string list" where
  "FIELD_KEYS = [''name'', ''type'', ''required'', ''many'', ''max_items'', ''description'']"

definition METHOD_KEYS :: "string list" where
  "METHOD_KEYS = [''name'', ''request'', ''response'', ''required_feature'', ''description'']"

definition UNION_KEYS :: "string list" where
  "UNION_KEYS = [''name'', ''description'', ''tag'', ''content'', ''variants'']"

definition VARIANT_KEYS :: "string list" where
  "VARIANT_KEYS = [''name'', ''wire'', ''type'', ''description'']"

definition BUILTIN_TYPES :: "string list" where
  "BUILTIN_TYPES = [''Boolean'']"

definition RESERVED_FIELD_NAMES :: "string list" where
  "RESERVED_FIELD_NAMES = [''alignas'', ''alignof'', ''and'', ''as'', ''async'', ''await'', ''break'', ''case'', ''catch'',
     ''class'', ''const'', ''continue'', ''crate'', ''def'', ''default'', ''delete'', ''do'', ''else'',
     ''enum'', ''except'', ''extern'', ''false'', ''fn'', ''for'', ''from'', ''if'', ''impl'', ''import'',
     ''in'', ''let'', ''loop'', ''match'', ''mod'', ''move'', ''namespace'', ''new'', ''not'', ''operator'',
     ''or'', ''pass'', ''private'', ''protected'', ''public'', ''raise'', ''ref'', ''return'', ''self'',
     ''sizeof'', ''static'', ''struct'', ''super'', ''switch'', ''template'', ''this'', ''throw'', ''trait'',
     ''true'', ''try'', ''type'', ''typename'', ''union'', ''unsafe'', ''use'', ''virtual'', ''where'',
     ''while'', ''with'', ''yield'']"

definition is_type_name :: "string \<Rightarrow> bool" where
  "is_type_name s \<longleftrightarrow> length s \<ge> 2 \<and> word_of is_upper (\<lambda>c. is_upper c \<or> is_lower c \<or> is_digit c) s"

definition is_field_name :: "string \<Rightarrow> bool" where
  "is_field_name s \<longleftrightarrow> word_of is_lower (\<lambda>c. is_lower c \<or> is_digit c \<or> c = CHR ''_'') s"

definition is_protocol_identifier :: "string \<Rightarrow> bool" where
  "is_protocol_identifier s \<longleftrightarrow> word_of is_lower (\<lambda>c. is_lower c \<or> is_digit c \<or> c \<in> set ''.-'') s"

definition is_release_number :: "string \<Rightarrow> bool" where
  "is_release_number s \<longleftrightarrow> s = ''0'' \<or> word_of (\<lambda>c. is_digit c \<and> c \<noteq> CHR ''0'') is_digit s"

definition is_release_version :: "string \<Rightarrow> bool" where
  "is_release_version s \<longleftrightarrow> length (split_on (CHR ''.'') s) = 3 \<and> list_all is_release_number (split_on (CHR ''.'') s)"

definition is_sha256 :: "string \<Rightarrow> bool" where
  "is_sha256 s \<longleftrightarrow> length s = 64 \<and> list_all (\<lambda>c. c \<in> set ''0123456789abcdef'') s"

record field_spec =
  fs_name :: string
  fs_type_name :: string
  fs_required :: bool
  fs_many :: bool
  fs_max_items :: "int option"
  fs_description :: string

record record_spec =
  rs_name :: string
  rs_description :: string
  rs_fields :: "field_spec list"

record variant_spec =
  vs_name :: string
  vs_wire :: string
  vs_type_name :: string
  vs_description :: string

record union_spec =
  un_name :: string
  un_description :: string
  un_tag :: string
  un_content :: string
  un_variants :: "variant_spec list"

record method_spec =
  ms_name :: string
  ms_request :: string
  ms_response :: string
  ms_required_feature :: "string option"
  ms_description :: string

record protocol_catalog =
  pc_minimum_version :: int
  pc_maximum_version :: int
  pc_max_message_bytes :: int
  pc_max_json_depth :: json
  pc_features :: "string list"
  pc_records :: "record_spec list"
  pc_unions :: "union_spec list"
  pc_methods :: "method_spec list"

record protocol_version =
  pv_version :: int
  pv_catalog_path :: string
  pv_source_sha256 :: string
  pv_served_features :: "string list"
  pv_catalog :: protocol_catalog

record retired_protocol_version =
  rv_version :: int
  rv_retired_in :: string
  rv_source_sha256 :: string

record protocol_registry =
  pr_current_version :: int
  pr_versions :: "protocol_version list"
  pr_retired :: "retired_protocol_version list"

definition registry_current :: "protocol_registry \<Rightarrow> protocol_catalog option" where
  "registry_current r = map_option pv_catalog (find (\<lambda>v. pv_version v = pr_current_version r) (pr_versions r))"

section \<open>Records, unions and methods\<close>

definition description_of :: "json \<Rightarrow> string \<Rightarrow> model_error + string" where
  "description_of v label = (case v of
     JStr s \<Rightarrow> if py_strip s = [] \<or> length s > 240
       then Inl (ModelError (label @ '': description must contain 1 through 240 characters'')) else Inr (py_strip s)
   | _ \<Rightarrow> Inl (ModelError (label @ '': description must contain 1 through 240 characters'')))"

definition named :: "json \<Rightarrow> (string \<Rightarrow> bool) \<Rightarrow> string \<Rightarrow> model_error + string" where
  "named v pattern label = (case v of
     JStr s \<Rightarrow> if pattern s then Inr s else Inl (ModelError (label @ '': invalid name''))
   | _ \<Rightarrow> Inl (ModelError (label @ '': invalid name'')))"

definition domain_names :: "(string \<Rightarrow> json option) \<Rightarrow> model_error + string list" where
  "domain_names files =
     rbind (load_json files ''schemas/domain-catalog.json'') (\<lambda>kvs.
     rbind (mapM (\<lambda>category.
         rbind (item kvs category) (\<lambda>entries.
         rbind (py_iterate entries) (mapM (\<lambda>entry.
           rbind (subscript entry ''name'') (\<lambda>name.
           case name of JArr _ \<Rightarrow> Inl TypeError | JObj _ \<Rightarrow> Inl TypeError | _ \<Rightarrow> Inr name)))))
       [''numeric_types'', ''string_types'', ''enums'']) (\<lambda>names.
     Inr (concat (map (\<lambda>v. case v of JStr s \<Rightarrow> [s] | _ \<Rightarrow> []) (concat names)))))"

text \<open>The bound of a field: a repeated field is required and has one, a scalar field has none.\<close>

definition field_bound :: "string \<Rightarrow> bool \<Rightarrow> bool \<Rightarrow> json \<Rightarrow> model_error + int option" where
  "field_bound label required many max_items =
     (if many then
        (if \<not> required then Inl (ModelError (label @ '': repeated fields are present arrays, not optional arrays''))
         else case max_items of
           JInt n \<Rightarrow> if 1 \<le> n \<and> n \<le> 4096 then Inr (Some n)
             else Inl (ModelError (label @ '': repeated field requires max_items from 1 through 4096''))
         | _ \<Rightarrow> Inl (ModelError (label @ '': repeated field requires max_items from 1 through 4096'')))
      else if max_items \<noteq> JNull then Inl (ModelError (label @ '': scalar field must use null max_items''))
      else Inr None)"

definition field_flags :: "string \<Rightarrow> json \<Rightarrow> json \<Rightarrow> model_error + bool \<times> bool" where
  "field_flags label required many = (case required of
     JBool r \<Rightarrow> (case many of JBool m \<Rightarrow> Inr (r, m) | _ \<Rightarrow> Inl (ModelError (label @ '': required and many must be boolean'')))
   | _ \<Rightarrow> Inl (ModelError (label @ '': required and many must be boolean'')))"

definition protocol_field :: "string list \<Rightarrow> string \<Rightarrow> json \<Rightarrow> model_error + field_spec" where
  "protocol_field known_types label v =
     rbind (object_or v (label @ '': field must be an object'')) (\<lambda>kvs.
     rbind (require_exact_keys kvs FIELD_KEYS label) (\<lambda>_.
     rbind (rbind (item kvs ''name'') (\<lambda>x. named x is_field_name (label @ '' name''))) (\<lambda>name.
     if name \<in> set RESERVED_FIELD_NAMES
     then Inl (ModelError (label @ '': field name is reserved in a generated language''))
     else rbind (rbind (item kvs ''type'') (\<lambda>x. named x is_type_name (label @ '' type''))) (\<lambda>type_name.
     if type_name \<notin> set known_types
     then Inl (ModelError (label @ '': unknown or forward type reference '' @ type_name))
     else rbind (item kvs ''required'') (\<lambda>raw_required.
     rbind (item kvs ''many'') (\<lambda>raw_many.
     rbind (field_flags label raw_required raw_many) (\<lambda>(required, many).
     rbind (rbind (item kvs ''max_items'') (field_bound label required many)) (\<lambda>bound.
     rbind (rbind (item kvs ''description'') (\<lambda>x. description_of x label)) (\<lambda>description.
     Inr \<lparr>fs_name = name, fs_type_name = type_name, fs_required = required, fs_many = many, fs_max_items = bound,
          fs_description = description\<rparr>)))))))))"

text \<open>\<open>isinstance(value, list)\<close>.\<close>

definition list_or :: "json \<Rightarrow> string \<Rightarrow> model_error + json list" where
  "list_or v message = (case v of JArr xs \<Rightarrow> Inr xs | _ \<Rightarrow> Inl (ModelError message))"

definition record_body :: "string list \<Rightarrow> string \<Rightarrow> (string \<times> json) list \<Rightarrow> model_error + record_spec" where
  "record_body known_types label kvs =
     rbind (require_exact_keys kvs RECORD_KEYS label) (\<lambda>_.
     rbind (rbind (item kvs ''name'') (\<lambda>x. named x is_type_name (label @ '' name''))) (\<lambda>name.
     rbind (rbind (item kvs ''fields'') (\<lambda>x. list_or x (label @ '': fields must be an array''))) (\<lambda>raws.
     rbind (mapM_index (\<lambda>i. protocol_field known_types (label @ '' field '' @ str_nat i)) raws) (\<lambda>members.
     rbind (require_unique (map fs_name members) (name @ '' field name'')) (\<lambda>_.
     rbind (rbind (item kvs ''description'') (\<lambda>x. description_of x label)) (\<lambda>description.
     Inr \<lparr>rs_name = name, rs_description = description, rs_fields = members\<rparr>))))))"

definition protocol_record :: "(json \<Rightarrow> string) \<Rightarrow> string list \<Rightarrow> nat \<Rightarrow> json \<Rightarrow> model_error + record_spec" where
  "protocol_record render known_types index v =
     rbind (object_or v (''protocol record '' @ str_nat index @ '': must be an object'')) (\<lambda>kvs.
     record_body known_types (''protocol record '' @ label_value render kvs ''name'' index) kvs)"

definition protocol_variant :: "string list \<Rightarrow> string \<Rightarrow> json \<Rightarrow> model_error + variant_spec" where
  "protocol_variant record_names label v =
     rbind (object_or v (label @ '': must be an object'')) (\<lambda>kvs.
     rbind (require_exact_keys kvs VARIANT_KEYS label) (\<lambda>_.
     rbind (rbind (item kvs ''type'') (\<lambda>x. named x is_type_name (label @ '' type''))) (\<lambda>type_name.
     if type_name \<notin> set record_names
     then Inl (ModelError (label @ '': variant type must name a protocol record''))
     else rbind (rbind (item kvs ''name'') (\<lambda>x. named x is_type_name (label @ '' name''))) (\<lambda>name.
     rbind (rbind (item kvs ''wire'') (\<lambda>x. named x is_protocol_identifier (label @ '' wire''))) (\<lambda>wire.
     rbind (rbind (item kvs ''description'') (\<lambda>x. description_of x label)) (\<lambda>description.
     Inr \<lparr>vs_name = name, vs_wire = wire, vs_type_name = type_name, vs_description = description\<rparr>))))))"

definition union_body :: "string list \<Rightarrow> string \<Rightarrow> (string \<times> json) list \<Rightarrow> model_error + union_spec" where
  "union_body record_names label kvs =
     rbind (require_exact_keys kvs UNION_KEYS label) (\<lambda>_.
     rbind (rbind (item kvs ''name'') (\<lambda>x. named x is_type_name (label @ '' name''))) (\<lambda>name.
     rbind (rbind (item kvs ''tag'') (\<lambda>x. named x is_field_name (label @ '' tag''))) (\<lambda>tag.
     rbind (rbind (item kvs ''content'') (\<lambda>x. named x is_field_name (label @ '' content''))) (\<lambda>content.
     if tag = content then Inl (ModelError (label @ '': tag and content fields must differ''))
     else rbind (rbind (item kvs ''variants'') (\<lambda>x. nonempty_list_or x (label @ '': variants must be a non-empty array''))) (\<lambda>raws.
     rbind (mapM_index (\<lambda>i. protocol_variant record_names (label @ '' variant '' @ str_nat i)) raws) (\<lambda>variants.
     rbind (require_unique (map vs_name variants) (name @ '' variant name'')) (\<lambda>_.
     rbind (require_unique (map vs_wire variants) (name @ '' variant wire'')) (\<lambda>_.
     rbind (rbind (item kvs ''description'') (\<lambda>x. description_of x label)) (\<lambda>description.
     Inr \<lparr>un_name = name, un_description = description, un_tag = tag, un_content = content,
          un_variants = variants\<rparr>)))))))))"

definition protocol_union :: "(json \<Rightarrow> string) \<Rightarrow> string list \<Rightarrow> nat \<Rightarrow> json \<Rightarrow> model_error + union_spec" where
  "protocol_union render record_names index v =
     rbind (object_or v (''protocol union '' @ str_nat index @ '': must be an object'')) (\<lambda>kvs.
     union_body record_names (''protocol union '' @ label_value render kvs ''name'' index) kvs)"

definition method_feature :: "string list \<Rightarrow> string \<Rightarrow> json \<Rightarrow> model_error + string option" where
  "method_feature features label v =
     (if v = JNull then Inr None
      else rbind (named v is_protocol_identifier (label @ '' required_feature'')) (\<lambda>feature.
        if feature \<notin> set features then Inl (ModelError (label @ '': required feature is not declared''))
        else Inr (Some feature)))"

definition method_body :: "string list \<Rightarrow> string list \<Rightarrow> string \<Rightarrow> (string \<times> json) list \<Rightarrow> model_error + method_spec" where
  "method_body types features label kvs =
     rbind (require_exact_keys kvs METHOD_KEYS label) (\<lambda>_.
     rbind (rbind (item kvs ''name'') (\<lambda>x. named x is_protocol_identifier (label @ '' name''))) (\<lambda>name.
     rbind (rbind (item kvs ''request'') (\<lambda>x. named x is_type_name (label @ '' request''))) (\<lambda>request.
     rbind (rbind (item kvs ''response'') (\<lambda>x. named x is_type_name (label @ '' response''))) (\<lambda>response.
     if request \<notin> set types \<or> response \<notin> set types
     then Inl (ModelError (label @ '': request and response must name protocol records''))
     else rbind (rbind (item kvs ''required_feature'') (method_feature features label)) (\<lambda>feature.
     rbind (rbind (item kvs ''description'') (\<lambda>x. description_of x label)) (\<lambda>description.
     Inr \<lparr>ms_name = name, ms_request = request, ms_response = response, ms_required_feature = feature,
          ms_description = description\<rparr>))))))"

definition protocol_method ::
  "(json \<Rightarrow> string) \<Rightarrow> string list \<Rightarrow> string list \<Rightarrow> nat \<Rightarrow> json \<Rightarrow> model_error + method_spec" where
  "protocol_method render types features index v =
     rbind (object_or v (''protocol method '' @ str_nat index @ '': must be an object'')) (\<lambda>kvs.
     method_body types features (''protocol method '' @ label_value render kvs ''name'' index) kvs)"

section \<open>One catalog\<close>

text \<open>The type names that the objects of an array declare; duplicates and other values make the lengths differ.\<close>

definition declared_names :: "string \<Rightarrow> json list \<Rightarrow> model_error + string list" where
  "declared_names kind raws =
     rbind (mapM (\<lambda>(i, kvs). named (get_item kvs ''name'') is_type_name (''protocol '' @ kind @ '' '' @ str_nat i @ '' name''))
       (concat (map (\<lambda>(i, v). case v of JObj kvs \<Rightarrow> [(i, kvs)] | _ \<Rightarrow> []) (enumerate 0 raws)))) (\<lambda>names.
     if length (remdups names) \<noteq> length raws
     then Inl (ModelError (''protocol '' @ kind @ '' declarations are invalid or duplicated''))
     else Inr names)"

definition version_range :: "json \<Rightarrow> json \<Rightarrow> model_error + int \<times> int" where
  "version_range minimum maximum = (case (minimum, maximum) of
     (JInt lo, JInt hi) \<Rightarrow> if 1 \<le> lo \<and> lo \<le> hi \<and> hi \<le> 65535 then Inr (lo, hi)
       else Inl (ModelError ''protocol version range is invalid'')
   | _ \<Rightarrow> Inl (ModelError ''protocol version range is invalid''))"

definition protocol_limits :: "json \<Rightarrow> model_error + int \<times> json" where
  "protocol_limits v =
     rbind (object_or v ''protocol limits must be an object'') (\<lambda>kvs.
     rbind (require_exact_keys kvs [''max_message_bytes'', ''max_json_depth''] ''protocol limits'') (\<lambda>_.
     rbind (item kvs ''max_message_bytes'') (\<lambda>message_bytes.
     rbind (item kvs ''max_json_depth'') (\<lambda>depth.
     case message_bytes of
       JInt n \<Rightarrow> if \<not> (4096 \<le> n \<and> n \<le> 16777216) then Inl (ModelError ''protocol message byte bound is invalid'')
         else if \<not> json_eq_int depth 128
         then Inl (ModelError ''protocol JSON depth must match serde_json's bounded default of 128'')
         else Inr (n, depth)
     | _ \<Rightarrow> Inl (ModelError ''protocol message byte bound is invalid'')))))"

text \<open>The checks between the declared names, and the types a field may have.\<close>

definition check_names :: "string list \<Rightarrow> string list \<Rightarrow> string list \<Rightarrow> model_error + string list" where
  "check_names base_types record_names union_names =
     (if set record_names \<inter> set base_types \<noteq> {}
      then Inl (ModelError ''protocol record names collide with domain or built-in types'')
      else if set union_names \<inter> set base_types \<noteq> {}
      then Inl (ModelError ''protocol union names collide with domain or built-in types'')
      else if set record_names \<inter> set union_names \<noteq> {}
      then Inl (ModelError ''protocol record and union names must be disjoint'')
      else Inr (base_types @ record_names @ union_names))"

definition load_records ::
  "(json \<Rightarrow> string) \<Rightarrow> string list \<Rightarrow> json list \<Rightarrow> model_error + record_spec list" where
  "load_records render known_types raws =
     rbind (mapM_index (protocol_record render known_types) raws) (\<lambda>rs.
     rbind (require_unique (map rs_name rs) ''protocol record name'') (\<lambda>_. Inr rs))"

definition load_unions ::
  "(json \<Rightarrow> string) \<Rightarrow> string list \<Rightarrow> json list \<Rightarrow> model_error + union_spec list" where
  "load_unions render record_names raws =
     rbind (mapM_index (protocol_union render record_names) raws) (\<lambda>us.
     rbind (require_unique (map un_name us) ''protocol union name'') (\<lambda>_. Inr us))"

definition load_methods ::
  "(json \<Rightarrow> string) \<Rightarrow> string list \<Rightarrow> string list \<Rightarrow> json list \<Rightarrow> model_error + method_spec list" where
  "load_methods render types features raws =
     rbind (mapM_index (protocol_method render types features) raws) (\<lambda>ms.
     rbind (require_unique (map ms_name ms) ''protocol method name'') (\<lambda>_. Inr ms))"

definition load_protocol_file ::
  "(string \<Rightarrow> json option) \<Rightarrow> (json \<Rightarrow> string) \<Rightarrow> string \<Rightarrow> model_error + protocol_catalog" where
  "load_protocol_file files render path =
     rbind (load_json files path) (\<lambda>kvs.
     rbind (require_exact_keys kvs PROTOCOL_CATALOG_KEYS ''protocol catalog'') (\<lambda>_.
     rbind (item kvs ''schema'') (\<lambda>schema.
     if schema \<noteq> JStr ''hyperflux-protocol-catalog-v1'' then Inl (ModelError ''unsupported protocol catalog schema'')
     else
     rbind (item kvs ''minimum_version'') (\<lambda>minimum.
     rbind (item kvs ''maximum_version'') (\<lambda>maximum.
     rbind (version_range minimum maximum) (\<lambda>(lo, hi).
     rbind (rbind (item kvs ''limits'') protocol_limits) (\<lambda>(message_bytes, depth).
     rbind (rbind (item kvs ''features'') (\<lambda>v. list_or v ''protocol features must be an array'')) (\<lambda>raw_features.
     rbind (mapM (\<lambda>v. named v is_protocol_identifier ''protocol feature'') raw_features) (\<lambda>features.
     rbind (require_unique features ''protocol feature'') (\<lambda>_.
     rbind (rbind (item kvs ''records'') (\<lambda>v. nonempty_list_or v ''protocol catalog must contain records'')) (\<lambda>raw_records.
     rbind (declared_names ''record'' raw_records) (\<lambda>record_names.
     rbind (rbind (item kvs ''unions'') (\<lambda>v. list_or v ''protocol unions must be an array'')) (\<lambda>raw_unions.
     rbind (declared_names ''union'' raw_unions) (\<lambda>union_names.
     rbind (domain_names files) (\<lambda>domain.
     rbind (check_names (domain @ BUILTIN_TYPES) record_names union_names) (\<lambda>known_types.
     rbind (load_records render known_types raw_records) (\<lambda>rs.
     rbind (load_unions render (map rs_name rs) raw_unions) (\<lambda>us.
     rbind (rbind (item kvs ''methods'') (\<lambda>v. nonempty_list_or v ''protocol catalog must contain methods'')) (\<lambda>raw_methods.
     rbind (load_methods render (map rs_name rs @ map un_name us) features raw_methods) (\<lambda>ms.
     Inr \<lparr>pc_minimum_version = lo, pc_maximum_version = hi, pc_max_message_bytes = message_bytes,
          pc_max_json_depth = depth, pc_features = features, pc_records = rs, pc_unions = us,
          pc_methods = ms\<rparr>))))))))))))))))))))"

section \<open>The registry\<close>

definition version_number :: "json \<Rightarrow> string \<Rightarrow> model_error + int" where
  "version_number v label = (case v of
     JInt n \<Rightarrow> if 1 \<le> n \<and> n \<le> 65535 then Inr n else Inl (ModelError label)
   | _ \<Rightarrow> Inl (ModelError label))"

definition source_digest :: "json \<Rightarrow> string \<Rightarrow> model_error + string" where
  "source_digest v label = (case v of
     JStr s \<Rightarrow> if is_sha256 s then Inr s else Inl (ModelError (label @ '': invalid source digest''))
   | _ \<Rightarrow> Inl (ModelError (label @ '': invalid source digest'')))"

definition served_features_of :: "string \<Rightarrow> string list \<Rightarrow> json \<Rightarrow> model_error + string list" where
  "served_features_of label declared v =
     (case v of
        JArr raws \<Rightarrow>
          if length raws > 64 then Inl (ModelError (label @ '': served features must be a bounded array''))
          else rbind (mapM (\<lambda>f. named f is_protocol_identifier (label @ '' served feature'')) raws) (\<lambda>served.
            rbind (require_unique served (label @ '' served feature'')) (\<lambda>_.
            if py_sorted served \<noteq> served then Inl (ModelError (label @ '': served features must be sorted''))
            else if \<not> set served \<subseteq> set declared
            then Inl (ModelError (label @ '': served features are absent from the catalog''))
            else Inr served))
      | _ \<Rightarrow> Inl (ModelError (label @ '': served features must be a bounded array'')))"

definition load_version ::
  "(string \<Rightarrow> json option) \<Rightarrow> (string \<Rightarrow> string option) \<Rightarrow> (json \<Rightarrow> string) \<Rightarrow> nat \<Rightarrow> json \<Rightarrow> model_error + protocol_version" where
  "load_version files digests render index v =
     (let label = ''protocol registry version '' @ str_nat index
      in rbind (object_or v (label @ '': must be an object'')) (\<lambda>kvs.
     rbind (require_exact_keys kvs VERSION_KEYS label) (\<lambda>_.
     rbind (rbind (item kvs ''version'') (\<lambda>x. version_number x (label @ '': invalid version''))) (\<lambda>version.
     let expected_path = ''v'' @ str_int version @ ''/catalog.json''
     in rbind (item kvs ''catalog'') (\<lambda>catalog_name.
     if catalog_name \<noteq> JStr expected_path
     then Inl (ModelError (label @ '': catalog path must be '' @ expected_path))
     else rbind (rbind (item kvs ''sha256'') (\<lambda>x. source_digest x label)) (\<lambda>digest.
     let path = ''protocol/'' @ expected_path
     in if digests path \<noteq> Some digest then Inl (ModelError (label @ '': frozen catalog digest mismatch''))
     else rbind (load_protocol_file files render path) (\<lambda>catalog.
     if pc_minimum_version catalog \<noteq> version \<or> pc_maximum_version catalog \<noteq> version
     then Inl (ModelError (label @ '': catalog must describe exactly version '' @ str_int version))
     else rbind (rbind (item kvs ''served_features'') (served_features_of label (pc_features catalog))) (\<lambda>served.
     Inr \<lparr>pv_version = version, pv_catalog_path = expected_path, pv_source_sha256 = digest,
          pv_served_features = served, pv_catalog = catalog\<rparr>))))))))"

text \<open>
  \<open>require_unique\<close> on a list of integers: its message joins the duplicates, and \<open>str.join\<close> accepts only
  strings.
\<close>

definition require_unique_ints :: "int list \<Rightarrow> model_error + unit" where
  "require_unique_ints values = (if distinct values then Inr () else Inl TypeError)"

definition load_retired :: "nat \<Rightarrow> json \<Rightarrow> model_error + retired_protocol_version" where
  "load_retired index v =
     (let label = ''protocol retired version '' @ str_nat index
      in rbind (object_or v (label @ '': must be an object'')) (\<lambda>kvs.
     rbind (require_exact_keys kvs RETIRED_KEYS label) (\<lambda>_.
     rbind (rbind (item kvs ''version'') (\<lambda>x. version_number x (label @ '': invalid version''))) (\<lambda>version.
     rbind (rbind (item kvs ''retired_in'') (\<lambda>x. case x of
         JStr s \<Rightarrow> if is_release_version s then Inr s else Inl (ModelError (label @ '': retired_in must be a release version''))
       | _ \<Rightarrow> Inl (ModelError (label @ '': retired_in must be a release version'')))) (\<lambda>retired_in.
     rbind (rbind (item kvs ''sha256'') (\<lambda>x. source_digest x label)) (\<lambda>digest.
     Inr \<lparr>rv_version = version, rv_retired_in = retired_in, rv_source_sha256 = digest\<rparr>))))))"

definition load_retired_versions :: "json \<Rightarrow> int list \<Rightarrow> model_error + retired_protocol_version list" where
  "load_retired_versions v active =
     (case v of
        JArr raws \<Rightarrow>
          if length raws > 1024 then Inl (ModelError ''protocol retired versions must be a bounded array'')
          else rbind (mapM_index load_retired raws) (\<lambda>retired.
            let numbers = map rv_version retired; reused = sort (filter (\<lambda>n. n \<in> set active) (remdups numbers))
            in rbind (require_unique (map str_int numbers) ''protocol retired version'') (\<lambda>_.
            if numbers \<noteq> sort numbers then Inl (ModelError ''protocol retired versions must be sorted'')
            else if reused \<noteq> []
            then Inl (ModelError (''protocol retired versions cannot be served again: '' @ join '', '' (map str_int reused)))
            else Inr retired))
      | _ \<Rightarrow> Inl (ModelError ''protocol retired versions must be a bounded array''))"

definition load_protocol_registry ::
  "(string \<Rightarrow> json option) \<Rightarrow> (string \<Rightarrow> string option) \<Rightarrow> (json \<Rightarrow> string) \<Rightarrow> model_error + protocol_registry" where
  "load_protocol_registry files digests render =
     rbind (load_json files ''protocol/registry.json'') (\<lambda>kvs.
     rbind (require_exact_keys kvs (REGISTRY_KEYS @ (if ''retired'' \<in> set (obj_keys kvs) then [''retired''] else []))
       ''protocol registry'') (\<lambda>_.
     rbind (item kvs ''schema'') (\<lambda>schema.
     if schema \<noteq> JStr ''hyperflux-protocol-registry-v1'' then Inl (ModelError ''unsupported protocol registry schema'')
     else
     rbind (rbind (item kvs ''current_version'') (\<lambda>v. version_number v ''protocol current version is invalid'')) (\<lambda>current.
     rbind (rbind (item kvs ''versions'') (\<lambda>v.
       nonempty_list_or v ''protocol registry must contain at least one version'')) (\<lambda>raws.
     rbind (mapM_index (load_version files digests render) raws) (\<lambda>versions.
     let numbers = map pv_version versions
     in rbind (require_unique_ints numbers) (\<lambda>_.
     if numbers \<noteq> sort numbers then Inl (ModelError ''protocol registry versions must be sorted'')
     else if current \<notin> set numbers then Inl (ModelError ''protocol current version is not registered'')
     else rbind (load_retired_versions (case map_of kvs ''retired'' of None \<Rightarrow> JArr [] | Some v \<Rightarrow> v) numbers) (\<lambda>retired.
     Inr \<lparr>pr_current_version = current, pr_versions = versions, pr_retired = retired\<rparr>))))))))"

definition load_protocol_catalog ::
  "(string \<Rightarrow> json option) \<Rightarrow> (string \<Rightarrow> string option) \<Rightarrow> (json \<Rightarrow> string) \<Rightarrow> model_error + protocol_catalog option" where
  "load_protocol_catalog files digests render =
     rbind (load_protocol_registry files digests render) (\<lambda>r. Inr (registry_current r))"

section \<open>What a loaded catalog guarantees\<close>

lemma named_Inr [result_simps]: "named v pattern label = Inr s \<longleftrightarrow> v = JStr s \<and> pattern s"
  by (auto simp: named_def split: json.splits if_splits)

lemma object_or_Inr [result_simps]: "object_or v message = Inr kvs \<longleftrightarrow> v = JObj kvs"
  by (auto simp: object_or_def split: json.splits)

lemma list_or_Inr [result_simps]: "list_or v message = Inr xs \<longleftrightarrow> v = JArr xs"
  by (auto simp: list_or_def split: json.splits)

lemma nonempty_list_or_Inr [result_simps]: "nonempty_list_or v message = Inr xs \<longleftrightarrow> v = JArr xs \<and> xs \<noteq> []"
  by (auto simp: nonempty_list_or_def split: json.splits list.splits)

lemma mapM_index_in_set:
  assumes "mapM_index f xs = Inr ys" and "y \<in> set ys"
  obtains i x where "i < length xs" and "x = xs ! i" and "f i x = Inr y"
  using assms by (auto simp: mapM_index_Inr in_set_conv_nth)

definition field_ok :: "string list \<Rightarrow> field_spec \<Rightarrow> bool" where
  "field_ok known_types f \<longleftrightarrow> fs_type_name f \<in> set known_types \<and> fs_name f \<notin> set RESERVED_FIELD_NAMES
     \<and> (if fs_many f then fs_required f \<and> (\<exists>n. fs_max_items f = Some n \<and> 1 \<le> n \<and> n \<le> 4096)
        else fs_max_items f = None)"

lemma field_bound_Inr:
  "field_bound label required many max_items = Inr bound \<Longrightarrow>
     if many then required \<and> (\<exists>n. bound = Some n \<and> 1 \<le> n \<and> n \<le> 4096) else bound = None"
  by (auto simp: field_bound_def split: if_splits json.splits)

lemma protocol_field_Inr:
  assumes "protocol_field known_types label v = Inr f"
  shows "field_ok known_types f"
proof -
  obtain required many max_items bound where "fs_type_name f \<in> set known_types" "fs_name f \<notin> set RESERVED_FIELD_NAMES"
    and "field_bound label required many max_items = Inr bound" "fs_required f = required" "fs_many f = many" "fs_max_items f = bound"
    using assms by (auto simp: protocol_field_def rbind_Inr_iff split: if_splits json.splits)
  then show ?thesis using field_bound_Inr [of label required many max_items bound] by (simp add: field_ok_def)
qed

lemma record_body_Inr:
  assumes "record_body known_types label kvs = Inr r"
  shows "map_of kvs ''name'' = Some (JStr (rs_name r))"
    and "\<forall>f \<in> set (rs_fields r). field_ok known_types f" and "distinct (map fs_name (rs_fields r))"
proof -
  obtain raws where v: "map_of kvs ''name'' = Some (JStr (rs_name r))"
    and members: "mapM_index (\<lambda>i. protocol_field known_types (label @ '' field '' @ str_nat i)) raws = Inr (rs_fields r)"
    and names: "distinct (map fs_name (rs_fields r))"
    using assms by (auto simp: record_body_def rbind_Inr_iff named_Inr item_Inr require_unique_Inr)
  show "map_of kvs ''name'' = Some (JStr (rs_name r))" by (rule v)
  show "distinct (map fs_name (rs_fields r))" by (rule names)
  show "\<forall>f \<in> set (rs_fields r). field_ok known_types f"
    using mapM_index_in_set [OF members] protocol_field_Inr by metis
qed

lemma protocol_record_Inr:
  assumes "protocol_record render known_types index v = Inr r"
  obtains label kvs where "v = JObj kvs" and "record_body known_types label kvs = Inr r"
  using assms by (auto simp: protocol_record_def rbind_Inr_iff object_or_Inr)

definition union_ok :: "string list \<Rightarrow> union_spec \<Rightarrow> bool" where
  "union_ok record_names u \<longleftrightarrow> un_tag u \<noteq> un_content u \<and> un_variants u \<noteq> []
     \<and> distinct (map vs_name (un_variants u)) \<and> distinct (map vs_wire (un_variants u))
     \<and> (\<forall>x \<in> set (un_variants u). vs_type_name x \<in> set record_names)"

lemma union_body_Inr:
  assumes "union_body record_names label kvs = Inr u"
  shows "map_of kvs ''name'' = Some (JStr (un_name u))" and "union_ok record_names u"
proof -
  obtain raws where v: "map_of kvs ''name'' = Some (JStr (un_name u))"
    and variants: "mapM_index (\<lambda>i. protocol_variant record_names (label @ '' variant '' @ str_nat i)) raws = Inr (un_variants u)"
    and raws: "raws \<noteq> []" "un_tag u \<noteq> un_content u"
      "distinct (map vs_name (un_variants u))" "distinct (map vs_wire (un_variants u))"
    using assms
    by (auto simp: union_body_def rbind_Inr_iff named_Inr item_Inr require_unique_Inr nonempty_list_or_Inr split: if_splits)
  show "map_of kvs ''name'' = Some (JStr (un_name u))" by (rule v)
  have "vs_type_name x \<in> set record_names" if x: "x \<in> set (un_variants u)" for x
  proof -
    obtain i where "protocol_variant record_names (label @ '' variant '' @ str_nat i) (raws ! i) = Inr x"
      using mapM_index_in_set [OF variants x] by metis
    then show ?thesis by (auto simp: protocol_variant_def rbind_Inr_iff split: if_splits)
  qed
  moreover have "un_variants u \<noteq> []" using raws(1) variants by (auto simp: mapM_index_Inr)
  ultimately show "union_ok record_names u" using raws by (auto simp: union_ok_def)
qed

lemma protocol_union_Inr:
  assumes "protocol_union render record_names index v = Inr u"
  obtains label kvs where "v = JObj kvs" and "union_body record_names label kvs = Inr u"
  using assms by (auto simp: protocol_union_def rbind_Inr_iff object_or_Inr)

definition method_ok :: "string list \<Rightarrow> string list \<Rightarrow> method_spec \<Rightarrow> bool" where
  "method_ok types features m \<longleftrightarrow> ms_request m \<in> set types \<and> ms_response m \<in> set types
     \<and> (\<forall>f. ms_required_feature m = Some f \<longrightarrow> f \<in> set features)"

lemma method_body_Inr: "method_body types features label kvs = Inr m \<Longrightarrow> method_ok types features m"
  by (auto simp: method_body_def method_ok_def method_feature_def rbind_Inr_iff split: if_splits)

lemma protocol_method_Inr: "protocol_method render types features index v = Inr m \<Longrightarrow> method_ok types features m"
  by (auto simp: protocol_method_def rbind_Inr_iff intro: method_body_Inr)

lemma declared_are_loaded:
  assumes "\<And>i v y. f i v = Inr y \<Longrightarrow> \<exists>kvs. v = JObj kvs \<and> map_of kvs ''name'' = Some (JStr (nm y))"
  shows "mapM (\<lambda>(i, v). f i v) (enumerate n raws) = Inr ys \<Longrightarrow>
    mapM (\<lambda>(i, kvs). named (get_item kvs ''name'') P (L i))
      (concat (map (\<lambda>(i, v). case v of JObj kvs \<Rightarrow> [(i, kvs)] | _ \<Rightarrow> []) (enumerate n raws))) = Inr names
    \<Longrightarrow> names = map nm ys"
proof (induction raws arbitrary: n ys names)
  case (Cons v raws)
  then obtain y ys' where y: "f n v = Inr y" "mapM (\<lambda>(i, v). f i v) (enumerate (Suc n) raws) = Inr ys'" "ys = y # ys'"
    by (auto simp: rbind_Inr_iff)
  obtain kvs where "v = JObj kvs" "map_of kvs ''name'' = Some (JStr (nm y))" using assms [OF y(1)] by blast
  with Cons.prems(2) y Cons.IH show ?case by (auto simp: rbind_Inr_iff named_Inr get_item_def)
qed simp

lemma declared_names_loaded:
  assumes "\<And>i v y. f i v = Inr y \<Longrightarrow> \<exists>kvs. v = JObj kvs \<and> map_of kvs ''name'' = Some (JStr (nm y))"
    and "mapM_index f raws = Inr ys" and "declared_names kind raws = Inr names"
  shows "names = map nm ys"
  using assms(3) declared_are_loaded [OF assms(1), where n = 0] assms(2)
  by (auto simp: declared_names_def mapM_index_def rbind_Inr_iff split: if_splits)

lemma load_protocol_file_Inr:
  assumes "load_protocol_file files render path = Inr c"
  shows "\<exists>domain known_types raw_records raw_unions raw_methods. domain_names files = Inr domain
     \<and> declared_names ''record'' raw_records = Inr (map rs_name (pc_records c))
     \<and> declared_names ''union'' raw_unions = Inr (map un_name (pc_unions c))
     \<and> check_names (domain @ BUILTIN_TYPES) (map rs_name (pc_records c)) (map un_name (pc_unions c)) = Inr known_types
     \<and> load_records render known_types raw_records = Inr (pc_records c)
     \<and> load_unions render (map rs_name (pc_records c)) raw_unions = Inr (pc_unions c)
     \<and> load_methods render (map rs_name (pc_records c) @ map un_name (pc_unions c)) (pc_features c) raw_methods = Inr (pc_methods c)"
proof -
  obtain domain known_types raw_records raw_unions raw_methods record_names union_names where
    names: "domain_names files = Inr domain" "declared_names ''record'' raw_records = Inr record_names"
      "declared_names ''union'' raw_unions = Inr union_names"
      "check_names (domain @ BUILTIN_TYPES) record_names union_names = Inr known_types"
    and rs: "load_records render known_types raw_records = Inr (pc_records c)"
    and us: "load_unions render (map rs_name (pc_records c)) raw_unions = Inr (pc_unions c)"
    and ms: "load_methods render (map rs_name (pc_records c) @ map un_name (pc_unions c)) (pc_features c) raw_methods = Inr (pc_methods c)"
    using assms by (auto simp: load_protocol_file_def rbind_Inr_iff split: if_splits)
  have "record_names = map rs_name (pc_records c)"
  proof (rule declared_names_loaded [OF _ _ names(2)])
    show "mapM_index (protocol_record render known_types) raw_records = Inr (pc_records c)"
      using rs by (auto simp: load_records_def rbind_Inr_iff)
  qed (metis protocol_record_Inr record_body_Inr(1))
  moreover have "union_names = map un_name (pc_unions c)"
  proof (rule declared_names_loaded [OF _ _ names(3)])
    show "mapM_index (protocol_union render (map rs_name (pc_records c))) raw_unions = Inr (pc_unions c)"
      using us by (auto simp: load_unions_def rbind_Inr_iff)
  qed (metis protocol_union_Inr union_body_Inr(1))
  ultimately show ?thesis using names rs us ms by blast
qed

lemma protocol_types_resolve_facts:
  assumes "load_protocol_file files render path = Inr c"
    and "types = map rs_name (pc_records c) @ map un_name (pc_unions c)"
  shows "distinct types"
    and "\<exists>domain. domain_names files = Inr domain \<and> set types \<inter> set (domain @ BUILTIN_TYPES) = {}
      \<and> (\<forall>r \<in> set (pc_records c). distinct (map fs_name (rs_fields r))
          \<and> (\<forall>f \<in> set (rs_fields r). field_ok (domain @ BUILTIN_TYPES @ types) f))"
    and "\<forall>u \<in> set (pc_unions c). union_ok (map rs_name (pc_records c)) u"
    and "\<forall>m \<in> set (pc_methods c). method_ok types (pc_features c) m"
proof -
  obtain domain known_types raw_records raw_unions raw_methods where domain: "domain_names files = Inr domain"
    and check: "check_names (domain @ BUILTIN_TYPES) (map rs_name (pc_records c)) (map un_name (pc_unions c)) = Inr known_types"
    and rs: "load_records render known_types raw_records = Inr (pc_records c)"
    and us: "load_unions render (map rs_name (pc_records c)) raw_unions = Inr (pc_unions c)"
    and ms: "load_methods render types (pc_features c) raw_methods = Inr (pc_methods c)"
    using load_protocol_file_Inr [OF assms(1)] unfolding assms(2) by blast
  have known: "known_types = domain @ BUILTIN_TYPES @ types"
    and apart: "set types \<inter> set (domain @ BUILTIN_TYPES) = {}"
      "set (map rs_name (pc_records c)) \<inter> set (map un_name (pc_unions c)) = {}"
    using check by (auto simp: check_names_def assms(2) split: if_splits)
  show "distinct types"
    using rs us apart(2) by (auto simp: load_records_def load_unions_def rbind_Inr_iff require_unique_Inr assms(2))
  have "mapM_index (protocol_record render known_types) raw_records = Inr (pc_records c)"
    using rs by (auto simp: load_records_def rbind_Inr_iff)
  then have "distinct (map fs_name (rs_fields r)) \<and> (\<forall>f \<in> set (rs_fields r). field_ok known_types f)"
    if "r \<in> set (pc_records c)" for r
    using that by (metis mapM_index_in_set protocol_record_Inr record_body_Inr(2,3))
  then show "\<exists>domain. domain_names files = Inr domain \<and> set types \<inter> set (domain @ BUILTIN_TYPES) = {}
      \<and> (\<forall>r \<in> set (pc_records c). distinct (map fs_name (rs_fields r))
          \<and> (\<forall>f \<in> set (rs_fields r). field_ok (domain @ BUILTIN_TYPES @ types) f))"
    using domain apart(1) unfolding known by blast
  have "mapM_index (protocol_union render (map rs_name (pc_records c))) raw_unions = Inr (pc_unions c)"
    using us by (auto simp: load_unions_def rbind_Inr_iff)
  then show "\<forall>u \<in> set (pc_unions c). union_ok (map rs_name (pc_records c)) u"
    by (metis mapM_index_in_set protocol_union_Inr union_body_Inr(2))
  have "mapM_index (protocol_method render types (pc_features c)) raw_methods = Inr (pc_methods c)"
    using ms by (auto simp: load_methods_def rbind_Inr_iff)
  then show "\<forall>m \<in> set (pc_methods c). method_ok types (pc_features c) m"
    by (metis mapM_index_in_set protocol_method_Inr)
qed

text \<open>
  C34. Every name a loaded protocol catalog refers to is declared: the type of a field is a domain type, a
  built-in type, a record or a union of the catalog, a variant of a union names a record, a method
  takes and returns records or unions, and a required feature is a feature of the catalog.  The
  names of records and unions differ from each other and from all domain types; repeated fields
  have a bound from 1 to 4096 and scalar fields none.
\<close>

theorem protocol_types_resolve:
  assumes "load_protocol_file files render path = Inr c"
    and "types = map rs_name (pc_records c) @ map un_name (pc_unions c)"
  shows "distinct types
     \<and> (\<exists>domain. domain_names files = Inr domain \<and> set types \<inter> set (domain @ BUILTIN_TYPES) = {}
          \<and> (\<forall>r \<in> set (pc_records c). distinct (map fs_name (rs_fields r))
              \<and> (\<forall>f \<in> set (rs_fields r). field_ok (domain @ BUILTIN_TYPES @ types) f)))
     \<and> (\<forall>u \<in> set (pc_unions c). union_ok (map rs_name (pc_records c)) u)
     \<and> (\<forall>m \<in> set (pc_methods c). method_ok types (pc_features c) m)"
  using protocol_types_resolve_facts [OF assms] by (intro conjI) (simp_all only:)

section \<open>What a loaded registry guarantees\<close>

lemma sorted_distinct_strict: "distinct xs \<Longrightarrow> xs = sort xs \<Longrightarrow> sorted_wrt (<) (xs :: int list)"
  by (metis sorted_sort strict_sorted_iff)

lemma load_retired_versions_Inr:
  assumes "load_retired_versions v active = Inr retired"
  shows "sorted_wrt (<) (map rv_version retired)" and "set (map rv_version retired) \<inter> set active = {}"
proof -
  have "distinct (map str_int (map rv_version retired))" and sorted: "map rv_version retired = sort (map rv_version retired)"
    and "sort (filter (\<lambda>n. n \<in> set active) (remdups (map rv_version retired))) = []"
    using assms by (auto simp: load_retired_versions_def Let_def rbind_Inr_iff require_unique_Inr split: json.splits if_splits)
  then have "filter (\<lambda>n. n \<in> set active) (remdups (map rv_version retired)) = []"
    by (metis length_0_conv length_sort)
  then show "set (map rv_version retired) \<inter> set active = {}" by (auto simp: filter_empty_conv)
  have "distinct (map rv_version retired)"
    using \<open>distinct (map str_int (map rv_version retired))\<close> unfolding distinct_map by blast
  then show "sorted_wrt (<) (map rv_version retired)" by (rule sorted_distinct_strict) (rule sorted)
qed

lemma served_features_of_Inr:
  "served_features_of label declared v = Inr served \<Longrightarrow> set served \<subseteq> set declared \<and> sorted served \<and> distinct served"
  by (auto simp: served_features_of_def rbind_Inr_iff require_unique_Inr py_sorted_def split: json.splits if_splits)
     (metis sorted_sort)

lemma load_version_Inr:
  assumes "load_version files digests render index v = Inr pv"
  shows "pc_minimum_version (pv_catalog pv) = pv_version pv \<and> pc_maximum_version (pv_catalog pv) = pv_version pv"
    and "digests (''protocol/'' @ pv_catalog_path pv) = Some (pv_source_sha256 pv)"
    and "load_protocol_file files render (''protocol/'' @ pv_catalog_path pv) = Inr (pv_catalog pv)"
    and "set (pv_served_features pv) \<subseteq> set (pc_features (pv_catalog pv))"
  using assms
  by (auto simp: load_version_def Let_def rbind_Inr_iff split: if_splits dest!: served_features_of_Inr)

lemma load_protocol_registry_Inr:
  assumes "load_protocol_registry files digests render = Inr r"
  shows "\<exists>raws. mapM_index (load_version files digests render) raws = Inr (pr_versions r)"
    and "distinct (map pv_version (pr_versions r))" and "map pv_version (pr_versions r) = sort (map pv_version (pr_versions r))"
    and "pr_current_version r \<in> set (map pv_version (pr_versions r))"
    and "\<exists>v. load_retired_versions v (map pv_version (pr_versions r)) = Inr (pr_retired r)"
  using assms
  by (auto simp: load_protocol_registry_def require_unique_ints_def Let_def rbind_Inr_iff split: if_splits)

lemma registry_never_reuses_versions_facts:
  assumes "load_protocol_registry files digests render = Inr r"
  shows "sorted_wrt (<) (map pv_version (pr_versions r)) \<and> sorted_wrt (<) (map rv_version (pr_retired r))
      \<and> set (map rv_version (pr_retired r)) \<inter> set (map pv_version (pr_versions r)) = {}"
    and "pv \<in> set (pr_versions r) \<Longrightarrow>
      load_protocol_file files render (''protocol/'' @ pv_catalog_path pv) = Inr (pv_catalog pv)
      \<and> digests (''protocol/'' @ pv_catalog_path pv) = Some (pv_source_sha256 pv)
      \<and> pc_minimum_version (pv_catalog pv) = pv_version pv \<and> pc_maximum_version (pv_catalog pv) = pv_version pv
      \<and> set (pv_served_features pv) \<subseteq> set (pc_features (pv_catalog pv))"
    and "\<exists>pv \<in> set (pr_versions r). pv_version pv = pr_current_version r \<and> registry_current r = Some (pv_catalog pv)"
proof -
  note reg = load_protocol_registry_Inr [OF assms]
  show "sorted_wrt (<) (map pv_version (pr_versions r)) \<and> sorted_wrt (<) (map rv_version (pr_retired r))
      \<and> set (map rv_version (pr_retired r)) \<inter> set (map pv_version (pr_versions r)) = {}"
    using sorted_distinct_strict [OF reg(2,3)] reg(5) load_retired_versions_Inr by blast
  show "load_protocol_file files render (''protocol/'' @ pv_catalog_path pv) = Inr (pv_catalog pv)
      \<and> digests (''protocol/'' @ pv_catalog_path pv) = Some (pv_source_sha256 pv)
      \<and> pc_minimum_version (pv_catalog pv) = pv_version pv \<and> pc_maximum_version (pv_catalog pv) = pv_version pv
      \<and> set (pv_served_features pv) \<subseteq> set (pc_features (pv_catalog pv))" if member: "pv \<in> set (pr_versions r)"
  proof -
    obtain index v where "load_version files digests render index v = Inr pv"
      using reg(1) member by (metis mapM_index_in_set)
    from load_version_Inr [OF this] show ?thesis by (intro conjI) (simp_all only:)
  qed
  have "find (\<lambda>v. pv_version v = pr_current_version r) (pr_versions r) \<noteq> None"
    using reg(4) by (auto simp: find_None_iff)
  then obtain pv where pv: "find (\<lambda>v. pv_version v = pr_current_version r) (pr_versions r) = Some pv" by blast
  then have "pv \<in> set (pr_versions r)" "pv_version pv = pr_current_version r" by (auto simp: find_Some_iff)
  then show "\<exists>pv \<in> set (pr_versions r). pv_version pv = pr_current_version r \<and> registry_current r = Some (pv_catalog pv)"
    using pv by (intro bexI [of _ pv]) (simp_all add: registry_current_def)
qed

text \<open>
  C33. A loaded protocol registry has its versions in strictly increasing order, each with the frozen catalog of
  its digest, which describes exactly that version and declares every served feature; the current
  version is one of them and \<open>current\<close> is its catalog; and no retired version is served again.
\<close>

theorem registry_never_reuses_versions:
  assumes "load_protocol_registry files digests render = Inr r"
  shows "sorted_wrt (<) (map pv_version (pr_versions r)) \<and> sorted_wrt (<) (map rv_version (pr_retired r))
     \<and> set (map rv_version (pr_retired r)) \<inter> set (map pv_version (pr_versions r)) = {}
     \<and> (\<forall>pv \<in> set (pr_versions r).
          load_protocol_file files render (''protocol/'' @ pv_catalog_path pv) = Inr (pv_catalog pv)
          \<and> digests (''protocol/'' @ pv_catalog_path pv) = Some (pv_source_sha256 pv)
          \<and> pc_minimum_version (pv_catalog pv) = pv_version pv \<and> pc_maximum_version (pv_catalog pv) = pv_version pv
          \<and> set (pv_served_features pv) \<subseteq> set (pc_features (pv_catalog pv)))
     \<and> (\<exists>pv \<in> set (pr_versions r). pv_version pv = pr_current_version r \<and> registry_current r = Some (pv_catalog pv))"
  using registry_never_reuses_versions_facts [OF assms] by (intro conjI ballI) (simp_all only:)

section \<open>A small registry\<close>

definition ex_protocol_document :: json where
  "ex_protocol_document = JObj [(''$schema'', JStr ''s''), (''schema'', JStr ''hyperflux-protocol-catalog-v1''),
     (''minimum_version'', JInt 5), (''maximum_version'', JInt 5),
     (''limits'', JObj [(''max_message_bytes'', JInt 65536), (''max_json_depth'', JInt 128)]),
     (''features'', JArr [JStr ''lighting'']),
     (''records'', JArr [JObj [(''name'', JStr ''Ping''), (''description'', JStr ''A ping.''), (''fields'', JArr [
        JObj [(''name'', JStr ''urgent''), (''type'', JStr ''Boolean''), (''required'', JBool True), (''many'', JBool False),
          (''max_items'', JNull), (''description'', JStr ''Urgent.'')],
        JObj [(''name'', JStr ''replies''), (''type'', JStr ''Reply''), (''required'', JBool True), (''many'', JBool True),
          (''max_items'', JInt 4), (''description'', JStr ''Replies.'')]])]]),
     (''unions'', JArr [JObj [(''name'', JStr ''Reply''), (''description'', JStr ''A reply.''), (''tag'', JStr ''type''),
        (''content'', JStr ''detail''), (''variants'', JArr [JObj [(''name'', JStr ''Pinged''), (''wire'', JStr ''ping''),
          (''type'', JStr ''Ping''), (''description'', JStr ''Pinged.'')]])]]),
     (''methods'', JArr [JObj [(''name'', JStr ''ping''), (''request'', JStr ''Ping''), (''response'', JStr ''Reply''),
        (''required_feature'', JStr ''lighting''), (''description'', JStr ''Ping.'')]])]"

definition ex_digest :: string where
  "ex_digest = replicate 64 (CHR ''a'')"

definition ex_version_document :: json where
  "ex_version_document = JObj [(''version'', JInt 5), (''catalog'', JStr ''v5/catalog.json''), (''sha256'', JStr ex_digest),
     (''served_features'', JArr [JStr ''lighting''])]"

definition ex_registry_files :: "json list \<Rightarrow> string \<Rightarrow> json option" where
  "ex_registry_files versions path =
     (if path = ''protocol/registry.json'' then Some (JObj [(''$schema'', JStr ''s''), (''schema'', JStr ''hyperflux-protocol-registry-v1''),
        (''current_version'', JInt 5), (''versions'', JArr versions), (''retired'', JArr [JObj [(''version'', JInt 4),
          (''retired_in'', JStr ''0.9.0''), (''sha256'', JStr ex_digest)]])])
      else if path = ''protocol/v5/catalog.json'' then Some ex_protocol_document
      else if path = ''schemas/domain-catalog.json'' then Some (JObj [(''numeric_types'', JArr [JObj [(''name'', JStr ''FrameIndex'')]]),
        (''string_types'', JArr []), (''enums'', JArr [])])
      else None)"

lemma ex_protocol_loads:
  "is_ok (load_protocol_file (ex_registry_files []) (\<lambda>_. []) ''protocol/v5/catalog.json'')"
  "is_ok (load_protocol_registry (ex_registry_files [ex_version_document]) (\<lambda>_. Some ex_digest) (\<lambda>_. []))"
  by code_simp+

theorem protocol_types_resolve_witness:
  "\<exists>c. load_protocol_file (ex_registry_files []) (\<lambda>_. []) ''protocol/v5/catalog.json'' = Inr c
     \<and> distinct (map rs_name (pc_records c) @ map un_name (pc_unions c))"
proof -
  obtain c where c: "load_protocol_file (ex_registry_files []) (\<lambda>_. []) ''protocol/v5/catalog.json'' = Inr c"
    using ex_protocol_loads(1) unfolding is_ok_iff ..
  from conjunct1 [OF protocol_types_resolve [OF c refl]] c show ?thesis by (intro exI conjI)
qed

theorem registry_never_reuses_versions_witness:
  "\<exists>r. load_protocol_registry (ex_registry_files [ex_version_document]) (\<lambda>_. Some ex_digest) (\<lambda>_. []) = Inr r
     \<and> set (map rv_version (pr_retired r)) \<inter> set (map pv_version (pr_versions r)) = {}"
proof -
  obtain r where r: "load_protocol_registry (ex_registry_files [ex_version_document]) (\<lambda>_. Some ex_digest) (\<lambda>_. []) = Inr r"
    using ex_protocol_loads(2) unfolding is_ok_iff ..
  from conjunct1 [OF conjunct2 [OF conjunct2 [OF registry_never_reuses_versions [OF r]]]] r show ?thesis by (intro exI conjI)
qed

text \<open>
  A registry that names a version twice is not refused with the loader's own error: the uniqueness check
  fails while it builds its message, with a \<open>TypeError\<close>.
\<close>

lemma duplicate_version_raises_type_error:
  "load_protocol_registry (ex_registry_files [ex_version_document, ex_version_document]) (\<lambda>_. Some ex_digest) (\<lambda>_. [])
     = Inl TypeError"
  by code_simp

end
