(* ===== verification/Verification_Evidence.thy ===== *)
theory Verification_Evidence
  imports Verification_Run Protocol_Catalog
begin

text \<open>
  What a verification run records of its source and its inputs, and how it writes its reports
  (\<open>src/tools/hfxdev/verification_run.py\<close>, the functions beside \<open>run_verification\<close>).

  Parameters: \<open>git\<close> gives the result of a git command, \<open>sha\<close> the SHA-256 digest of bytes, \<open>valid_utf8\<close> whether
  bytes are UTF-8 (a text is its UTF-8 bytes), and the file system answers in \<open>tree_ops\<close> and
  \<open>output_ops\<close>.  \<open>_write_atomic\<close> works on a modelled file system, step by step, where any step may fail;
  \<open>fsync\<close> is a step that may fail, and what survives a power loss is not modelled.
\<close>

section \<open>Git\<close>

text \<open>\<open>subprocess.run\<close>: it cannot start or times out, or it ends with a code and its two outputs.\<close>

datatype process = NotRun string | Ended int string string

definition git_text :: "(string list \<Rightarrow> process) \<Rightarrow> string list \<Rightarrow> string \<Rightarrow> model_error + string" where
  "git_text git command label = (case git command of
     NotRun e \<Rightarrow> Inl (ModelError (''cannot inspect '' @ label @ '': '' @ e))
   | Ended code out err \<Rightarrow>
       if code \<noteq> 0 then Inl (ModelError (''cannot inspect '' @ label @ '': '' @ py_strip err)) else Inr (py_strip out))"

definition git_paths ::
  "(string list \<Rightarrow> process) \<Rightarrow> (string \<Rightarrow> bool) \<Rightarrow> string list \<Rightarrow> string \<Rightarrow> model_error + string list" where
  "git_paths git valid_utf8 command label = (case git command of
     NotRun e \<Rightarrow> Inl (ModelError (''cannot inspect '' @ label @ '': '' @ e))
   | Ended code out err \<Rightarrow>
       if code \<noteq> 0 then Inl (ModelError (''cannot inspect '' @ label @ '': '' @ py_strip err))
       else let names = filter (\<lambda>s. s \<noteq> []) (split_on (CHR 0x00) out)
         in if list_all valid_utf8 names then Inr names
            else Inl (ModelError (label @ '' contains a non-UTF-8 repository path'')))"

definition is_commit :: "string \<Rightarrow> bool" where
  "is_commit s \<longleftrightarrow> length s = 40 \<and> list_all (\<lambda>c. is_digit c \<or> c \<in> set ''abcdef'') s"

definition change_commands :: "string \<Rightarrow> (string list \<times> string) list" where
  "change_commands revision = [
     ([''git'', ''diff'', ''--name-only'', ''-z'', ''--diff-filter=ACDMRTUXB'', revision @ ''...HEAD''], ''committed changes''),
     ([''git'', ''diff'', ''--name-only'', ''-z'', ''--diff-filter=ACDMRTUXB''], ''working-tree changes''),
     ([''git'', ''diff'', ''--cached'', ''--name-only'', ''-z'', ''--diff-filter=ACDMRTUXB''], ''index changes''),
     ([''git'', ''ls-files'', ''--others'', ''--exclude-standard'', ''-z''], ''untracked changes'')]"

definition git_changed_paths ::
  "(string list \<Rightarrow> process) \<Rightarrow> (string \<Rightarrow> bool) \<Rightarrow> string \<Rightarrow> model_error + string \<times> string list" where
  "git_changed_paths git valid_utf8 base =
     rbind (git_text git [''git'', ''rev-parse'', ''--verify'', base @ ''^{commit}''] ''changed-path base revision'') (\<lambda>revision.
     if \<not> is_commit revision then Inl (ModelError ''changed-path base did not resolve to a commit'')
     else rbind (mapM (\<lambda>(command, label). git_paths git valid_utf8 command label) (change_commands revision)) (\<lambda>found.
       Inr (revision, py_sorted (remdups (concat found)))))"

text \<open>\<open>int(text)\<close> of a stripped text: a sign, then digits with single underscores between them.\<close>

definition py_int :: "string \<Rightarrow> int option" where
  "py_int s =
     (let (sign, body) = (case s of c # cs \<Rightarrow> if c = CHR ''-'' then (-1, cs) else if c = CHR ''+'' then (1, cs) else (1, s) | [] \<Rightarrow> (1, s));
          groups = split_on (CHR ''_'') body;
          digits = concat groups
      in if list_all (\<lambda>g. g \<noteq> [] \<and> list_all is_digit g) groups \<and> length digits \<le> 4300
         then Some (sign * foldl (\<lambda>n c. 10 * n + (int (of_char c) - 48)) 0 digits) else None)"

record source_record =
  src_revision :: string
  src_commit_epoch :: int
  src_worktree :: string
  src_worktree_sha256 :: string

definition join_nul :: "string list \<Rightarrow> string" where
  "join_nul names = join [CHR 0x00] names"

definition source_identity ::
  "(string list \<Rightarrow> process) \<Rightarrow> (string \<Rightarrow> bool) \<Rightarrow> (string \<Rightarrow> string) \<Rightarrow> model_error + source_record" where
  "source_identity git valid_utf8 sha =
     rbind (git_text git [''git'', ''rev-parse'', ''HEAD''] ''source revision'') (\<lambda>revision.
     if \<not> is_commit revision then Inl (ModelError ''source revision is not a lowercase Git commit'')
     else rbind (git_text git [''git'', ''show'', ''-s'', ''--format=%ct'', revision] ''source timestamp'') (\<lambda>epoch_text.
     case py_int epoch_text of
       None \<Rightarrow> Inl (ModelError ''source timestamp is not an integer'')
     | Some epoch \<Rightarrow>
         rbind (git_paths git valid_utf8 [''git'', ''status'', ''--porcelain=v1'', ''-z'', ''--untracked-files=all''] ''source worktree'') (\<lambda>status.
         Inr \<lparr>src_revision = revision, src_commit_epoch = epoch,
           src_worktree = (if status \<noteq> [] then ''dirty'' else ''clean''), src_worktree_sha256 = sha (join_nul status)\<rparr>)))"

section \<open>Digests of files\<close>

definition IGNORED_PARTS :: "string list" where
  "IGNORED_PARTS = [''.git'', ''.hfx'', ''.mypy_cache'', ''.pytest_cache'', ''.ruff_cache'', ''.venv'', ''__pycache__'',
     ''build'', ''dist'', ''target'']"

text \<open>A path below the repository, by its text relative to it, and what the file system says of it.\<close>

record tree_entry =
  te_path :: string
  te_symlink :: bool
  te_file :: bool
  te_mode :: nat
  te_size :: nat
  te_content :: string

definition parts_of :: "string \<Rightarrow> string list" where
  "parts_of path = split_on (CHR ''/'') path"

text \<open>\<open>tuple(sorted(files))\<close> of a set of paths, which compare by their parts.\<close>

fun first_of_path :: "tree_entry list \<Rightarrow> tree_entry list" where
  "first_of_path [] = []"
| "first_of_path (e # es) = e # filter (\<lambda>f. te_path f \<noteq> te_path e) (first_of_path es)"

definition sorted_entries :: "tree_entry list \<Rightarrow> tree_entry list" where
  "sorted_entries es = sort_key (\<lambda>e. parts_of (te_path e)) (first_of_path es)"

definition visit_entry :: "tree_entry list \<Rightarrow> tree_entry \<Rightarrow> model_error + tree_entry list" where
  "visit_entry found e =
     (if list_ex (\<lambda>p. p \<in> set IGNORED_PARTS) (parts_of (te_path e)) then Inr found
      else if te_symlink e then Inl (ModelError (''verification input may not be a symbolic link: '' @ te_path e))
      else if te_file e then Inr (found @ [e]) else Inr found)"

definition repository_files :: "(string \<Rightarrow> tree_entry list) \<Rightarrow> string list \<Rightarrow> model_error + tree_entry list" where
  "repository_files glob patterns =
     rbind (foldM visit_entry [] (concat (map glob patterns))) (\<lambda>files.
     if files = [] then Inl (ModelError ''verification input selection resolved to no regular files'')
     else Inr (sorted_entries files))"

text \<open>\<open>n.to_bytes(k, "big")\<close>, which raises \<open>OverflowError\<close> for a number that needs more bytes.\<close>

fun big_endian :: "nat \<Rightarrow> nat \<Rightarrow> string" where
  "big_endian 0 n = []"
| "big_endian (Suc k) n = big_endian k (n div 256) @ [char_of (n mod 256)]"

definition to_bytes :: "nat \<Rightarrow> nat \<Rightarrow> run_exn + string" where
  "to_bytes k n = (if n < 256 ^ k then Inr (big_endian k n) else Inl (IoError ''OverflowError: int too big to convert''))"

text \<open>The bytes one file feeds into the digest: its path, mode and size, each of a fixed form, then its content.\<close>

definition file_bytes :: "tree_entry \<Rightarrow> run_exn + string" where
  "file_bytes e =
     rbind (to_bytes 4 (length (te_path e))) (\<lambda>a.
     rbind (to_bytes 4 (te_mode e)) (\<lambda>m.
     rbind (to_bytes 8 (te_size e)) (\<lambda>n. Inr (a @ te_path e @ m @ n @ te_content e))))"

definition digest_input :: "tree_entry list \<Rightarrow> run_exn + string" where
  "digest_input files = rbind (mapM file_bytes files) (\<lambda>parts. Inr (concat parts))"

definition files_digest :: "(string \<Rightarrow> string) \<Rightarrow> tree_entry list \<Rightarrow> run_exn + string" where
  "files_digest sha files = rbind (digest_input files) (\<lambda>bytes. Inr (sha bytes))"

definition refuse :: "model_error + 'a \<Rightarrow> run_exn + 'a" where
  "refuse r = (case r of Inl e \<Rightarrow> Inl (RunRefused e) | Inr x \<Rightarrow> Inr x)"

definition input_digest_of :: "(string \<Rightarrow> tree_entry list) \<Rightarrow> (string \<Rightarrow> string) \<Rightarrow> test_node \<Rightarrow> run_exn + string" where
  "input_digest_of glob sha node =
     rbind (refuse (repository_files glob (tn_cache_inputs node))) (files_digest sha)"

section \<open>Materials\<close>

definition MATERIALS :: "(string \<times> string \<times> string) list" where
  "MATERIALS = [
     (''architecture-constitution'', ''architecture/constitution.json'', ''file''),
     (''cargo-lock'', ''Cargo.lock'', ''file''),
     (''dependency-policy'', ''assurance/dependencies.json'', ''file''),
     (''design-coverage'', ''assurance/design-coverage.json'', ''file''),
     (''error-catalog'', ''errors/catalog.json'', ''file''),
     (''formal-model'', ''assurance/formal-model.json'', ''file''),
     (''generated-profiles'', ''spec/catalog/profiles/catalog.json'', ''file''),
     (''integration-catalog'', ''integrations/catalog.json'', ''file''),
     (''performance-budgets'', ''assurance/performance-budgets.json'', ''file''),
     (''protected-behavior'', ''assurance/protected-behavior.json'', ''file''),
     (''protocol-registry'', ''protocol/registry.json'', ''file''),
     (''release-gates'', ''assurance/release-gates.json'', ''file''),
     (''replay-fixtures'', ''tests/fixtures/replay'', ''tree''),
     (''schema-tree'', ''schemas'', ''tree''),
     (''source-sbom'', ''assurance/generated/hyperflux-next.spdx.json'', ''file''),
     (''test-catalog'', ''verification/tests.json'', ''file''),
     (''toolchain-pins'', ''toolchains/pins.json'', ''file'')]"

definition material_sources :: "protocol_registry \<Rightarrow> run_exn + (string \<times> string \<times> string) list" where
  "material_sources registry = (case find (\<lambda>v. pv_version v = pr_current_version registry) (pr_versions registry) of
     None \<Rightarrow> Inl (IoError ''StopIteration'')
   | Some current \<Rightarrow> Inr (sort_key (\<lambda>(i, p, k). [i, p, k])
       (MATERIALS @ [(''protocol-catalog'', ''protocol/'' @ pv_catalog_path current, ''file'')])))"

record tree_ops =
  tr_file :: "string \<Rightarrow> bool"
  tr_dir :: "string \<Rightarrow> bool"
  tr_symlink :: "string \<Rightarrow> bool"
  tr_rglob :: "string \<Rightarrow> tree_entry list"
  tr_sha256 :: "string \<Rightarrow> run_exn + string"

record material_record =
  ma_id :: string
  ma_path :: string
  ma_kind :: string
  ma_sha256 :: string

definition material :: "tree_ops \<Rightarrow> (string \<Rightarrow> string) \<Rightarrow> string \<times> string \<times> string \<Rightarrow> run_exn + material_record" where
  "material ops sha = (\<lambda>(i, path, kind).
     rbind
      (if kind = ''file'' then
         (if \<not> tr_file ops path \<or> tr_symlink ops path
          then Inl (RunRefused (ModelError (''verification material is missing: '' @ path)))
          else tr_sha256 ops path)
       else if \<not> tr_dir ops path \<or> tr_symlink ops path
       then Inl (RunRefused (ModelError (''verification material tree is missing: '' @ path)))
       else (case filter te_symlink (tr_rglob ops path) of
          e # _ \<Rightarrow> Inl (RunRefused (ModelError (''verification material tree contains a symbolic link: '' @ te_path e)))
        | [] \<Rightarrow>
            let files = sort_key (\<lambda>e. parts_of (te_path e)) (filter te_file (tr_rglob ops path))
            in if files = [] then Inl (RunRefused (ModelError (''verification material tree is empty: '' @ path)))
               else files_digest sha files))
      (\<lambda>digest. Inr \<lparr>ma_id = i, ma_path = path, ma_kind = kind, ma_sha256 = digest\<rparr>))"

section \<open>Output directory\<close>

record output_ops =
  oo_expanduser :: "string \<Rightarrow> string"
  oo_resolve :: "string \<Rightarrow> string"
  oo_exists :: "string \<Rightarrow> bool"
  oo_symlink :: "string \<Rightarrow> bool"
  oo_dir :: "string \<Rightarrow> bool"
  oo_empty :: "string \<Rightarrow> bool"
  oo_home :: string
  oo_mkdir :: "string \<Rightarrow> run_exn + unit"

definition prepare_output :: "output_ops \<Rightarrow> string \<Rightarrow> string option \<Rightarrow> string \<Rightarrow> run_exn + string" where
  "prepare_output ops root_path requested run_id =
     (let given = oo_expanduser ops (case requested of Some p \<Rightarrow> p | None \<Rightarrow> root_path @ ''/build/verification/'' @ run_id);
          candidate = oo_resolve ops given
      in if oo_exists ops given \<and> oo_symlink ops given
         then Inl (RunRefused (ModelError ''verification output may not be a symbolic link''))
         else if candidate \<in> {''/'', oo_resolve ops (oo_home ops), oo_resolve ops root_path}
         then Inl (RunRefused (ModelError ''refusing unsafe verification output directory''))
         else if oo_exists ops candidate then
           (if \<not> oo_dir ops candidate \<or> \<not> oo_empty ops candidate
            then Inl (RunRefused (ModelError ''verification output directory must be absent or empty''))
            else Inr candidate)
         else rbind (oo_mkdir ops candidate) (\<lambda>_. Inr candidate))"

section \<open>Atomic writes\<close>

text \<open>
  A file system as the contents of its files.  \<open>write_faults\<close> says which step of \<open>_write_atomic\<close> raises; a
  write that raises has written a first part.  The result is whether it raised, the state it leaves
  and every state on the way, in which a crash could leave the disk.
\<close>

type_synonym files = "string \<rightharpoonup> string"

record write_faults =
  f_open :: bool
  f_write :: "nat option"
  f_sync :: bool
  f_chmod :: bool
  f_replace :: bool
  f_directory :: bool
  f_unlink :: bool

definition report_path :: "string \<Rightarrow> string \<Rightarrow> string" where
  "report_path dir name = dir @ ''/'' @ name"

definition temporary_path :: "string \<Rightarrow> string \<Rightarrow> string" where
  "temporary_path dir name = dir @ ''/.'' @ name @ ''.tmp''"

definition partial_writes :: "files \<Rightarrow> string \<Rightarrow> string \<Rightarrow> files list" where
  "partial_writes fs temp payload = map (\<lambda>k. fs(temp \<mapsto> take k payload)) [0 ..< Suc (length payload)]"

definition write_body :: "write_faults \<Rightarrow> string \<Rightarrow> string \<Rightarrow> string \<Rightarrow> files \<Rightarrow> bool \<times> files \<times> files list" where
  "write_body faults temp path payload fs =
     (if f_open faults then (True, fs, [])
      else case f_write faults of
        Some k \<Rightarrow> (True, fs(temp \<mapsto> take k payload), partial_writes fs temp (take k payload))
      | None \<Rightarrow>
          let written = fs(temp \<mapsto> payload); trace = partial_writes fs temp payload;
              replaced = written(path := written temp, temp := None)
          in if f_sync faults \<or> f_chmod faults \<or> f_replace faults then (True, written, trace)
             else (f_directory faults, replaced, trace @ [replaced]))"

definition write_atomic :: "write_faults \<Rightarrow> string \<Rightarrow> string \<Rightarrow> string \<Rightarrow> files \<Rightarrow> bool \<times> files \<times> files list" where
  "write_atomic faults dir name payload fs =
     (let temp = temporary_path dir name;
          (raised, fs', trace) = write_body faults temp (report_path dir name) payload fs
      in if f_unlink faults then (True, fs', trace)
         else (raised, fs'(temp := None), trace @ [fs'(temp := None)]))"

fun write_all ::
  "(string \<Rightarrow> write_faults) \<Rightarrow> string \<Rightarrow> (string \<times> string) list \<Rightarrow> files \<Rightarrow> bool \<times> files \<times> files list" where
  "write_all faults dir [] fs = (False, fs, [])"
| "write_all faults dir ((name, payload) # rest) fs =
     (let (raised, fs', trace) = write_atomic (faults name) dir name payload fs
      in if raised then (True, fs', trace)
         else let (raised', fs'', trace') = write_all faults dir rest fs' in (raised', fs'', trace @ trace'))"

section \<open>Reports\<close>

definition seconds_text :: "int \<Rightarrow> string" where
  "seconds_text ms = str_int (ms div 1000) @ ''.'' @ map (\<lambda>d. digit_char (nat (ms mod 1000) div d mod 10)) [100, 10, 1]"

fun status_text :: "status \<Rightarrow> string" where
  "status_text Pending = ''pending''"
| "status_text Running = ''running''"
| "status_text Passed = ''passed''"
| "status_text Failed = ''failed''"
| "status_text Blocked = ''blocked''"

definition shown :: "string option \<Rightarrow> string" where
  "shown v = (case v of None \<Rightarrow> ''None'' | Some t \<Rightarrow> t)"

datatype junit_verdict = JunitPassed | JunitFailure string | JunitSkipped string

record junit_case =
  jc_name :: string
  jc_classname :: string
  jc_time :: string
  jc_verdict :: junit_verdict
  jc_evidence :: string

record junit_suite =
  js_name :: string
  js_tests :: nat
  js_failures :: nat
  js_skipped :: nat
  js_time :: string
  js_cases :: "junit_case list"

definition junit_verdict_of :: "node_state \<Rightarrow> junit_verdict" where
  "junit_verdict_of n =
     (if nd_status n = Failed then JunitFailure (shown (nd_error n))
      else if nd_status n \<in> {Pending, Running, Blocked} then
        JunitSkipped (case nd_error n of Some (c # cs) \<Rightarrow> c # cs | _ \<Rightarrow> status_text (nd_status n))
      else JunitPassed)"

definition junit :: "run_result \<Rightarrow> junit_suite" where
  "junit res =
     \<lparr>js_name = ''hyperflux-'' @ rr_lane res, js_tests = length (rr_nodes res),
      js_failures = length (filter (\<lambda>n. nd_status n = Failed) (rr_nodes res)),
      js_skipped = length (filter (\<lambda>n. nd_status n \<in> {Pending, Running, Blocked}) (rr_nodes res)),
      js_time = seconds_text (case rr_duration_ms res of None \<Rightarrow> 0 | Some d \<Rightarrow> d),
      js_cases = map (\<lambda>n. \<lparr>jc_name = nd_id n, jc_classname = ''hyperflux.'' @ nd_domain n,
        jc_time = seconds_text (case nd_duration_ms n of None \<Rightarrow> 0 | Some d \<Rightarrow> d),
        jc_verdict = junit_verdict_of n, jc_evidence = join '','' (nd_produced_evidence n)\<rparr>) (rr_nodes res)\<rparr>"

definition upper_char :: "char \<Rightarrow> char" where
  "upper_char c = (if is_lower c then char_of (of_char c - 32 :: nat) else c)"

definition newline :: string where
  "newline = [CHR 0x0A]"

definition summary :: "run_result \<Rightarrow> string \<Rightarrow> string" where
  "summary res output_name = join newline
     ([''# HyperFlux Verification'', [],
       ''- Run: `'' @ rr_run_id res @ ''`'', ''- Lane: `'' @ rr_lane res @ ''`'',
       ''- Status: **'' @ map upper_char (status_text (rr_status res)) @ ''**'',
       ''- Evidence: `'' @ output_name @ ''/evidence.json`'', [],
       ''| Node | Domain | Status | Duration |'', ''| --- | --- | --- | ---: |'']
      @ map (\<lambda>n. ''| `'' @ nd_id n @ ''` | `'' @ nd_domain n @ ''` | `'' @ status_text (nd_status n) @ ''` | ''
          @ (case nd_duration_ms n of None \<Rightarrow> ''-'' | Some d \<Rightarrow> str_int d @ '' ms'') @ '' |'') (rr_nodes res)
      @ [[]])"

section \<open>Package artifacts\<close>

record artifact_ops =
  ao_json :: "string \<Rightarrow> json option"
  ao_sha256 :: "string \<Rightarrow> run_exn + string"
  ao_size :: "string \<Rightarrow> run_exn + int"
  ao_regular :: "string \<Rightarrow> bool"
  ao_join :: "string \<Rightarrow> string \<Rightarrow> run_exn + string"

text \<open>
  \<open>ao_regular\<close>: a regular file that is no symbolic link; \<open>ao_join\<close>: \<open>(parent / part).relative_to(root)\<close>, which
  raises for a path outside the repository.  Paths are relative to the repository.
\<close>

definition manifest_path :: string where
  "manifest_path = ''build/package-contracts/artifacts/package-build-manifest.json''"

definition manifest_artifact ::
  "artifact_ops \<Rightarrow> (json \<Rightarrow> string) \<Rightarrow> string \<Rightarrow> json \<Rightarrow> run_exn + artifact_record" where
  "manifest_artifact ops render node_id artifact =
     rbind (refuse (subscript artifact ''path'')) (\<lambda>part.
     case part of
       JStr name \<Rightarrow>
         rbind (ao_join ops ''build/package-contracts/artifacts'' name) (\<lambda>path.
         rbind (ao_sha256 ops path) (\<lambda>digest.
         rbind (refuse (subscript artifact ''sha256'')) (\<lambda>recorded.
         if \<not> py_eq (JStr digest) recorded then
           rbind (refuse (subscript artifact ''build_id'')) (\<lambda>build.
             Inl (RunRefused (ModelError (''structured evidence found a changed package artifact: '' @ render build))))
         else rbind (refuse (subscript artifact ''build_id'')) (\<lambda>build.
              rbind (refuse (subscript artifact ''size'')) (\<lambda>size.
              Inr \<lparr>ar_id = ''package-'' @ render build, ar_node_id = node_id, ar_path = path, ar_sha256 = recorded,
                ar_size = size\<rparr>)))))
     | _ \<Rightarrow> Inl (RunRefused TypeError))"

definition component_inventory ::
  "artifact_ops \<Rightarrow> string \<Rightarrow> (string \<times> json) list \<Rightarrow> string \<Rightarrow> run_exn + artifact_record" where
  "component_inventory ops node_id manifest name =
     (let path = ''build/package-contracts/'' @ name @ ''-root-a.inventory.json'' in
      if \<not> ao_regular ops path then Inl (RunRefused (ModelError
        (''structured evidence cannot find the installed-files inventory for component '' @ name)))
      else rbind (refuse (load_json (ao_json ops) path)) (\<lambda>inventory.
      if get_item inventory ''schema'' \<noteq> JStr ''hyperflux-staged-files-v2'' then Inl (RunRefused (ModelError
        (''structured evidence found an invalid '' @ name @ '' installed-files inventory'')))
      else if get_item inventory ''distribution_component'' \<noteq> JStr name then Inl (RunRefused (ModelError
        (''structured evidence found a misbound '' @ name @ '' installed-files inventory'')))
      else rbind (refuse (rbind (item manifest ''source'') (\<lambda>source. subscript source ''revision''))) (\<lambda>revision.
      if \<not> py_eq (get_item inventory ''source_revision'') revision then Inl (RunRefused (ModelError
        (''structured evidence found a stale '' @ name @ '' installed-files inventory'')))
      else rbind (ao_sha256 ops path) (\<lambda>digest.
           rbind (ao_size ops path) (\<lambda>size.
           Inr \<lparr>ar_id = ''installed-files-inventory-'' @ name, ar_node_id = node_id, ar_path = path,
             ar_sha256 = JStr digest, ar_size = JInt size\<rparr>)))))"

definition package_artifacts :: "artifact_ops \<Rightarrow> (json \<Rightarrow> string) \<Rightarrow> test_node \<Rightarrow> run_exn + artifact_record list" where
  "package_artifacts ops render node =
     (if tn_id node \<noteq> ''package-contracts'' then Inr []
      else rbind (refuse (load_json (ao_json ops) manifest_path)) (\<lambda>manifest.
           rbind (ao_sha256 ops manifest_path) (\<lambda>digest.
           rbind (ao_size ops manifest_path) (\<lambda>size.
           rbind (refuse (py_iterate (case map_of manifest ''artifacts'' of None \<Rightarrow> JArr [] | Some v \<Rightarrow> v))) (\<lambda>artifacts.
           rbind (mapM (manifest_artifact ops render (tn_id node)) artifacts) (\<lambda>built.
           rbind (mapM (component_inventory ops (tn_id node) manifest) [''full'', ''linux'']) (\<lambda>inventories.
           Inr (sort_key ar_id (\<lparr>ar_id = ''package-build-manifest'', ar_node_id = tn_id node, ar_path = manifest_path,
               ar_sha256 = JStr digest, ar_size = JInt size\<rparr> # built @ inventories)))))))))"

section \<open>Evidence and the report files\<close>

record evidence_record =
  ev_run_id :: string
  ev_source :: source_record
  ev_materials :: "material_record list"
  ev_toolchain :: "(string \<times> string) list"
  ev_upstreams :: "(string \<times> string \<times> string) list"
  ev_hardware_queried :: bool
  ev_hardware_writes :: bool
  ev_publication_authorized :: bool
  ev_claims :: "(string \<times> string \<times> status) list"
  ev_artifacts :: "artifact_record list"
  ev_measurements :: "(string \<times> string \<times> int) list"

record evidence_ops =
  eo_json :: "string \<Rightarrow> json option"
  eo_upstreams :: "model_error + (string \<times> string \<times> string) list"
  eo_toolchain :: "model_error + (string \<times> string) list"

fun dict_get :: "json \<Rightarrow> string \<Rightarrow> json \<Rightarrow> model_error + json" where
  "dict_get (JObj kvs) key fallback = Inr (case map_of kvs key of None \<Rightarrow> fallback | Some v \<Rightarrow> v)"
| "dict_get _ key fallback = Inl AttributeError"

definition publication_interlock :: "(string \<times> json) list \<Rightarrow> model_error + unit" where
  "publication_interlock constitution =
     rbind (dict_get (JObj constitution) ''publication_interlock'' (JObj [])) (\<lambda>interlock.
     rbind (dict_get interlock ''publication_authorized'' JNull) (\<lambda>publication.
     case publication of
       JBool _ \<Rightarrow> Inr ()
     | _ \<Rightarrow> Inl (ModelError ''verification evidence requires an explicit publication interlock'')))"

definition evidence ::
  "evidence_ops \<Rightarrow> run_result \<Rightarrow> source_record \<Rightarrow> material_record list \<Rightarrow> artifact_record list \<Rightarrow> model_error + evidence_record" where
  "evidence ops res source materials artifacts =
     rbind (eo_upstreams ops) (\<lambda>upstreams.
     rbind (load_json (eo_json ops) ''architecture/constitution.json'') (\<lambda>constitution.
     rbind (publication_interlock constitution) (\<lambda>_.
     rbind (eo_toolchain ops) (\<lambda>toolchain.
     Inr \<lparr>ev_run_id = rr_run_id res, ev_source = source, ev_materials = materials, ev_toolchain = toolchain,
       ev_upstreams = sort_key fst upstreams, ev_hardware_queried = False, ev_hardware_writes = False,
       ev_publication_authorized = False, ev_claims = evidence_claims (rr_nodes res), ev_artifacts = artifacts,
       ev_measurements = evidence_measurements (rr_nodes res)\<rparr>))))"

text \<open>The texts of the five reports; JSON and XML rendering are parameters.\<close>

record renderers =
  re_result :: "run_result \<Rightarrow> string"
  re_evidence :: "evidence_record \<Rightarrow> string"
  re_junit :: "junit_suite \<Rightarrow> string"
  re_annotations :: "(string \<times> string \<times> string option) list \<Rightarrow> string"

definition report_files :: "renderers \<Rightarrow> string \<Rightarrow> run_result \<Rightarrow> evidence_record \<Rightarrow> (string \<times> string) list" where
  "report_files r output_name res ev = [(''result.json'', re_result r res), (''evidence.json'', re_evidence r ev),
     (''junit.xml'', re_junit r (junit res)), (''annotations.json'', re_annotations r (annotations (rr_nodes res))),
     (''summary.md'', summary res output_name)]"

definition persist ::
  "evidence_ops \<Rightarrow> renderers \<Rightarrow> (string \<Rightarrow> write_faults) \<Rightarrow> string \<Rightarrow> string \<Rightarrow> run_result \<Rightarrow> source_record
    \<Rightarrow> material_record list \<Rightarrow> artifact_record list \<Rightarrow> files \<Rightarrow> (run_exn + unit) \<times> files \<times> files list" where
  "persist ops r faults dir output_name res source materials artifacts fs =
     (case evidence ops res source materials artifacts of
        Inl e \<Rightarrow> (Inl (RunRefused e), fs, [])
      | Inr ev \<Rightarrow>
          let (raised, fs', trace) = write_all faults dir (report_files r output_name res ev) fs
          in (if raised then Inl (IoError ''OSError'') else Inr (), fs', trace))"

text \<open>
  The operations of a run whose reports go to a file system: \<open>_persist\<close> after every change of state.
  \<open>faults\<close> gives, from the rest of the world, the steps that fail.
\<close>

definition recording_ops ::
  "('v \<times> files) run_ops \<Rightarrow> evidence_ops \<Rightarrow> renderers \<Rightarrow> ('v \<Rightarrow> string \<Rightarrow> write_faults) \<Rightarrow> string \<Rightarrow> string
    \<Rightarrow> source_record \<Rightarrow> material_record list \<Rightarrow> ('v \<times> files) run_ops" where
  "recording_ops base ops r faults dir output_name source materials =
     base\<lparr>op_persist := \<lambda>res artifacts (v, fs).
       let (outcome, fs', _) = persist ops r (faults v) dir output_name res source materials artifacts fs
       in (outcome, (v, fs'))\<rparr>"

section \<open>The whole run\<close>

text \<open>
  What \<open>run_verification\<close> asks of its surroundings before and between the tests.  \<open>ve_registry\<close> is the loaded
  protocol registry, \<open>ve_identity\<close> the JSON text of revision, lane, start, time and changed paths.
\<close>

record 'w verification_env =
  ve_git :: "string list \<Rightarrow> process"
  ve_utf8 :: "string \<Rightarrow> bool"
  ve_sha :: "string \<Rightarrow> string"
  ve_glob :: "string \<Rightarrow> tree_entry list"
  ve_registry :: "model_error + protocol_registry"
  ve_tree :: tree_ops
  ve_output :: output_ops
  ve_time_ns :: "'w \<Rightarrow> int"
  ve_identity :: "string \<Rightarrow> string \<Rightarrow> string \<Rightarrow> int \<Rightarrow> string list \<Rightarrow> string"

definition changed_since :: "'w verification_env \<Rightarrow> string option \<Rightarrow> run_exn + (string \<times> string list) option" where
  "changed_since env changed_from = (case changed_from of
     None \<Rightarrow> Inr None
   | Some base \<Rightarrow> rbind (refuse (git_changed_paths (ve_git env) (ve_utf8 env) base)) (\<lambda>changed. Inr (Some changed)))"

definition run_materials :: "'w verification_env \<Rightarrow> run_exn + material_record list" where
  "run_materials env =
     rbind (refuse (ve_registry env)) (\<lambda>registry.
     rbind (material_sources registry) (mapM (material (ve_tree env) (ve_sha env))))"

definition run_identity :: "'w verification_env \<Rightarrow> source_record \<Rightarrow> string \<Rightarrow> string \<Rightarrow> int \<Rightarrow> test_selection \<Rightarrow> string" where
  "run_identity env source lane started now sel =
     ''hfxv-'' @ take 20 (ve_sha env (ve_identity env (src_revision source) lane started now (ts_changed_paths sel)))"

text \<open>
  \<open>run_verification\<close> from its first line to its last, on a file system: \<open>requested\<close> is the argument \<open>output\<close>,
  the result also has the directory of the reports.
\<close>

definition whole_run ::
  "('v \<times> files) run_ops \<Rightarrow> ('v \<times> files) verification_env \<Rightarrow> evidence_ops \<Rightarrow> renderers \<Rightarrow> ('v \<Rightarrow> string \<Rightarrow> write_faults)
    \<Rightarrow> (string list \<Rightarrow> string list) \<Rightarrow> string \<Rightarrow> test_catalog \<Rightarrow> string \<Rightarrow> string option \<Rightarrow> string option
    \<Rightarrow> 'v \<times> files \<Rightarrow> run_exn + (verification_outcome \<times> string) \<times> 'v \<times> files" where
  "whole_run base env ops r faults iteration root_path catalog lane requested changed_from w =
     rbind (refuse (source_identity (ve_git env) (ve_utf8 env) (ve_sha env))) (\<lambda>source.
     rbind (changed_since env changed_from) (\<lambda>changed.
     rbind (refuse (select_tests iteration catalog lane (map_option snd changed))) (\<lambda>sel.
     if unsafe_nodes sel \<noteq> []
     then Inl (RunRefused (ModelError (''software verification selected hardware-authorized nodes: ''
       @ join '', '' (unsafe_nodes sel))))
     else
       let (started, w1) = op_timestamp base w;
           (start_ns, w2) = op_monotonic_ns base w1;
           run_id = run_identity env source lane started (ve_time_ns env w2) sel
       in rbind (prepare_output (ve_output env) root_path requested run_id) (\<lambda>dir.
          rbind (run_materials env) (\<lambda>materials.
          let recorder = recording_ops base ops r faults dir (last (parts_of dir)) source materials;
              res = \<lparr>rr_run_id = run_id, rr_lane = lane, rr_selection = sel, rr_base_revision = map_option fst changed,
                rr_started_at = started, rr_finished_at = None, rr_status = Running, rr_duration_ms = None, rr_nodes = []\<rparr>
          in rbind (run_nodes recorder root_path (input_digest_of (ve_glob env) (ve_sha env)) res sel w2) (\<lambda>st.
             rbind (finish recorder res start_ns st) (\<lambda>(out, w'). Inr ((out, dir), w'))))))))"

section \<open>A digest identifies its files\<close>

lemma big_endian_length [simp]: "length (big_endian k n) = k"
  by (induction k arbitrary: n) simp_all

lemma big_endian_inj: "big_endian k n = big_endian k m \<Longrightarrow> n < 256 ^ k \<Longrightarrow> m < 256 ^ k \<Longrightarrow> n = m"
proof (induction k arbitrary: n m)
  case (Suc k)
  have "big_endian k (n div 256) = big_endian k (m div 256)" and low: "(char_of (n mod 256) :: char) = char_of (m mod 256)"
    using Suc.prems(1) by simp_all
  then have "n div 256 = m div 256" using Suc.prems(2,3) by (intro Suc.IH) (simp_all add: less_mult_imp_div_less mult.commute)
  moreover have "n mod 256 = m mod 256"
    using arg_cong [OF low, of "of_char :: char \<Rightarrow> nat"] by simp
  ultimately show ?case by (metis div_mult_mod_eq)
qed simp

lemma to_bytes_Inr: "to_bytes k n = Inr b \<longleftrightarrow> n < 256 ^ k \<and> b = big_endian k n"
  by (auto simp: to_bytes_def)

definition file_record :: "tree_entry \<Rightarrow> string \<times> nat \<times> string" where
  "file_record e = (te_path e, te_mode e, te_content e)"

definition whole :: "tree_entry \<Rightarrow> bool" where
  "whole e \<longleftrightarrow> te_size e = length (te_content e)"

lemma file_bytes_Inr:
  "file_bytes e = Inr b \<longleftrightarrow> length (te_path e) < 256 ^ 4 \<and> te_mode e < 256 ^ 4 \<and> te_size e < 256 ^ 8
     \<and> b = big_endian 4 (length (te_path e)) @ te_path e @ big_endian 4 (te_mode e) @ big_endian 8 (te_size e) @ te_content e"
  unfolding file_bytes_def rbind_Inr_iff to_bytes_Inr by auto

lemma file_bytes_prefix:
  assumes e: "file_bytes e = Inr p" "whole e" and f: "file_bytes f = Inr q" "whole f" and same: "p @ r = q @ s"
  shows "file_record e = file_record f \<and> r = s"
proof -
  note parts = e(1) [unfolded file_bytes_Inr] f(1) [unfolded file_bytes_Inr]
  have eq: "big_endian 4 (length (te_path e)) @ te_path e @ big_endian 4 (te_mode e) @ big_endian 8 (te_size e) @ te_content e @ r
      = big_endian 4 (length (te_path f)) @ te_path f @ big_endian 4 (te_mode f) @ big_endian 8 (te_size f) @ te_content f @ s"
    using same parts by simp
  then have len: "length (te_path e) = length (te_path f)"
    using big_endian_inj parts by (metis append_eq_append_conv big_endian_length)
  then have path: "te_path e = te_path f"
    and rest: "big_endian 4 (te_mode e) @ big_endian 8 (te_size e) @ te_content e @ r
      = big_endian 4 (te_mode f) @ big_endian 8 (te_size f) @ te_content f @ s"
    using eq by simp_all
  then have "te_mode e = te_mode f" "te_size e = te_size f" "te_content e @ r = te_content f @ s"
    using big_endian_inj parts by (metis append_eq_append_conv big_endian_length)+
  then show ?thesis using path e(2) f(2) by (simp add: file_record_def whole_def)
qed

lemma digest_input_Cons:
  "digest_input (e # es) = Inr b \<longleftrightarrow> (\<exists>p r. file_bytes e = Inr p \<and> digest_input es = Inr r \<and> b = p @ r)"
  by (auto simp: digest_input_def rbind_Inr_iff)

lemma file_bytes_nonempty: "file_bytes e = Inr p \<Longrightarrow> p \<noteq> []"
  unfolding file_bytes_Inr by (metis append_is_Nil_conv big_endian_length list.size(3) zero_neq_numeral)

lemma digest_input_inj:
  "digest_input es = Inr b \<Longrightarrow> digest_input fs = Inr b \<Longrightarrow> \<forall>e \<in> set es \<union> set fs. whole e
    \<Longrightarrow> map file_record es = map file_record fs"
proof (induction es arbitrary: fs b)
  case Nil
  then show ?case
    by (cases fs) (auto simp: digest_input_Cons digest_input_def [of "[]"] dest: file_bytes_nonempty)
next
  case (Cons e es)
  obtain p r where p: "file_bytes e = Inr p" "digest_input es = Inr r" "b = p @ r"
    using Cons.prems(1) by (auto simp: digest_input_Cons)
  obtain f fs' where fs: "fs = f # fs'"
    using Cons.prems(2) p file_bytes_nonempty by (cases fs) (auto simp: digest_input_def)
  obtain q s where q: "file_bytes f = Inr q" "digest_input fs' = Inr s" "b = q @ s"
    using Cons.prems(2) by (auto simp: digest_input_Cons fs)
  have "file_record e = file_record f \<and> r = s"
    by (rule file_bytes_prefix [OF p(1) _ q(1)]) (use Cons.prems(3) p(3) q(3) fs in auto)
  then show ?case using Cons.IH [of r fs'] p(2) q(2) Cons.prems(3) fs by simp
qed

text \<open>
  C32. A digest identifies its files.  When two lists of files have the same digest and SHA-256 does not
  collide on their inputs, they are the same paths in the same order with the same modes and
  contents: the lengths that precede the parts keep neighbouring files from running together.
\<close>

theorem digest_identifies_files:
  assumes "files_digest sha es = Inr d" and "files_digest sha fs = Inr d"
    and "\<And>a b. digest_input es = Inr a \<Longrightarrow> digest_input fs = Inr b \<Longrightarrow> sha a = sha b \<Longrightarrow> a = b"
    and "\<forall>e \<in> set es \<union> set fs. whole e"
  shows "map file_record es = map file_record fs"
proof -
  obtain a b where "digest_input es = Inr a" "digest_input fs = Inr b" "sha a = sha b"
    using assms(1,2) by (auto simp: files_digest_def rbind_Inr_iff)
  then show ?thesis using assms(3) digest_input_inj [OF _ _ assms(4)] by metis
qed

definition ex_entry :: "string \<Rightarrow> string \<Rightarrow> tree_entry" where
  "ex_entry path content = \<lparr>te_path = path, te_symlink = False, te_file = True, te_mode = 420, te_size = length content,
     te_content = content\<rparr>"

theorem digest_identifies_files_witness:
  "map file_record [ex_entry ''a'' ''bc''] = map file_record [(ex_entry ''a'' ''bc'')\<lparr>te_file := False\<rparr>]"
proof -
  obtain d where d: "files_digest id [ex_entry ''a'' ''bc''] = Inr d"
    by (simp add: files_digest_def digest_input_def file_bytes_def to_bytes_def ex_entry_def)
  have same: "files_digest id [(ex_entry ''a'' ''bc'')\<lparr>te_file := False\<rparr>] = Inr d"
    using d by (simp add: files_digest_def digest_input_def file_bytes_def)
  show ?thesis
    by (rule digest_identifies_files [OF d same]) (simp_all add: ex_entry_def whole_def)
qed

section \<open>Reports are replaced whole and in order\<close>

lemma temporary_not_report: "temporary_path dir name \<noteq> report_path dir name"
  by (auto simp: temporary_path_def report_path_def dest: arg_cong [of _ _ length])

lemma partial_writes_other: "g \<in> set (partial_writes fs temp payload) \<Longrightarrow> q \<noteq> temp \<Longrightarrow> g q = fs q"
  by (auto simp: partial_writes_def)

text \<open>What one write does to the other files, to its own, and when it does not raise.\<close>

lemma write_body_states:
  assumes "write_body faults temp path payload fs = (raised, fs', trace)" and "temp \<noteq> path" and "g = fs' \<or> g \<in> set trace"
  shows "q \<noteq> temp \<Longrightarrow> q \<noteq> path \<Longrightarrow> g q = fs q" and "g path = fs path \<or> g path = Some payload"
    and "\<not> raised \<Longrightarrow> fs' path = Some payload"
  using assms partial_writes_other [of g fs temp "take _ payload"] partial_writes_other [of g fs temp payload]
  by (auto simp: write_body_def Let_def split: if_splits option.splits)

lemma write_atomic_states:
  assumes run: "write_atomic faults dir name payload fs = (raised, fs', trace)" and g: "g = fs' \<or> g \<in> set trace"
  shows "q \<noteq> temporary_path dir name \<Longrightarrow> q \<noteq> report_path dir name \<Longrightarrow> g q = fs q"
    and "g (report_path dir name) = fs (report_path dir name) \<or> g (report_path dir name) = Some payload"
    and "\<not> raised \<Longrightarrow> fs' (report_path dir name) = Some payload \<and> fs' (temporary_path dir name) = None"
proof -
  let ?temp = "temporary_path dir name" and ?path = "report_path dir name"
  obtain r f t where body: "write_body faults ?temp ?path payload fs = (r, f, t)" by (metis prod_cases3)
  note body_states = write_body_states [OF body temporary_not_report]
  have out: "raised = (r \<or> f_unlink faults)" "fs' = (if f_unlink faults then f else f(?temp := None))"
      "set trace \<subseteq> insert (f(?temp := None)) (set t)"
    using run by (auto simp: write_atomic_def body Let_def split: if_splits)
  obtain h where h: "h = f \<or> h \<in> set t" "g = h \<or> g = h(?temp := None)"
    using g out(2,3) by (cases "f_unlink faults") auto
  show "q \<noteq> ?temp \<Longrightarrow> q \<noteq> ?path \<Longrightarrow> g q = fs q" using h body_states(1) [OF h(1)] by auto
  show "g ?path = fs ?path \<or> g ?path = Some payload"
    using h body_states(2) [OF h(1)] temporary_not_report by (metis fun_upd_other)
  show "\<not> raised \<Longrightarrow> fs' ?path = Some payload \<and> fs' ?temp = None"
    using out body_states(3) [of f] temporary_not_report [of dir name] by simp
qed

lemma report_path_inj: "report_path dir a = report_path dir b \<longleftrightarrow> a = b"
  by (simp add: report_path_def)

definition plain_name :: "string \<Rightarrow> bool" where
  "plain_name name \<longleftrightarrow> hd (name @ ''.'') \<noteq> CHR ''.''"

lemma plain_not_temporary: "plain_name a \<Longrightarrow> report_path dir a \<noteq> temporary_path dir b"
  by (auto simp: plain_name_def report_path_def temporary_path_def)

lemma write_all_other:
  "write_all faults dir files fs = (raised, fs', trace) \<Longrightarrow> g = fs' \<or> g \<in> set trace \<Longrightarrow> plain_name name
    \<Longrightarrow> name \<notin> fst ` set files \<Longrightarrow> g (report_path dir name) = fs (report_path dir name)"
proof (induction files arbitrary: fs raised fs' trace g)
  case (Cons entry files)
  obtain n payload where entry: "entry = (n, payload)" by (cases entry)
  obtain r f t where one: "write_atomic (faults n) dir n payload fs = (r, f, t)" by (metis prod_cases3)
  have step: "h (report_path dir name) = fs (report_path dir name)" if "h = f \<or> h \<in> set t" for h
    using write_atomic_states(1) [OF one that] Cons.prems(3,4) plain_not_temporary by (auto simp: entry report_path_inj)
  show ?case
  proof (cases r)
    case True
    then show ?thesis using Cons.prems(1,2) step by (auto simp: entry one)
  next
    case False
    obtain r' f' t' where rest: "write_all faults dir files f = (r', f', t')" by (metis prod_cases3)
    then have "g = f' \<or> g \<in> set t \<or> g \<in> set t'" using Cons.prems(1,2) False by (auto simp: entry one)
    then consider "g \<in> set t" | "g = f' \<or> g \<in> set t'" by blast
    then show ?thesis
    proof cases
      case 2
      have "g (report_path dir name) = f (report_path dir name)"
        by (rule Cons.IH [OF rest 2]) (use Cons.prems(3,4) in auto)
      then show ?thesis using step [of f] by simp
    qed (use step in blast)
  qed
qed auto

text \<open>The first \<open>k\<close> of the files are new, the others as they were.\<close>

definition replaced_up_to :: "nat \<Rightarrow> string \<Rightarrow> (string \<times> string) list \<Rightarrow> files \<Rightarrow> files \<Rightarrow> bool" where
  "replaced_up_to k dir files fs g \<longleftrightarrow> (\<forall>i < length files. g (report_path dir (fst (files ! i))) =
     (if i < k then Some (snd (files ! i)) else fs (report_path dir (fst (files ! i)))))"

lemma replaced_Cons:
  "replaced_up_to k dir ((n, payload) # files) fs g \<longleftrightarrow>
     g (report_path dir n) = (if 0 < k then Some payload else fs (report_path dir n)) \<and>
     (\<forall>i < length files. g (report_path dir (fst (files ! i))) =
       (if Suc i < k then Some (snd (files ! i)) else fs (report_path dir (fst (files ! i)))))"
  by (auto simp: replaced_up_to_def less_Suc_eq_0_disj)

lemma write_all_ordered:
  "write_all faults dir files fs = (raised, fs', trace) \<Longrightarrow> distinct (map fst files) \<Longrightarrow> \<forall>(n, p) \<in> set files. plain_name n
    \<Longrightarrow> (g = fs' \<or> g \<in> set trace \<longrightarrow> (\<exists>k \<le> length files. replaced_up_to k dir files fs g))
      \<and> (\<not> raised \<longrightarrow> replaced_up_to (length files) dir files fs fs')"
proof (induction files arbitrary: fs raised fs' trace g)
  case Nil
  then show ?case by (simp add: replaced_up_to_def)
next
  case (Cons entry files)
  obtain n payload where entry: "entry = (n, payload)" by (cases entry)
  obtain r f t where one: "write_atomic (faults n) dir n payload fs = (r, f, t)" by (metis prod_cases3)
  obtain r' f' t' where rest: "write_all faults dir files f = (r', f', t')" by (metis prod_cases3)
  have plain: "plain_name n" "n \<notin> fst ` set files" using Cons.prems(2,3) by (auto simp: entry)
  have others: "plain_name (fst (files ! i)) \<and> fst (files ! i) \<noteq> n" if "i < length files" for i
    using that Cons.prems(2,3) nth_mem [OF that] by (auto simp: entry case_prod_beta)
  have keep: "h (report_path dir (fst (files ! i))) = fs (report_path dir (fst (files ! i)))"
    if "h = f \<or> h \<in> set t" "i < length files" for h i
    using write_atomic_states(1) [OF one that(1)] others [OF that(2)] plain_not_temporary by (simp add: report_path_inj)
  have first: "\<exists>k \<le> Suc (length files). replaced_up_to k dir (entry # files) fs h" if h: "h = f \<or> h \<in> set t" for h
  proof (cases "h (report_path dir n) = fs (report_path dir n)")
    case True
    then show ?thesis using keep [OF h] by (intro exI [of _ 0]) (simp add: entry replaced_Cons)
  next
    case False
    then have "h (report_path dir n) = Some payload" using write_atomic_states(2) [OF one h] by simp
    then show ?thesis using keep [OF h] by (intro exI [of _ 1]) (simp add: entry replaced_Cons)
  qed
  have later: "replaced_up_to (Suc k) dir (entry # files) fs h"
    if "\<not> r" "h = f' \<or> h \<in> set t'" "replaced_up_to k dir files f h" for h k
  proof -
    have "h (report_path dir n) = Some payload"
      using write_all_other [OF rest that(2) plain] write_atomic_states(3) [OF one _ that(1), of f] by simp
    then show ?thesis using that(3) [unfolded replaced_up_to_def] keep [of f] unfolding entry replaced_Cons by simp
  qed
  have rec: "(h = f' \<or> h \<in> set t' \<longrightarrow> (\<exists>k \<le> length files. replaced_up_to k dir files f h))
      \<and> (\<not> r' \<longrightarrow> replaced_up_to (length files) dir files f f')" for h
    by (rule Cons.IH [OF rest]) (use Cons.prems(2,3) in \<open>auto simp: entry\<close>)
  show ?case
  proof (cases r)
    case True
    then show ?thesis using Cons.prems(1) first by (auto simp: entry one)
  next
    case False
    then have out: "raised = r'" "fs' = f'" "trace = t @ t'" using Cons.prems(1) by (auto simp: entry one rest)
    show ?thesis using rec first later [OF False] unfolding out by (metis Un_iff Suc_le_mono length_Cons set_append)
  qed
qed

lemma report_names:
  "distinct (map fst (report_files r output_name res ev))" "\<forall>(n, p) \<in> set (report_files r output_name res ev). plain_name n"
  "length (report_files r output_name res ev) = 5"
  by (simp_all add: report_files_def plain_name_def)

text \<open>
  C31. Reports are replaced whole and in order.  Whatever step fails, in every state the disk goes through each of
  the five reports is either as it was or complete, and the new ones are the first few in the order
  they are written; when \<open>_persist\<close> returns all five are new, and when the evidence is refused none is touched.
\<close>

theorem reports_replaced_in_order:
  assumes "persist ops r faults dir output_name res source materials artifacts fs = (outcome, fs', trace)"
    and "g = fs' \<or> g \<in> set trace"
  shows "case evidence ops res source materials artifacts of
      Inl e \<Rightarrow> g = fs \<and> outcome = Inl (RunRefused e)
    | Inr ev \<Rightarrow> (\<exists>k \<le> 5. replaced_up_to k dir (report_files r output_name res ev) fs g)
        \<and> (outcome = Inr () \<longrightarrow> replaced_up_to 5 dir (report_files r output_name res ev) fs fs')"
proof (cases "evidence ops res source materials artifacts")
  case (Inl e)
  then show ?thesis using assms by (auto simp: persist_def)
next
  case (Inr ev)
  let ?files = "report_files r output_name res ev"
  obtain raised f t where run: "write_all faults dir ?files fs = (raised, f, t)" by (metis prod_cases3)
  have out: "outcome = (if raised then Inl (IoError ''OSError'') else Inr ())" "fs' = f" "trace = t"
    using assms(1) by (auto simp: persist_def Inr run)
  show ?thesis
    using write_all_ordered [OF run report_names(1,2), of g] assms(2) unfolding report_names(3) out Inr
    by (simp split: if_splits)
qed

definition no_faults :: write_faults where
  "no_faults = \<lparr>f_open = False, f_write = None, f_sync = False, f_chmod = False, f_replace = False, f_directory = False,
     f_unlink = False\<rparr>"

definition ex_evidence_ops :: evidence_ops where
  "ex_evidence_ops = \<lparr>eo_json = (\<lambda>_. Some (JObj [(''publication_interlock'', JObj [(''publication_authorized'', JBool False)])])),
     eo_upstreams = Inr [], eo_toolchain = Inr []\<rparr>"

definition ex_renderers :: renderers where
  "ex_renderers = \<lparr>re_result = (\<lambda>_. ''r''), re_evidence = (\<lambda>_. ''e''), re_junit = (\<lambda>_. ''j''), re_annotations = (\<lambda>_. ''a'')\<rparr>"

definition ex_report_run :: run_result where
  "ex_report_run = \<lparr>rr_run_id = ''run'', rr_lane = ''fast'', rr_selection = selection ''fast'' ''lane'' [] [] [], rr_base_revision = None,
     rr_started_at = ''t'', rr_finished_at = None, rr_status = Running, rr_duration_ms = None, rr_nodes = []\<rparr>"

definition ex_source :: source_record where
  "ex_source = \<lparr>src_revision = ''c'', src_commit_epoch = 0, src_worktree = ''clean'', src_worktree_sha256 = ''d''\<rparr>"

text \<open>The write of the third report fails after one byte: a number of whole reports is new.\<close>

theorem reports_replaced_in_order_witness:
  "\<exists>ev k. evidence ex_evidence_ops ex_report_run ex_source [] [] = Inr ev \<and> k \<le> 5 \<and>
     replaced_up_to k ''out'' (report_files ex_renderers ''out'' ex_report_run ev) Map.empty
       (fst (snd (persist ex_evidence_ops ex_renderers
         (\<lambda>n. if n = ''junit.xml'' then no_faults\<lparr>f_write := Some 1\<rparr> else no_faults) ''out'' ''out'' ex_report_run ex_source [] [] Map.empty)))"
proof -
  obtain ev where ev: "evidence ex_evidence_ops ex_report_run ex_source [] [] = Inr ev"
    by (simp add: evidence_def ex_evidence_ops_def load_json_def publication_interlock_def)
  obtain outcome fs' trace where run: "persist ex_evidence_ops ex_renderers
      (\<lambda>n. if n = ''junit.xml'' then no_faults\<lparr>f_write := Some 1\<rparr> else no_faults) ''out'' ''out'' ex_report_run ex_source [] [] Map.empty
        = (outcome, fs', trace)"
    by (metis prod_cases3)
  from reports_replaced_in_order [OF run disjI1 [OF refl]] show ?thesis unfolding run ev by auto
qed

section \<open>The reports say what the run returned\<close>

lemma persist_complete:
  assumes "persist ops r faults dir output_name res source materials artifacts fs = (Inr (), fs', trace)"
  shows "\<exists>ev. evidence ops res source materials artifacts = Inr ev
    \<and> replaced_up_to 5 dir (report_files r output_name res ev) fs fs'"
proof -
  obtain ev where ev: "evidence ops res source materials artifacts = Inr ev"
    using assms by (cases "evidence ops res source materials artifacts") (simp_all add: persist_def)
  obtain raised f t where run: "write_all faults dir (report_files r output_name res ev) fs = (raised, f, t)" by (metis prod_cases3)
  then have "\<not> raised" "f = fs'" using assms by (auto simp: persist_def ev split: if_splits)
  then show ?thesis using write_all_ordered [OF run report_names(1,2)] ev unfolding report_names(3) by simp
qed

lemma replaced_report:
  assumes "replaced_up_to 5 dir (report_files r output_name res ev) fs g" and "(name, payload) \<in> set (report_files r output_name res ev)"
  shows "g (report_path dir name) = Some payload"
proof -
  obtain i where i: "i < 5" "report_files r output_name res ev ! i = (name, payload)"
    using assms(2) unfolding in_set_conv_nth report_names(3) by blast
  then show ?thesis using assms(1) unfolding replaced_up_to_def report_names(3) by (metis fst_conv snd_conv)
qed

lemma finish_recorded:
  assumes "finish (recording_ops base ops r faults dir output_name source materials) res start_ns (nodes, artifacts, w) = Inr (out, (v, fs))"
  shows "\<exists>res' ev fs0. evidence ops res' source materials artifacts = Inr ev \<and> rr_nodes res' = nodes
    \<and> rr_status res' = vo_status out \<and> replaced_up_to 5 dir (report_files r output_name res' ev) fs0 fs"
proof -
  let ?ops = "recording_ops base ops r faults dir output_name source materials"
  let ?verdict = "if failed_ids nodes \<noteq> [] then Failed else Passed"
  obtain finished w1 where 1: "op_timestamp ?ops w = (finished, w1)" by (cases "op_timestamp ?ops w")
  obtain t1 w2 where 2: "op_monotonic_ns ?ops w1 = (t1, w2)" by (cases "op_monotonic_ns ?ops w1")
  define final where "final = res\<lparr>rr_nodes := nodes, rr_status := ?verdict, rr_finished_at := Some finished,
    rr_duration_ms := Some (elapsed_ms start_ns t1)\<rparr>"
  have out: "vo_status out = ?verdict" using finish_Inr(2) [OF assms] by simp
  obtain v2 fs2 where w2: "w2 = (v2, fs2)" by (cases w2)
  obtain outcome fs3 trace where run: "persist ops r (faults v2) dir output_name final source materials artifacts fs2 = (outcome, fs3, trace)"
    by (metis prod_cases3)
  have saved: "op_persist ?ops final artifacts w2 = (outcome, (v2, fs3))" by (simp add: recording_ops_def w2 run)
  have "outcome = Inr ()" "fs3 = fs"
    using assms unfolding finish_def Let_def prod.case 1 2 final_def [symmetric] saved
    by (auto simp: rbind_Inr_iff)
  then obtain ev where "evidence ops final source materials artifacts = Inr ev"
      "replaced_up_to 5 dir (report_files r output_name final ev) fs2 fs"
    using persist_complete run by blast
  moreover have "rr_nodes final = nodes" "rr_status final = vo_status out" by (simp_all add: final_def out)
  ultimately show ?thesis by blast
qed

text \<open>
  C30. The reports say what the run returned.  When a run that records to a file system returns, the file
  system holds all five reports of one result, whose verdict and failed tests are those returned; the
  evidence claims exactly what the tests of that result produced, and claims no hardware access and no
  publication.
\<close>

theorem reports_match_outcome:
  assumes "run_verification (recording_ops base ops r faults dir output_name source materials)
      iteration input_digest root_path catalog lane changed run_id w = Inr (out, (v, fs))"
  shows "\<exists>res ev. (\<forall>(name, payload) \<in> set (report_files r output_name res ev). fs (report_path dir name) = Some payload)
    \<and> rr_status res = vo_status out \<and> failed_ids (rr_nodes res) = vo_failed_nodes out
    \<and> ev_claims ev = evidence_claims (rr_nodes res)
    \<and> \<not> ev_hardware_queried ev \<and> \<not> ev_hardware_writes ev \<and> \<not> ev_publication_authorized ev"
proof -
  obtain res0 start_ns nodes artifacts w2 where out: "finish (recording_ops base ops r faults dir output_name source materials)
      res0 start_ns (nodes, artifacts, w2) = Inr (out, (v, fs))"
    using run_verification_Inr [OF assms] by blast
  obtain res ev fs0 where recorded: "evidence ops res source materials artifacts = Inr ev" "rr_nodes res = nodes"
      "rr_status res = vo_status out" "replaced_up_to 5 dir (report_files r output_name res ev) fs0 fs"
    using finish_recorded [OF out] by blast
  have "ev_claims ev = evidence_claims (rr_nodes res) \<and> \<not> ev_hardware_queried ev \<and> \<not> ev_hardware_writes ev
      \<and> \<not> ev_publication_authorized ev"
    using recorded(1) by (auto simp: evidence_def rbind_Inr_iff)
  moreover have "\<forall>(name, payload) \<in> set (report_files r output_name res ev). fs (report_path dir name) = Some payload"
    using replaced_report [OF recorded(4)] by blast
  moreover have "failed_ids (rr_nodes res) = vo_failed_nodes out" using recorded(2) finish_Inr(1) [OF out] by simp
  ultimately show ?thesis using recorded(3) by (intro exI [of _ res] exI [of _ ev]) simp
qed

text \<open>
  The whole of \<open>run_verification\<close> is the run from the selection on, recording to the directory it prepared, with the
  source, the changed paths and the materials it found before it ran a test.
\<close>

lemma refuse_simps [simp]: "refuse (Inr x) = Inr x" "refuse (Inl e) = Inl (RunRefused e)"
  by (simp_all add: refuse_def)

lemma refuse_Inr: "refuse r = Inr x \<longleftrightarrow> r = Inr x"
  by (cases r) simp_all

lemma recording_clocks [simp]:
  "op_timestamp (recording_ops base ops r faults dir name source materials) = op_timestamp base"
  "op_monotonic_ns (recording_ops base ops r faults dir name source materials) = op_monotonic_ns base"
  by (simp_all add: recording_ops_def)

lemma whole_run_is_run:
  assumes "whole_run base env ops r faults iteration root_path catalog lane requested changed_from w = Inr ((out, dir), w')"
  shows "\<exists>source changed run_id materials.
      source_identity (ve_git env) (ve_utf8 env) (ve_sha env) = Inr source \<and> changed_since env changed_from = Inr changed
    \<and> run_materials env = Inr materials \<and> prepare_output (ve_output env) root_path requested run_id = Inr dir
    \<and> run_verification (recording_ops base ops r faults dir (last (parts_of dir)) source materials) iteration
        (input_digest_of (ve_glob env) (ve_sha env)) root_path catalog lane changed run_id w = Inr (out, w')"
proof -
  obtain source where source: "source_identity (ve_git env) (ve_utf8 env) (ve_sha env) = Inr source"
    using assms unfolding whole_run_def rbind_Inr_iff refuse_Inr by blast
  note run1 = assms [unfolded whole_run_def source refuse_simps rbind_simps]
  obtain changed where changed: "changed_since env changed_from = Inr changed"
    using run1 unfolding rbind_Inr_iff by blast
  note run2 = run1 [unfolded changed rbind_simps]
  obtain sel where sel: "select_tests iteration catalog lane (map_option snd changed) = Inr sel"
    using run2 unfolding rbind_Inr_iff refuse_Inr by blast
  obtain started w1 where 1: "op_timestamp base w = (started, w1)" by (cases "op_timestamp base w")
  obtain start_ns w2 where 2: "op_monotonic_ns base w1 = (start_ns, w2)" by (cases "op_monotonic_ns base w1")
  have safe: "unsafe_nodes sel = []" using run2 by (auto simp: sel split: if_splits)
  note run3 = run2 [unfolded sel refuse_simps rbind_simps safe Let_def 1 prod.case 2, simplified]
  define run_id where "run_id = run_identity env source lane started (ve_time_ns env w2) sel"
  have "\<exists>materials. run_materials env = Inr materials \<and> prepare_output (ve_output env) root_path requested run_id = Inr dir
    \<and> run_verification (recording_ops base ops r faults dir (last (parts_of dir)) source materials) iteration
        (input_digest_of (ve_glob env) (ve_sha env)) root_path catalog lane changed run_id w = Inr (out, w')"
    using run3 unfolding run_id_def [symmetric] run_verification_def sel sum.case safe
    by (auto simp: rbind_Inr_iff Let_def 1 2)
  then show ?thesis using source changed by blast
qed

subsection \<open>Runs whose reports can be written return\<close>

definition persists :: "'w run_ops \<Rightarrow> bool" where
  "persists ops \<longleftrightarrow> (\<forall>res artifacts w. fst (op_persist ops res artifacts w) = Inr ())"

lemma keep_returns: "persists ops \<Longrightarrow> \<exists>w'. keep ops res (nodes, artifacts, w) = Inr (nodes, artifacts, w')"
  unfolding persists_def keep_def by (auto simp: Let_def case_prod_beta)

lemma execute_returns:
  assumes "persists ops"
  shows "\<exists>st'. execute ops root_path res (nodes, artifacts, w) index spec runner = Inr st'"
proof -
  have keeps: "\<exists>w'. keep ops res (ns, a, u) = Inr (ns, a, w')" for ns a u by (rule keep_returns [OF assms])
  obtain t0 w1 where 1: "op_monotonic_ns ops w = (t0, w1)" by (cases "op_monotonic_ns ops w")
  obtain started w2 where 2: "op_timestamp ops w1 = (started, w2)" by (cases "op_timestamp ops w1")
  obtain w3 where 3: "keep ops res (nodes[index := mark_running started (nodes ! index)], artifacts, w2)
      = Inr (nodes[index := mark_running started (nodes ! index)], artifacts, w3)" using keeps by blast
  obtain r w4 where 4: "attempt ops runner spec w3 = (r, w4)" by (cases "attempt ops runner spec w3")
  obtain finished w5 where 5: "op_timestamp ops w4 = (finished, w5)" by (cases "op_timestamp ops w4")
  obtain t1 w6 where 6: "op_monotonic_ns ops w5 = (t1, w6)" by (cases "op_monotonic_ns ops w5")
  show ?thesis
    using keeps unfolding execute_def Let_def prod.case 1 2 3 4 5 6 rbind_simps by blast
qed

lemma run_node_returns:
  assumes "persists ops"
  shows "\<exists>st'. run_node ops root_path res st entry = Inr st'"
proof -
  obtain nodes artifacts w where st: "st = (nodes, artifacts, w)" by (cases st)
  obtain index spec where entry: "entry = (index, spec)" by (cases entry)
  have "\<exists>st'. keep ops res (ns, a, u) = Inr st'" for ns a u using keep_returns [OF assms] by blast
  then show ?thesis
    using execute_returns [OF assms] unfolding run_node_def Let_def st entry prod.case
    by (auto split: option.splits)
qed

lemma foldM_returns: "(\<And>s x. \<exists>s'. f s x = Inr s') \<Longrightarrow> \<exists>s'. foldM f s xs = Inr s'"
proof (induction xs arbitrary: s)
  case (Cons x xs)
  obtain s1 where "f s x = Inr s1" using Cons.prems by blast
  then show ?case using Cons.IH [of s1] Cons.prems by simp
qed simp

lemma run_returns:
  assumes "persists ops" and "\<And>n. \<exists>d. input_digest n = Inr d"
    and "select_tests iteration catalog lane (map_option snd changed) = Inr sel" and "unsafe_nodes sel = []"
  shows "\<exists>out w'. run_verification ops iteration input_digest root_path catalog lane changed run_id w = Inr (out, w')"
proof -
  obtain started w1 where 1: "op_timestamp ops w = (started, w1)" by (cases "op_timestamp ops w")
  obtain start_ns w2 where 2: "op_monotonic_ns ops w1 = (start_ns, w2)" by (cases "op_monotonic_ns ops w1")
  define res where "res = \<lparr>rr_run_id = run_id, rr_lane = lane, rr_selection = sel, rr_base_revision = map_option fst changed,
    rr_started_at = started, rr_finished_at = None, rr_status = Running, rr_duration_ms = None, rr_nodes = []\<rparr>"
  obtain digest where digest: "\<And>n. input_digest n = Inr (digest n)" using assms(2) by metis
  have "\<exists>nodes. mapM (initial_node input_digest) ns = Inr nodes" for ns
    by (induction ns) (auto simp: initial_node_def digest)
  then obtain nodes where nodes: "mapM (initial_node input_digest) (ts_nodes sel) = Inr nodes" by blast
  obtain w3 where w3: "keep ops res (nodes, [], w2) = Inr (nodes, [], w3)" using keep_returns [OF assms(1)] by blast
  obtain st where st: "foldM (run_node ops root_path res) (nodes, [], w3) (enumerate 0 (ts_nodes sel)) = Inr st"
    using foldM_returns [of "run_node ops root_path res", OF run_node_returns [OF assms(1)]] by blast
  have "\<exists>out w'. finish ops res start_ns st = Inr (out, w')"
    using assms(1) unfolding finish_def persists_def by (cases st) (simp add: Let_def case_prod_beta)
  then show ?thesis
    unfolding run_verification_def assms(3) sum.case Let_def 1 prod.case 2 res_def [symmetric] run_nodes_def
    by (simp add: assms(4) nodes w3 st)
qed

lemma write_all_no_faults: "\<not> fst (write_all (\<lambda>_. no_faults) dir entries fs)"
  by (induction entries arbitrary: fs) (auto simp: write_atomic_def write_body_def no_faults_def Let_def case_prod_beta)

definition ex_recording_ops :: "(nat \<times> files) run_ops" where
  "ex_recording_ops = recording_ops
     \<lparr>op_timestamp = \<lambda>(v, fs). (''t'', (Suc v, fs)), op_monotonic_ns = \<lambda>(v, fs). (int v, (Suc v, fs)),
      op_runner = \<lambda>name. Some (\<lambda>n w. (None, w)), op_artifacts = \<lambda>n w. (Inr [], w), op_persist = \<lambda>res a w. (Inr (), w)\<rparr>
     ex_evidence_ops ex_renderers (\<lambda>v n. no_faults) ''out'' ''out'' ex_source []"

lemma ex_recording_persists: "persists ex_recording_ops"
  using write_all_no_faults
  by (auto simp: persists_def ex_recording_ops_def recording_ops_def persist_def evidence_def ex_evidence_ops_def load_json_def
      publication_interlock_def Let_def case_prod_beta)

theorem reports_match_outcome_witness:
  "\<exists>out v fs. run_verification ex_recording_ops id (\<lambda>_. Inr ''ab'') ''/repo'' ex_catalog ''full-software'' None ''run'' (0, Map.empty)
      = Inr (out, (v, fs))
    \<and> (\<exists>res ev. (\<forall>(name, payload) \<in> set (report_files ex_renderers ''out'' res ev). fs (report_path ''out'' name) = Some payload)
      \<and> rr_status res = vo_status out)"
proof -
  have "case select_tests id ex_catalog ''full-software'' None of Inl e \<Rightarrow> False | Inr sel \<Rightarrow> unsafe_nodes sel = []"
    by code_simp
  then obtain sel where sel: "select_tests id ex_catalog ''full-software'' None = Inr sel" "unsafe_nodes sel = []"
    by (cases "select_tests id ex_catalog ''full-software'' None") simp_all
  have "\<exists>out w. run_verification ex_recording_ops id (\<lambda>_. Inr ''ab'') ''/repo'' ex_catalog ''full-software'' None ''run''
      (0, Map.empty) = Inr (out, w)"
    by (rule run_returns [OF ex_recording_persists]) (use sel in simp_all)
  then obtain out v fs where run: "run_verification ex_recording_ops id (\<lambda>_. Inr ''ab'') ''/repo'' ex_catalog ''full-software'' None
      ''run'' (0, Map.empty) = Inr (out, (v, fs))"
    by (metis surj_pair)
  from reports_match_outcome [OF run [unfolded ex_recording_ops_def]] run show ?thesis by blast
qed

end
