(* ===== verification/Native_Command.thy ===== *)
theory Native_Command
  imports Prelude
begin

text \<open>
  The policy of native device commands, \<open>src/tools/hfxdev/native_command.py\<close>: which feature reports may be
  sent to a device, with what payload.  The policy and the catalog compiled from it are decoded JSON; the
  loaders check them and return them.

  Parameters: the documents of files, the upstream index (\<open>integrations.py\<close>), the profiles of the method
  inventory (\<open>native_control.py\<close>), the read methods of the probe catalog (\<open>native_probe.py\<close>) and file
  digests, in \<open>native_world\<close>.  The compilation of the catalog from C sources is not modelled.
\<close>

section \<open>Python values\<close>

text \<open>Python's \<open><\<close> on decoded values, \<open>None\<close> where Python raises \<open>TypeError\<close>.\<close>

fun py_less :: "json \<Rightarrow> json \<Rightarrow> bool option"
and list_less :: "json list \<Rightarrow> json list \<Rightarrow> bool option" where
  "py_less (JStr s) v = (case v of JStr t \<Rightarrow> Some (s < t) | _ \<Rightarrow> None)"
| "py_less (JArr xs) v = (case v of JArr ys \<Rightarrow> list_less xs ys | _ \<Rightarrow> None)"
| "py_less v w = (case (numeric_value v, numeric_value w) of (Some x, Some y) \<Rightarrow> Some (x < y) | _ \<Rightarrow> None)"
| "list_less [] ys = Some (ys \<noteq> [])"
| "list_less (x # xs) ys = (case ys of [] \<Rightarrow> Some False
     | y # zs \<Rightarrow> if py_eq x y then list_less xs zs else py_less x y)"

text \<open>
  \<open>values == sorted(values)\<close>.  \<open>sorted\<close> returns an ascending list after comparing its neighbours; otherwise
  it has to compare values Python cannot order when there are any, and raises \<open>TypeError\<close>.
\<close>

fun ascending :: "json list \<Rightarrow> bool" where
  "ascending (x # y # zs) = (py_less y x = Some False \<and> ascending (y # zs))"
| "ascending _ = True"

fun all_ordered :: "json list \<Rightarrow> bool" where
  "all_ordered [] = True"
| "all_ordered (x # xs) = (list_all (\<lambda>y. py_less x y \<noteq> None \<and> py_less y x \<noteq> None) xs \<and> all_ordered xs)"

definition is_sorted :: "json list \<Rightarrow> model_error + bool" where
  "is_sorted xs = (if ascending xs then Inr True else if all_ordered xs then Inr False else Inl TypeError)"

text \<open>\<open>require_unique\<close> on values that need not be strings: joining the duplicates raises on others.\<close>

fun duplicates_of :: "json list \<Rightarrow> json list \<Rightarrow> json list" where
  "duplicates_of all [] = []"
| "duplicates_of all (x # xs) =
     (if length (filter (py_eq x) all) > 1 then x # duplicates_of all xs else duplicates_of all xs)"

definition unique_values :: "json list \<Rightarrow> string \<Rightarrow> model_error + unit" where
  "unique_values values label =
     (let duplicates = duplicates_of values values
      in if duplicates = [] then Inr ()
         else case json_strs duplicates of
           None \<Rightarrow> Inl TypeError
         | Some names \<Rightarrow> Inl (ModelError (''duplicate '' @ label @ '': '' @ join '', '' (py_sorted (remdups names)))))"

text \<open>\<open>value in {...}\<close> and \<open>mapping.get(value)\<close> hash their value.\<close>

fun hashable :: "json \<Rightarrow> bool" where
  "hashable (JArr _) = False"
| "hashable (JObj _) = False"
| "hashable _ = True"

section \<open>Keys and patterns\<close>

definition POLICY_KEYS :: "string list" where
  "POLICY_KEYS = [''$schema'', ''schema'', ''upstream_id'', ''source_commit'', ''report_size'', ''families'']"

definition FAMILY_KEYS :: "string list" where
  "FAMILY_KEYS = [''device_kind'', ''rules'']"

definition CATALOG_DEVICE_KEYS :: "string list" where
  "CATALOG_DEVICE_KEYS = [''profile_id'', ''rules'']"

definition RULE_KEYS :: "string list" where
  "RULE_KEYS = [''id'', ''methods'', ''command_class'', ''command_id'', ''data_size'', ''matcher'', ''sources'']"

definition SOURCE_KEYS :: "string list" where
  "SOURCE_KEYS = [''path'', ''functions'']"

definition NATIVE_CATALOG_KEYS :: "string list" where
  "NATIVE_CATALOG_KEYS = [''$schema'', ''schema'', ''upstream'', ''policy_sha256'', ''inventory_sha256'',
     ''probe_catalog_sha256'', ''report_size'', ''devices'']"

definition CATALOG_RULE_KEYS :: "string list" where
  "CATALOG_RULE_KEYS = [''id'', ''methods'', ''direction'', ''command_class'', ''command_id'', ''data_size'',
     ''matcher'', ''sources'']"

definition CATALOG_SOURCE_KEYS :: "string list" where
  "CATALOG_SOURCE_KEYS = [''path'', ''function'', ''line'', ''sha256'']"

definition SOURCE_PATHS :: "string list" where
  "SOURCE_PATHS = [''driver/razerchromacommon.c'', ''driver/razerkbd_driver.c'', ''driver/razermouse_driver.c'']"

definition is_rule_identifier :: "string \<Rightarrow> bool" where
  "is_rule_identifier s \<longleftrightarrow> word_of is_lower (\<lambda>c. is_lower c \<or> is_digit c \<or> c = CHR ''_'' \<or> c = CHR ''-'') s \<and> length s \<le> 128"

definition is_function :: "string \<Rightarrow> bool" where
  "is_function s \<longleftrightarrow> take 6 s = ''razer_'' \<and> drop 6 s \<noteq> []
     \<and> list_all (\<lambda>c. is_lower c \<or> is_digit c \<or> c = CHR ''_'') (drop 6 s)"

definition is_digest :: "string \<Rightarrow> bool" where
  "is_digest s \<longleftrightarrow> length s = 64 \<and> list_all (\<lambda>c. is_digit c \<or> c \<in> set ''abcdef'') s"

definition ends_with :: "string \<Rightarrow> string \<Rightarrow> bool" where
  "ends_with suffix s \<longleftrightarrow> length suffix \<le> length s \<and> drop (length s - length suffix) s = suffix"

definition native_keys :: "(string \<times> json) list \<Rightarrow> string list \<Rightarrow> string \<Rightarrow> model_error + unit" where
  "native_keys kvs expected label =
     (let missing = missing_keys kvs expected; extra = unknown_keys kvs expected
      in if missing \<noteq> [] then Inl (ModelError (label @ '': missing keys: '' @ join '', '' missing))
         else if extra \<noteq> [] then Inl (ModelError (label @ '': unsupported keys: '' @ join '', '' extra))
         else Inr ())"

lemma native_keys_Inr: "native_keys kvs expected label = Inr u \<longleftrightarrow> set (map fst kvs) = set expected"
  unfolding native_keys_def Let_def using exact_keys_iff [of kvs expected] by auto

section \<open>Matchers\<close>

text \<open>The number of payload bytes a field constrains, with the checks of its kind.\<close>

definition field_width :: "string \<Rightarrow> (string \<times> json) list \<Rightarrow> model_error + nat" where
  "field_width label field =
     (let kind = get_item field ''kind'' in
      if kind = JStr ''exact'' then
        rbind (native_keys field [''kind'', ''offset'', ''bytes''] label) (\<lambda>_.
        case get_item field ''bytes'' of
          JArr values \<Rightarrow> if values = [] \<or> \<not> list_all (\<lambda>v. bounded_int v 0 255) values
            then Inl (ModelError (label @ '': invalid exact bytes'')) else Inr (length values)
        | _ \<Rightarrow> Inl (ModelError (label @ '': invalid exact bytes'')))
      else if kind = JStr ''one-of'' then
        rbind (native_keys field [''kind'', ''offset'', ''values''] label) (\<lambda>_.
        case get_item field ''values'' of
          JArr values \<Rightarrow>
            if values = [] then Inl (ModelError (label @ '': invalid allowed values''))
            else rbind (is_sorted values) (\<lambda>ordered.
              if \<not> ordered \<or> \<not> list_all (\<lambda>v. bounded_int v 0 255) values
              then Inl (ModelError (label @ '': invalid allowed values''))
              else rbind (unique_values values (label @ '' allowed value'')) (\<lambda>_. Inr 1))
        | _ \<Rightarrow> Inl (ModelError (label @ '': invalid allowed values'')))
      else if kind = JStr ''u8-range'' \<or> kind = JStr ''be16-range'' then
        rbind (native_keys field [''kind'', ''offset'', ''minimum'', ''maximum''] label) (\<lambda>_.
        let top = if kind = JStr ''u8-range'' then 255 else 65535 in
        case (get_item field ''minimum'', get_item field ''maximum'') of
          (JInt lo, JInt hi) \<Rightarrow>
            if bounded_int (JInt lo) 0 top \<and> bounded_int (JInt hi) 0 top \<and> lo \<le> hi
            then Inr (if kind = JStr ''u8-range'' then 1 else 2)
            else Inl (ModelError (label @ (if kind = JStr ''u8-range'' then '': invalid byte range'' else '': invalid big-endian range'')))
        | _ \<Rightarrow> Inl (ModelError (label @ (if kind = JStr ''u8-range'' then '': invalid byte range'' else '': invalid big-endian range''))))
      else if kind = JStr ''rgb'' then
        rbind (native_keys field [''kind'', ''offset'', ''pixels''] label) (\<lambda>_.
        case get_item field ''pixels'' of
          JInt n \<Rightarrow> if bounded_int (JInt n) 1 26 then Inr (nat n * 3)
            else Inl (ModelError (label @ '': invalid RGB pixel count''))
        | _ \<Rightarrow> Inl (ModelError (label @ '': invalid RGB pixel count'')))
      else Inl (ModelError (label @ '': unsupported constraint kind'')))"

definition cover_byte :: "string \<Rightarrow> bool list \<Rightarrow> nat \<Rightarrow> model_error + bool list" where
  "cover_byte label covered i =
     (if covered ! i then Inl (ModelError (label @ '': constraint overlaps another field''))
      else Inr (covered[i := True]))"

definition validate_field :: "string \<Rightarrow> nat \<Rightarrow> bool list \<times> int \<Rightarrow> nat \<times> json \<Rightarrow> model_error + bool list \<times> int" where
  "validate_field label data_size st indexed =
     (let (covered, previous) = st; (index, v) = indexed; field_label = label @ '' field '' @ str_nat index in
      rbind (object_or v (field_label @ '': expected an object'')) (\<lambda>field.
      case get_item field ''offset'' of
        JInt offset \<Rightarrow>
          if \<not> (0 \<le> offset \<and> offset \<le> max (int data_size - 1) 0) then Inl (ModelError (field_label @ '': invalid offset''))
          else if offset \<le> previous then Inl (ModelError (label @ '': fields must be ordered by offset''))
          else rbind (field_width field_label field) (\<lambda>width.
            if nat offset + width > data_size then Inl (ModelError (field_label @ '': constraint exceeds the data payload''))
            else rbind (foldM (cover_byte field_label) covered [nat offset ..< nat offset + width]) (\<lambda>covered'.
              Inr (covered', offset)))
      | _ \<Rightarrow> Inl (ModelError (field_label @ '': invalid offset''))))"

definition validate_fields :: "json \<Rightarrow> nat \<Rightarrow> string \<Rightarrow> model_error + unit" where
  "validate_fields fields data_size label = (case fields of
     JArr xs \<Rightarrow>
       if xs = [] \<or> length xs > 80 then Inl (ModelError (label @ '': fields must be a bounded non-empty list''))
       else rbind (foldM (validate_field label data_size) (replicate data_size False, -1) (enumerate 0 xs)) (\<lambda>(covered, _).
         if \<not> list_all id covered then Inl (ModelError (label @ '': every data byte must have an explicit policy''))
         else Inr ())
   | _ \<Rightarrow> Inl (ModelError (label @ '': fields must be a bounded non-empty list'')))"

definition validate_matcher :: "json \<Rightarrow> nat \<Rightarrow> string \<Rightarrow> model_error + unit" where
  "validate_matcher v data_size label =
     rbind (object_or v (label @ '': matcher must be an object'')) (\<lambda>matcher.
     if get_item matcher ''kind'' = JStr ''fields'' then
       rbind (native_keys matcher [''kind'', ''fields''] label) (\<lambda>_. validate_fields (get_item matcher ''fields'') data_size label)
     else if get_item matcher ''kind'' = JStr ''custom-frame'' then
       rbind (native_keys matcher [''kind'', ''rows'', ''columns''] label) (\<lambda>_.
         if data_size \<noteq> 71 \<or> \<not> bounded_int (get_item matcher ''rows'') 1 32 \<or> \<not> bounded_int (get_item matcher ''columns'') 1 25
         then Inl (ModelError (label @ '': invalid custom-frame geometry'')) else Inr ())
     else if get_item matcher ''kind'' = JStr ''dpi-stages'' then
       rbind (native_keys matcher [''kind'', ''maximum_stages'', ''minimum_dpi'', ''maximum_dpi''] label) (\<lambda>_.
         case (get_item matcher ''minimum_dpi'', get_item matcher ''maximum_dpi'') of
           (JInt lo, JInt hi) \<Rightarrow>
             if data_size \<noteq> 38 \<or> \<not> bounded_int (get_item matcher ''maximum_stages'') 1 5
                \<or> \<not> bounded_int (JInt lo) 1 65535 \<or> \<not> bounded_int (JInt hi) 1 65535 \<or> lo > hi
             then Inl (ModelError (label @ '': invalid DPI-stage policy'')) else Inr ()
         | _ \<Rightarrow> Inl (ModelError (label @ '': invalid DPI-stage policy'')))
     else Inl (ModelError (label @ '': unsupported matcher kind'')))"

section \<open>Policy\<close>

record native_world =
  nw_files :: "string \<Rightarrow> json option"
  nw_upstreams :: "model_error + (string \<times> (string \<times> json) list) list"
  nw_inventory :: "model_error + string list"
  nw_probes :: "model_error + (string \<times> string list) list"
  nw_sha256 :: "string \<Rightarrow> model_error + string"

definition native_path :: "string \<Rightarrow> string \<Rightarrow> string" where
  "native_path repo name = repo @ ''/integrations/openrazer/'' @ name"

text \<open>A non-empty list that is sorted and has only strings of a form.\<close>

definition sorted_names :: "(string \<Rightarrow> bool) \<Rightarrow> json \<Rightarrow> string \<Rightarrow> model_error + string list" where
  "sorted_names form v message = (case v of
     JArr xs \<Rightarrow>
       if xs = [] then Inl (ModelError message)
       else rbind (is_sorted xs) (\<lambda>ordered.
         if \<not> ordered then Inl (ModelError message)
         else case json_strs xs of
           None \<Rightarrow> Inl (ModelError message)
         | Some names \<Rightarrow> if list_all form names then Inr names else Inl (ModelError message))
   | _ \<Rightarrow> Inl (ModelError message))"

definition policy_source :: "string \<Rightarrow> nat \<Rightarrow> json \<Rightarrow> model_error + string" where
  "policy_source rule_label index v =
     (let label = rule_label @ '' source '' @ str_nat index in
      rbind (object_or v (label @ '': expected an object'')) (\<lambda>source.
      rbind (native_keys source SOURCE_KEYS label) (\<lambda>_.
      rbind (in_strings (get_item source ''path'') SOURCE_PATHS) (\<lambda>known.
      if \<not> known then Inl (ModelError (label @ '': invalid source binding''))
      else rbind (sorted_names is_function (get_item source ''functions'') (label @ '': invalid source binding'')) (\<lambda>functions.
      rbind (require_unique functions (label @ '' function'')) (\<lambda>_.
      case get_item source ''path'' of JStr path \<Rightarrow> Inr path | _ \<Rightarrow> Inl TypeError))))))"

definition sources_of :: "string \<Rightarrow> json \<Rightarrow> model_error + string list" where
  "sources_of rule_label v = (case v of
     JArr xs \<Rightarrow> if xs = [] \<or> length xs > 8 then Inl (ModelError (rule_label @ '': invalid source bindings''))
       else mapM_index (policy_source rule_label) xs
   | _ \<Rightarrow> Inl (ModelError (rule_label @ '': invalid source bindings'')))"

text \<open>The identifier, command class, command number and payload size of a rule.\<close>

definition command_signature :: "string \<Rightarrow> (string \<times> json) list \<Rightarrow> model_error + string \<times> nat" where
  "command_signature rule_label rule = (case (get_item rule ''id'', get_item rule ''data_size'') of
     (JStr i, JInt n) \<Rightarrow>
       if is_rule_identifier (map (\<lambda>c. if c = CHR ''-'' then CHR ''_'' else c) i)
          \<and> bounded_int (get_item rule ''command_class'') 0 255 \<and> bounded_int (get_item rule ''command_id'') 0 127
          \<and> bounded_int (JInt n) 1 80
       then Inr (i, nat n) else Inl (ModelError (rule_label @ '': invalid command signature''))
   | _ \<Rightarrow> Inl (ModelError (rule_label @ '': invalid command signature'')))"

definition policy_rule :: "string \<Rightarrow> string \<Rightarrow> nat \<Rightarrow> json \<Rightarrow> model_error + string" where
  "policy_rule family_label device_kind index v =
     (let label = family_label @ '' rule '' @ str_nat index in
      rbind (object_or v (label @ '': expected an object'')) (\<lambda>rule.
      rbind (native_keys rule RULE_KEYS label) (\<lambda>_.
      rbind (command_signature label rule) (\<lambda>(i, data_size).
      rbind (sorted_names (\<lambda>_. True) (get_item rule ''methods'') (label @ '': invalid method list'')) (\<lambda>methods.
      rbind (require_unique methods (label @ '' method'')) (\<lambda>_.
      rbind (validate_matcher (get_item rule ''matcher'') data_size (label @ '' matcher'')) (\<lambda>_.
      rbind (sources_of label (get_item rule ''sources'')) (\<lambda>paths.
      let driver = ''driver/razer'' @ (if device_kind = ''keyboard'' then ''kbd'' else ''mouse'') @ ''_driver.c'' in
      if paths \<noteq> py_sorted paths \<or> \<not> list_ex (ends_with ''razerchromacommon.c'') paths
         \<or> set (filter (ends_with ''_driver.c'') paths) \<noteq> {driver}
      then Inl (ModelError (label @ '': source bindings must include constructor and driver''))
      else Inr i))))))))"

definition policy_family :: "nat \<Rightarrow> json \<Rightarrow> model_error + string" where
  "policy_family index v =
     (let label = ''OpenRazer native command family '' @ str_nat index in
      rbind (object_or v (label @ '': expected an object'')) (\<lambda>family.
      rbind (native_keys family FAMILY_KEYS label) (\<lambda>_.
      rbind (in_strings (get_item family ''device_kind'') [''keyboard'', ''mouse'']) (\<lambda>known.
      case get_item family ''device_kind'' of
        JStr device_kind \<Rightarrow>
          if \<not> known then Inl (ModelError (label @ '': unsupported device kind''))
          else (case get_item family ''rules'' of
            JArr rules \<Rightarrow>
              if rules = [] \<or> length rules > 128 then Inl (ModelError (label @ '': rules must be bounded''))
              else rbind (mapM_index (policy_rule label device_kind) rules) (\<lambda>ids.
                   rbind (require_unique ids (label @ '' rule id'')) (\<lambda>_.
                   if ids \<noteq> py_sorted ids then Inl (ModelError (label @ '': rules must be sorted''))
                   else Inr device_kind))
          | _ \<Rightarrow> Inl (ModelError (label @ '': rules must be bounded'')))
      | _ \<Rightarrow> Inl (ModelError (label @ '': unsupported device kind''))))))"

definition policy_families :: "json \<Rightarrow> model_error + unit" where
  "policy_families v = (case v of
     JArr families \<Rightarrow>
       if families = [] \<or> length families > 8
       then Inl (ModelError ''OpenRazer native command policy families must be bounded'')
       else rbind (mapM_index policy_family families) (\<lambda>kinds.
            rbind (require_unique kinds ''OpenRazer native command family'') (\<lambda>_.
            if set kinds \<noteq> {''keyboard'', ''mouse''}
            then Inl (ModelError ''OpenRazer native command policy must cover mouse and keyboard'')
            else Inr ()))
   | _ \<Rightarrow> Inl (ModelError ''OpenRazer native command policy families must be bounded''))"

text \<open>\<open>upstream_index(root).get(policy["upstream_id"])\<close> and the comparison with the pinned transport.\<close>

definition policy_upstream :: "native_world \<Rightarrow> (string \<times> json) list \<Rightarrow> model_error + unit" where
  "policy_upstream w policy =
     rbind (nw_upstreams w) (\<lambda>index.
     let unknown = ModelError ''OpenRazer native command policy names an unknown upstream'' in
     if \<not> hashable (get_item policy ''upstream_id'') then Inl TypeError
     else case (case get_item policy ''upstream_id'' of JStr s \<Rightarrow> map_of index s | _ \<Rightarrow> None) of
       None \<Rightarrow> Inl unknown
     | Some upstream \<Rightarrow>
         rbind (item upstream ''id'') (\<lambda>i.
         if \<not> py_eq i (JStr ''openrazer'') then Inl unknown
         else rbind (item upstream ''commit'') (\<lambda>commit.
           if \<not> py_eq (get_item policy ''source_commit'') commit \<or> \<not> json_eq_int (get_item policy ''report_size'') 90
           then Inl (ModelError ''OpenRazer native command policy differs from the pinned transport'')
           else Inr ())))"

definition load_native_command_policy :: "native_world \<Rightarrow> string \<Rightarrow> model_error + (string \<times> json) list" where
  "load_native_command_policy w repo =
     rbind (load_json (nw_files w) (native_path repo ''native-command-policy.json'')) (\<lambda>policy.
     rbind (native_keys policy POLICY_KEYS ''OpenRazer native command policy'') (\<lambda>_.
     if get_item policy ''$schema'' \<noteq> JStr ''../../schemas/openrazer-native-command-policy.schema.json''
     then Inl (ModelError ''OpenRazer native command policy schema reference is not canonical'')
     else if get_item policy ''schema'' \<noteq> JStr ''hyperflux-openrazer-native-command-policy-v1''
     then Inl (ModelError ''unsupported OpenRazer native command policy schema'')
     else rbind (policy_upstream w policy) (\<lambda>_.
          rbind (policy_families (get_item policy ''families'')) (\<lambda>_. Inr policy))))"

section \<open>Catalog\<close>

text \<open>\<open>pattern.fullmatch(value)\<close> raises on a value that is no string.\<close>

definition full_match :: "(string \<Rightarrow> bool) \<Rightarrow> json \<Rightarrow> model_error + bool" where
  "full_match form v = (case v of JStr s \<Rightarrow> Inr (form s) | _ \<Rightarrow> Inl TypeError)"

definition catalog_source :: "string \<Rightarrow> nat \<Rightarrow> json \<Rightarrow> model_error + unit" where
  "catalog_source rule_label index v =
     (let label = rule_label @ '' source '' @ str_nat index; invalid = ModelError (label @ '': invalid source record'') in
      rbind (object_or v (label @ '': expected an object'')) (\<lambda>source.
      rbind (native_keys source CATALOG_SOURCE_KEYS label) (\<lambda>_.
      rbind (in_strings (get_item source ''path'') SOURCE_PATHS) (\<lambda>known.
      if \<not> known then Inl invalid
      else rbind (full_match is_function (get_item source ''function'')) (\<lambda>named.
      if \<not> named \<or> \<not> bounded_int (get_item source ''line'') 1 (2 ^ 31 - 1) then Inl invalid
      else rbind (full_match is_digest (get_item source ''sha256'')) (\<lambda>digest.
      if \<not> digest then Inl invalid else Inr ()))))))"

definition command_direction :: "string \<Rightarrow> (string \<times> json) list \<Rightarrow> model_error + bool \<times> nat" where
  "command_direction label rule =
     rbind (in_strings (get_item rule ''direction'') [''read'', ''write'']) (\<lambda>known.
     case (get_item rule ''command_id'', get_item rule ''data_size'') of
       (JInt c, JInt n) \<Rightarrow>
         if \<not> known \<or> \<not> bounded_int (JInt c) 0 255 \<or> (c \<ge> 128) \<noteq> (get_item rule ''direction'' = JStr ''read'')
            \<or> \<not> bounded_int (get_item rule ''command_class'') 0 255 \<or> \<not> bounded_int (JInt n) 1 80
         then Inl (ModelError (label @ '': invalid command direction''))
         else Inr (get_item rule ''direction'' = JStr ''read'', nat n)
     | _ \<Rightarrow> Inl (ModelError (label @ '': invalid command direction'')))"

text \<open>A rule's identifier and the read methods it adds.\<close>

definition catalog_rule :: "string \<Rightarrow> nat \<Rightarrow> json \<Rightarrow> model_error + json \<times> json list" where
  "catalog_rule device_label index v =
     (let label = device_label @ '' rule '' @ str_nat index in
      rbind (object_or v (label @ '': expected an object'')) (\<lambda>rule.
      rbind (native_keys rule CATALOG_RULE_KEYS label) (\<lambda>_.
      rbind (command_direction label rule) (\<lambda>(reads, data_size).
      rbind (validate_matcher (get_item rule ''matcher'') data_size (label @ '' matcher'')) (\<lambda>_.
      case get_item rule ''sources'' of
        JArr sources \<Rightarrow>
          if sources = [] \<or> length sources > 32 then Inl (ModelError (label @ '': invalid source records''))
          else rbind (mapM_index (catalog_source label) sources) (\<lambda>_.
            if reads then
              rbind (py_iterate (get_item rule ''methods'')) (\<lambda>methods.
                if list_all hashable methods then Inr (get_item rule ''id'', methods) else Inl TypeError)
            else Inr (get_item rule ''id'', []))
      | _ \<Rightarrow> Inl (ModelError (label @ '': invalid source records'')))))))"

definition catalog_device :: "(string \<times> string list) list \<Rightarrow> nat \<Rightarrow> json \<Rightarrow> model_error + string" where
  "catalog_device expected_read index v =
     (let label = ''OpenRazer native command catalog device '' @ str_nat index in
      rbind (object_or v (label @ '': expected an object'')) (\<lambda>device.
      rbind (native_keys device CATALOG_DEVICE_KEYS label) (\<lambda>_.
      case get_item device ''rules'' of
        JArr rules \<Rightarrow>
          if rules = [] \<or> length rules > 256 then Inl (ModelError (label @ '': invalid rules''))
          else rbind (mapM_index (catalog_rule label) rules) (\<lambda>checked.
               rbind (unique_values (map fst checked) (label @ '' rule id'')) (\<lambda>_.
               rbind (is_sorted (map fst checked)) (\<lambda>ordered.
               if \<not> ordered then Inl (ModelError (label @ '': rules must be sorted''))
               else if \<not> hashable (get_item device ''profile_id'') then Inl TypeError
               else case get_item device ''profile_id'' of
                 JStr profile \<Rightarrow> (case map_of expected_read profile of
                   Some methods \<Rightarrow>
                     if set (concat (map snd checked)) \<noteq> set (map JStr methods)
                     then Inl (ModelError (label @ '': read policy coverage drifted'')) else Inr profile
                 | None \<Rightarrow> Inl (ModelError (label @ '': read policy coverage drifted'')))
               | _ \<Rightarrow> Inl (ModelError (label @ '': read policy coverage drifted'')))))
      | _ \<Rightarrow> Inl (ModelError (label @ '': invalid rules'')))))"

definition catalog_devices :: "native_world \<Rightarrow> json \<Rightarrow> model_error + unit" where
  "catalog_devices w v =
     rbind (nw_inventory w) (\<lambda>profiles.
     rbind (nw_probes w) (\<lambda>probes.
     rbind (py_iterate v) (\<lambda>devices.
     rbind (mapM_index (catalog_device probes) devices) (\<lambda>checked.
     rbind (require_unique checked ''OpenRazer native command catalog profile'') (\<lambda>_.
     if checked \<noteq> py_sorted profiles
     then Inl (ModelError ''OpenRazer native command catalog profile coverage drifted'') else Inr ())))))"

definition catalog_upstream :: "native_world \<Rightarrow> json \<Rightarrow> model_error + unit" where
  "catalog_upstream w v =
     rbind (nw_upstreams w) (\<lambda>index.
     case map_of index ''openrazer'' of
       None \<Rightarrow> Inl (KeyError ''openrazer'')
     | Some upstream \<Rightarrow>
         rbind (mapM (\<lambda>key. rbind (item upstream key) (\<lambda>x. Inr (key, x)))
           [''id'', ''repository'', ''version'', ''commit'', ''license_expression'']) (\<lambda>expected.
         if \<not> py_eq v (JObj expected) then Inl (ModelError ''OpenRazer native command catalog upstream binding drifted'')
         else Inr ()))"

definition catalog_digest :: "native_world \<Rightarrow> string \<Rightarrow> (string \<times> json) list \<Rightarrow> string \<times> string \<Rightarrow> model_error + unit" where
  "catalog_digest w repo catalog = (\<lambda>(field, source_path).
     rbind (nw_sha256 w (native_path repo source_path)) (\<lambda>expected.
     if get_item catalog field \<noteq> JStr expected
     then Inl (ModelError (''OpenRazer native command catalog '' @ field @ '' is stale'')) else Inr ()))"

definition load_native_command_catalog :: "native_world \<Rightarrow> string \<Rightarrow> model_error + (string \<times> json) list" where
  "load_native_command_catalog w repo =
     rbind (load_json (nw_files w) (native_path repo ''native-command-catalog.json'')) (\<lambda>catalog.
     rbind (native_keys catalog NATIVE_CATALOG_KEYS ''OpenRazer native command catalog'') (\<lambda>_.
     if get_item catalog ''$schema'' \<noteq> JStr ''../../schemas/openrazer-native-command-catalog.schema.json''
     then Inl (ModelError ''OpenRazer native command catalog schema reference is not canonical'')
     else if get_item catalog ''schema'' \<noteq> JStr ''hyperflux-openrazer-native-command-catalog-v1''
        \<or> \<not> json_eq_int (get_item catalog ''report_size'') 90
     then Inl (ModelError ''unsupported OpenRazer native command catalog schema'')
     else rbind (catalog_upstream w (get_item catalog ''upstream'')) (\<lambda>_.
          rbind (each (catalog_digest w repo catalog)
            [(''policy_sha256'', ''native-command-policy.json''), (''inventory_sha256'', ''native-method-inventory.json''),
             (''probe_catalog_sha256'', ''native-probe-catalog.json'')]) (\<lambda>_.
          rbind (load_native_command_policy w repo) (\<lambda>_.
          rbind (catalog_devices w (get_item catalog ''devices'')) (\<lambda>_. Inr catalog))))))"

section \<open>Fixed bytes of a source function\<close>

text \<open>
  What a field says of a byte the source fixes: nothing when the byte is outside it, else whether the
  byte is allowed.  The fields are those \<open>validate_fields\<close> accepted.
\<close>

definition field_allows_fixed_byte :: "(string \<times> json) list \<Rightarrow> nat \<Rightarrow> int \<Rightarrow> model_error + bool option" where
  "field_allows_fixed_byte field offset b =
     (case (get_item field ''offset'', get_item field ''kind'') of
        (JInt start, JStr kind) \<Rightarrow>
          rbind (if kind = ''exact'' then (case get_item field ''bytes'' of JArr bs \<Rightarrow> Inr (length bs) | _ \<Rightarrow> Inl TypeError)
                 else if kind = ''one-of'' \<or> kind = ''u8-range'' then Inr 1
                 else if kind = ''be16-range'' then Inr 2
                 else if kind = ''rgb'' then (case get_item field ''pixels'' of JInt n \<Rightarrow> Inr (nat n * 3) | _ \<Rightarrow> Inl TypeError)
                 else Inl (ModelError (''unsupported fixed-byte matcher kind: '' @ kind))) (\<lambda>width.
          if \<not> (start \<le> int offset \<and> int offset < start + int width) then Inr None
          else if kind = ''exact'' then
            (case get_item field ''bytes'' of JArr bs \<Rightarrow> Inr (Some (json_eq_int (bs ! (offset - nat start)) b)) | _ \<Rightarrow> Inl TypeError)
          else if kind = ''one-of'' then
            (case get_item field ''values'' of JArr vs \<Rightarrow> Inr (Some (list_ex (\<lambda>v. json_eq_int v b) vs)) | _ \<Rightarrow> Inl TypeError)
          else if kind = ''u8-range'' then
            (case (get_item field ''minimum'', get_item field ''maximum'') of
               (JInt lo, JInt hi) \<Rightarrow> Inr (Some (lo \<le> b \<and> b \<le> hi)) | _ \<Rightarrow> Inl TypeError)
          else Inr (Some True))
      | _ \<Rightarrow> Inl TypeError)"

section \<open>Every payload byte is governed once\<close>

definition governs :: "int \<Rightarrow> nat \<Rightarrow> json \<Rightarrow> bool" where
  "governs b i v = (case v of
     JObj field \<Rightarrow> (case field_allows_fixed_byte field i b of Inr (Some _) \<Rightarrow> True | _ \<Rightarrow> False)
   | _ \<Rightarrow> False)"

lemma in_span: "0 \<le> start \<Longrightarrow> (start \<le> int i \<and> int i < start + int width) \<longleftrightarrow> nat start \<le> i \<and> i < nat start + width"
  by linarith

lemma field_width_governs:
  assumes width: "field_width label field = Inr width" and offset: "get_item field ''offset'' = JInt start" "0 \<le> start"
  shows "governs b i (JObj field) \<longleftrightarrow> nat start \<le> i \<and> i < nat start + width"
proof -
  obtain kind where kind: "get_item field ''kind'' = JStr kind"
    using width unfolding field_width_def Let_def by (cases "get_item field ''kind''") simp_all
  show ?thesis
    using width in_span [OF offset(2), of i width]
    unfolding field_width_def governs_def field_allows_fixed_byte_def kind offset(1) Let_def json.inject json.case
    by (auto simp: rbind_Inr_iff split: if_splits json.splits)
qed

lemma cover_bytes:
  "foldM (cover_byte label) covered [a ..< a + w] = Inr covered' \<Longrightarrow> a + w \<le> length covered
    \<Longrightarrow> length covered' = length covered \<and> (\<forall>i < length covered.
      of_bool (covered ! i) + of_bool (a \<le> i \<and> i < a + w) = (of_bool (covered' ! i) :: nat))"
proof (induction w arbitrary: covered')
  case (Suc w)
  have "[a ..< a + Suc w] = [a ..< a + w] @ [a + w]" by simp
  then obtain mid where mid: "foldM (cover_byte label) covered [a ..< a + w] = Inr mid" "cover_byte label mid (a + w) = Inr covered'"
    using Suc.prems(1) by (auto simp: foldM_append rbind_Inr_iff)
  have fresh: "\<not> mid ! (a + w)" "covered' = mid[a + w := True]" using mid(2) by (auto simp: cover_byte_def split: if_splits)
  have IH: "length mid = length covered" "\<forall>i < length covered. of_bool (covered ! i) + of_bool (a \<le> i \<and> i < a + w) = (of_bool (mid ! i) :: nat)"
    using Suc.IH [OF mid(1)] Suc.prems(2) by simp_all
  have "of_bool (covered ! i) + of_bool (a \<le> i \<and> i < a + Suc w) = (of_bool (covered' ! i) :: nat)" if i: "i < length covered" for i
  proof (cases "i = a + w")
    case True
    then show ?thesis using IH(2) [rule_format, OF i] fresh i IH(1) by simp
  next
    case False
    then have "(a \<le> i \<and> i < a + Suc w) = (a \<le> i \<and> i < a + w)" by auto
    then show ?thesis using IH(2) [rule_format, OF i] fresh(2) False by simp
  qed
  then show ?case using IH(1) fresh(2) by simp
qed simp

lemma validate_field_governs:
  assumes "validate_field label n (covered, previous) (index, v) = Inr (covered', offset)" and "length covered = n"
  shows "length covered' = n \<and> (\<forall>i < n. of_bool (covered ! i) + of_bool (governs b i v) = (of_bool (covered' ! i) :: nat))"
proof -
  obtain field start width where v: "v = JObj field" and start: "get_item field ''offset'' = JInt start" "0 \<le> start"
    and width: "field_width (label @ '' field '' @ str_nat index) field = Inr width" and fits: "nat start + width \<le> n"
    and cover: "foldM (cover_byte (label @ '' field '' @ str_nat index)) covered [nat start ..< nat start + width] = Inr covered'"
    using assms(1) unfolding validate_field_def Let_def object_or_def
    by (auto simp: rbind_Inr_iff split: json.splits if_splits)
  show ?thesis
    using cover_bytes [OF cover] fits assms(2) field_width_governs [OF width start] unfolding v by simp
qed

lemma validate_fields_count:
  "foldM (validate_field label n) (covered, previous) (enumerate s xs) = Inr (covered', final) \<Longrightarrow> length covered = n
    \<Longrightarrow> length covered' = n \<and> (\<forall>i < n. of_bool (covered ! i) + length (filter (governs b i) xs) = of_bool (covered' ! i))"
proof (induction xs arbitrary: s covered previous)
  case (Cons v xs)
  obtain mid offset where mid: "validate_field label n (covered, previous) (s, v) = Inr (mid, offset)"
      "foldM (validate_field label n) (mid, offset) (enumerate (Suc s) xs) = Inr (covered', final)"
    using Cons.prems(1) by (auto simp: rbind_Inr_iff)
  note step = validate_field_governs [OF mid(1) Cons.prems(2), of b]
  note rest = Cons.IH [OF mid(2)]
  have "of_bool (covered ! i) + length (filter (governs b i) (v # xs)) = of_bool (covered' ! i)" if i: "i < n" for i
  proof -
    have "of_bool (covered ! i) + of_bool (governs b i v) = (of_bool (mid ! i) :: nat)" using step i by blast
    moreover have "of_bool (mid ! i) + length (filter (governs b i) xs) = of_bool (covered' ! i)" using rest step i by blast
    moreover have "length (filter (governs b i) (v # xs)) = of_bool (governs b i v) + length (filter (governs b i) xs)" by simp
    ultimately show ?thesis by presburger
  qed
  then show ?case using step rest by blast
qed simp

text \<open>The constraints of a field are bytes, an increasing list of bytes, ranges with members, or whole pixels.\<close>

definition field_bounded :: "json \<Rightarrow> bool" where
  "field_bounded v \<longleftrightarrow> (\<exists>field. v = JObj field \<and>
     (get_item field ''kind'' = JStr ''exact''
        \<and> (\<exists>bs. get_item field ''bytes'' = JArr (map JInt bs) \<and> bs \<noteq> [] \<and> set bs \<subseteq> {0..255})
      \<or> get_item field ''kind'' = JStr ''one-of''
        \<and> (\<exists>bs. get_item field ''values'' = JArr (map JInt bs) \<and> bs \<noteq> [] \<and> set bs \<subseteq> {0..255} \<and> sorted_wrt (<) bs)
      \<or> get_item field ''kind'' = JStr ''u8-range''
        \<and> (\<exists>lo hi. get_item field ''minimum'' = JInt lo \<and> get_item field ''maximum'' = JInt hi \<and> 0 \<le> lo \<and> lo \<le> hi \<and> hi \<le> 255)
      \<or> get_item field ''kind'' = JStr ''be16-range''
        \<and> (\<exists>lo hi. get_item field ''minimum'' = JInt lo \<and> get_item field ''maximum'' = JInt hi \<and> 0 \<le> lo \<and> lo \<le> hi \<and> hi \<le> 65535)
      \<or> get_item field ''kind'' = JStr ''rgb''
        \<and> (\<exists>n. get_item field ''pixels'' = JInt n \<and> 1 \<le> n \<and> n \<le> 26)))"

lemma bounded_ints:
  "list_all (\<lambda>v. bounded_int v lo hi) vs \<Longrightarrow> \<exists>ns. vs = map JInt ns \<and> set ns \<subseteq> {lo..hi}"
proof (induction vs)
  case (Cons v vs)
  then obtain ns n where "vs = map JInt ns" "set ns \<subseteq> {lo..hi}" "v = JInt n" "lo \<le> n" "n \<le> hi"
    by (auto simp: bounded_int_iff)
  then show ?case by (intro exI [of _ "n # ns"]) simp
qed simp

lemma ascending_ints: "ascending (map JInt ns) \<Longrightarrow> sorted ns"
  by (induction ns rule: induct_list012) (auto simp: not_less)

lemma duplicates_of_Nil: "duplicates_of all xs = [] \<Longrightarrow> x \<in> set xs \<Longrightarrow> length (filter (py_eq x) all) \<le> 1"
  by (induction xs) (auto split: if_splits)

lemma same_ints: "length (filter (py_eq (JInt n)) (map JInt ns)) = count_list ns n"
  by (induction ns) auto

lemma unique_ints:
  assumes "unique_values (map JInt ns) label = Inr ()"
  shows "distinct ns"
proof -
  have "duplicates_of (map JInt ns) (map JInt ns) = []"
    using assms unfolding unique_values_def Let_def by (auto split: if_splits option.splits)
  then have "count_list ns n \<le> 1" if "n \<in> set ns" for n
    using duplicates_of_Nil [of "map JInt ns" "map JInt ns" "JInt n"] that same_ints [of n ns] by simp
  then show ?thesis by (simp add: distinct_iff_count_list le_Suc_eq count_list_0_iff)
qed

lemma field_width_bounded:
  assumes width: "field_width label field = Inr width"
  shows "field_bounded (JObj field)"
proof -
  let ?kind = "get_item field ''kind''"
  note run = width [unfolded field_width_def Let_def]
  consider "?kind = JStr ''exact''" | "?kind = JStr ''one-of''" | "?kind = JStr ''u8-range''" | "?kind = JStr ''be16-range''"
    | "?kind = JStr ''rgb''"
    using run by (simp only: split: if_splits) simp_all
  then show ?thesis
  proof cases
    case 1
    then obtain vs where vs: "get_item field ''bytes'' = JArr vs" "vs \<noteq> []" "list_all (\<lambda>v. bounded_int v 0 255) vs"
      using run by (auto simp: rbind_Inr_iff split: json.splits if_splits)
    then show ?thesis using 1 bounded_ints [OF vs(3)] unfolding field_bounded_def by auto
  next
    case 2
    then obtain vs ordered where vs: "get_item field ''values'' = JArr vs" "vs \<noteq> []" "is_sorted vs = Inr ordered" ordered
        "list_all (\<lambda>v. bounded_int v 0 255) vs" "unique_values vs (label @ '' allowed value'') = Inr ()"
      using run by (auto simp: rbind_Inr_iff split: json.splits if_splits)
    obtain ns where ns: "vs = map JInt ns" "set ns \<subseteq> {0..255}" using bounded_ints [OF vs(5)] by blast
    have "sorted ns" using vs(3,4) unfolding is_sorted_def ns(1) by (auto dest: ascending_ints split: if_splits)
    then have "sorted_wrt (<) ns" using unique_ints vs(6) unfolding ns(1) by (simp add: strict_sorted_iff)
    then show ?thesis using 2 vs(1,2) ns unfolding field_bounded_def by auto
  next
    case 3
    obtain lo hi where range: "get_item field ''minimum'' = JInt lo" "get_item field ''maximum'' = JInt hi"
      using run unfolding 3 by (cases "get_item field ''minimum''"; cases "get_item field ''maximum''") (simp_all add: rbind_Inr_iff)
    then have "0 \<le> lo \<and> lo \<le> hi \<and> hi \<le> 255"
      using run unfolding 3 by (simp add: rbind_Inr_iff bounded_int_def split: if_splits)
    then show ?thesis using 3 range unfolding field_bounded_def by blast
  next
    case 4
    obtain lo hi where range: "get_item field ''minimum'' = JInt lo" "get_item field ''maximum'' = JInt hi"
      using run unfolding 4 by (cases "get_item field ''minimum''"; cases "get_item field ''maximum''") (simp_all add: rbind_Inr_iff)
    then have "0 \<le> lo \<and> lo \<le> hi \<and> hi \<le> 65535"
      using run unfolding 4 by (simp add: rbind_Inr_iff bounded_int_def split: if_splits)
    then show ?thesis using 4 range unfolding field_bounded_def by blast
  next
    case 5
    obtain pixels where pixels: "get_item field ''pixels'' = JInt pixels"
      using run unfolding 5 by (cases "get_item field ''pixels''") (simp_all add: rbind_Inr_iff)
    then have "1 \<le> pixels \<and> pixels \<le> 26"
      using run unfolding 5 by (simp add: rbind_Inr_iff bounded_int_def split: if_splits)
    then show ?thesis using 5 pixels unfolding field_bounded_def by blast
  qed
qed

lemma validate_fields_bounded:
  "foldM (validate_field label n) st (enumerate s xs) = Inr st' \<Longrightarrow> v \<in> set xs \<Longrightarrow> field_bounded v"
proof (induction xs arbitrary: s st)
  case (Cons x xs)
  obtain mid where mid: "validate_field label n st (s, x) = Inr mid" "foldM (validate_field label n) mid (enumerate (Suc s) xs) = Inr st'"
    using Cons.prems(1) by (auto simp: rbind_Inr_iff)
  have "field_bounded x"
    using mid(1) unfolding validate_field_def Let_def object_or_def
    by (auto simp: rbind_Inr_iff case_prod_beta split: json.splits if_splits dest: field_width_bounded)
  then show ?case using Cons.IH [OF mid(2)] Cons.prems(2) by auto
qed simp

lemma validate_fields_partition:
  assumes "validate_fields v n label = Inr ()"
  shows "\<exists>xs. v = JArr xs \<and> (\<forall>x \<in> set xs. field_bounded x) \<and> (\<forall>i < n. \<forall>b. length (filter (governs b i) xs) = 1)"
proof -
  obtain xs covered final where v: "v = JArr xs" and all: "list_all id covered"
    and run: "foldM (validate_field label n) (replicate n False, -1) (enumerate 0 xs) = Inr (covered, final)"
    using assms unfolding validate_fields_def
    by (auto simp: rbind_Inr_iff split: json.splits if_splits prod.splits)
  have "length (filter (governs b i) xs) = 1" if "i < n" for i b
    using validate_fields_count [OF run, of b] all that by (auto simp: list_all_length)
  then show ?thesis using v validate_fields_bounded [OF run] by blast
qed

text \<open>
  What the two loaders promise of a matcher for a payload of \<open>n\<close> bytes: fields within their bounds, exactly one
  of them for each byte, or a lighting frame within its geometry, or resolution stages within theirs.
\<close>

definition matcher_governs :: "nat \<Rightarrow> json \<Rightarrow> bool" where
  "matcher_governs n v \<longleftrightarrow> (\<exists>matcher. v = JObj matcher \<and>
     (get_item matcher ''kind'' = JStr ''fields'' \<and> set (map fst matcher) = {''kind'', ''fields''}
        \<and> (\<exists>xs. get_item matcher ''fields'' = JArr xs \<and> (\<forall>x \<in> set xs. field_bounded x)
             \<and> (\<forall>i < n. \<forall>b. length (filter (governs b i) xs) = 1))
      \<or> get_item matcher ''kind'' = JStr ''custom-frame'' \<and> set (map fst matcher) = {''kind'', ''rows'', ''columns''}
        \<and> n = 71 \<and> (\<exists>rows columns. get_item matcher ''rows'' = JInt rows \<and> get_item matcher ''columns'' = JInt columns
             \<and> 1 \<le> rows \<and> rows \<le> 32 \<and> 1 \<le> columns \<and> columns \<le> 25)
      \<or> get_item matcher ''kind'' = JStr ''dpi-stages''
        \<and> set (map fst matcher) = {''kind'', ''maximum_stages'', ''minimum_dpi'', ''maximum_dpi''}
        \<and> n = 38 \<and> (\<exists>stages lo hi. get_item matcher ''maximum_stages'' = JInt stages \<and> get_item matcher ''minimum_dpi'' = JInt lo
             \<and> get_item matcher ''maximum_dpi'' = JInt hi \<and> 1 \<le> stages \<and> stages \<le> 5 \<and> 1 \<le> lo \<and> lo \<le> hi \<and> hi \<le> 65535)))"

definition rule_governed :: "json \<Rightarrow> bool" where
  "rule_governed v \<longleftrightarrow> (\<exists>rule n. v = JObj rule \<and> get_item rule ''data_size'' = JInt (int n) \<and> 1 \<le> n \<and> n \<le> 80
     \<and> matcher_governs n (get_item rule ''matcher''))"

definition writes_command :: "json \<Rightarrow> bool" where
  "writes_command v \<longleftrightarrow> (\<exists>rule c. v = JObj rule \<and> get_item rule ''command_id'' = JInt c \<and> 0 \<le> c \<and> c < 128)"

definition directed_command :: "json \<Rightarrow> bool" where
  "directed_command v \<longleftrightarrow> (\<exists>rule c. v = JObj rule \<and> get_item rule ''command_id'' = JInt c \<and> 0 \<le> c \<and> c < 256
     \<and> get_item rule ''direction'' = JStr (if c < 128 then ''write'' else ''read''))"

lemma validate_matcher_governs:
  assumes "validate_matcher v n label = Inr ()"
  shows "matcher_governs n v"
proof -
  obtain matcher where v: "v = JObj matcher"
    using assms unfolding validate_matcher_def object_or_def by (cases v) simp_all
  let ?kind = "get_item matcher ''kind''"
  note run = assms [unfolded validate_matcher_def object_or_def v json.case rbind_simps]
  consider "?kind = JStr ''fields''" | "?kind = JStr ''custom-frame''" | "?kind = JStr ''dpi-stages''"
    using run by (simp only: split: if_splits) simp_all
  then show ?thesis
  proof cases
    case 1
    then have keys: "set (map fst matcher) = {''kind'', ''fields''}"
      and "validate_fields (get_item matcher ''fields'') n label = Inr ()" using run by (auto simp: rbind_Inr_iff native_keys_Inr)
    note fields = validate_fields_partition [OF this(2)]
    show ?thesis unfolding matcher_governs_def v by (intro exI [of _ matcher] conjI refl disjI1 1 keys fields)
  next
    case 2
    have frame: "set (map fst matcher) = {''kind'', ''rows'', ''columns''}" "n = 71"
        "bounded_int (get_item matcher ''rows'') 1 32" "bounded_int (get_item matcher ''columns'') 1 25"
      using run unfolding 2 by (simp_all add: rbind_Inr_iff native_keys_Inr split: if_splits)
    have geometry: "\<exists>rows columns. get_item matcher ''rows'' = JInt rows \<and> get_item matcher ''columns'' = JInt columns
        \<and> 1 \<le> rows \<and> rows \<le> 32 \<and> 1 \<le> columns \<and> columns \<le> 25" using frame(3,4) by (auto simp only: bounded_int_iff)
    show ?thesis unfolding matcher_governs_def v
      by (rule exI [of _ matcher], intro conjI refl, rule disjI2, rule disjI1, intro conjI 2 frame(1,2) geometry)
  next
    case 3
    obtain lo hi where range: "get_item matcher ''minimum_dpi'' = JInt lo" "get_item matcher ''maximum_dpi'' = JInt hi"
      using run unfolding 3 by (cases "get_item matcher ''minimum_dpi''"; cases "get_item matcher ''maximum_dpi''") (simp_all add: rbind_Inr_iff)
    have keys: "set (map fst matcher) = {''kind'', ''maximum_stages'', ''minimum_dpi'', ''maximum_dpi''}"
      using run unfolding 3 by (simp add: rbind_Inr_iff native_keys_Inr)
    have stages: "n = 38" "bounded_int (get_item matcher ''maximum_stages'') 1 5" and dpi: "1 \<le> lo" "lo \<le> hi" "hi \<le> 65535"
      using run unfolding 3 range by (simp_all add: rbind_Inr_iff bounded_int_def [of "JInt _"] split: if_splits)
    have policy: "\<exists>stages lo hi. get_item matcher ''maximum_stages'' = JInt stages \<and> get_item matcher ''minimum_dpi'' = JInt lo
        \<and> get_item matcher ''maximum_dpi'' = JInt hi \<and> 1 \<le> stages \<and> stages \<le> 5 \<and> 1 \<le> lo \<and> lo \<le> hi \<and> hi \<le> 65535"
      using stages(2) range dpi by (auto simp only: bounded_int_iff)
    show ?thesis unfolding matcher_governs_def v
      by (rule exI [of _ matcher], intro conjI refl, rule disjI2, rule disjI2, intro conjI 3 keys stages(1) policy)
  qed
qed

lemma command_signature_Inr:
  assumes "command_signature label rule = Inr (i, n)"
  shows "get_item rule ''data_size'' = JInt (int n) \<and> 1 \<le> n \<and> n \<le> 80 \<and> writes_command (JObj rule)"
proof -
  obtain size i' where parts: "get_item rule ''id'' = JStr i'" "get_item rule ''data_size'' = JInt size"
    using assms unfolding command_signature_def
    by (cases "get_item rule ''id''"; cases "get_item rule ''data_size''") simp_all
  then show ?thesis
    using assms unfolding command_signature_def writes_command_def by (auto simp: bounded_int_iff split: if_splits)
qed

lemma command_direction_Inr:
  assumes "command_direction label rule = Inr (reads, n)"
  shows "get_item rule ''data_size'' = JInt (int n) \<and> 1 \<le> n \<and> n \<le> 80 \<and> directed_command (JObj rule)"
proof -
  obtain known where known: "in_strings (get_item rule ''direction'') [''read'', ''write''] = Inr known"
    using assms unfolding command_direction_def by (auto simp: rbind_Inr_iff)
  obtain c size where parts: "get_item rule ''command_id'' = JInt c" "get_item rule ''data_size'' = JInt size"
    using assms unfolding command_direction_def known rbind_simps
    by (cases "get_item rule ''command_id''"; cases "get_item rule ''data_size''") simp_all
  have ok: "known" "0 \<le> c" "c \<le> 255" "(c \<ge> 128) = (get_item rule ''direction'' = JStr ''read'')" "1 \<le> size" "size \<le> 80" "n = nat size"
    using assms unfolding command_direction_def known rbind_simps parts json.case prod.case
    by (simp_all add: bounded_int_iff split: if_splits)
  obtain s where s: "get_item rule ''direction'' = JStr s" "s = ''read'' \<or> s = ''write''"
    using known ok(1) by (auto simp: in_strings_True)
  then have "get_item rule ''direction'' = JStr (if c < 128 then ''write'' else ''read'')" using ok(4) by (cases "c < 128") auto
  then show ?thesis using ok parts unfolding directed_command_def by auto
qed

lemma object_Inr: "object_or v message = Inr kvs \<longleftrightarrow> v = JObj kvs"
  by (cases v) (auto simp: object_or_def)

lemma rbindE:
  assumes "rbind m f = Inr y"
  obtains x where "m = Inr x" and "f x = Inr y"
  using assms by (auto simp: rbind_Inr_iff)

lemma policy_rule_governed:
  assumes "policy_rule label device_kind index v = Inr i"
  shows "rule_governed v \<and> writes_command v"
proof -
  define l where "l = label @ '' rule '' @ str_nat index"
  obtain rule p where rule: "object_or v (l @ '': expected an object'') = Inr rule" "command_signature l rule = Inr p"
      "validate_matcher (get_item rule ''matcher'') (snd p) (l @ '' matcher'') = Inr ()"
    using assms unfolding policy_rule_def Let_def l_def [symmetric] case_prod_beta old.unit.exhaust
    by (elim rbindE) (rule that; simp)
  obtain i' n where p: "p = (i', n)" by (cases p)
  show ?thesis
    using command_signature_Inr [OF rule(2) [unfolded p]] validate_matcher_governs [OF rule(3)] rule(1)
    unfolding rule_governed_def object_Inr p snd_conv by blast
qed

lemma catalog_rule_governed:
  assumes "catalog_rule label index v = Inr r"
  shows "rule_governed v \<and> directed_command v"
proof -
  define l where "l = label @ '' rule '' @ str_nat index"
  obtain rule p where rule: "object_or v (l @ '': expected an object'') = Inr rule" "command_direction l rule = Inr p"
      "validate_matcher (get_item rule ''matcher'') (snd p) (l @ '' matcher'') = Inr ()"
    using assms unfolding catalog_rule_def Let_def l_def [symmetric] case_prod_beta
    by (elim rbindE) (rule that; simp)
  obtain reads n where p: "p = (reads, n)" by (cases p)
  show ?thesis
    using command_direction_Inr [OF rule(2) [unfolded p]] validate_matcher_governs [OF rule(3)] rule(1)
    unfolding rule_governed_def object_Inr p snd_conv by blast
qed

lemma mapM_index_all: "mapM_index f xs = Inr ys \<Longrightarrow> x \<in> set xs \<Longrightarrow> \<exists>i y. f i x = Inr y"
  by (auto simp: mapM_index_Inr in_set_conv_nth)

definition rules_all :: "(json \<Rightarrow> bool) \<Rightarrow> json \<Rightarrow> bool" where
  "rules_all P v \<longleftrightarrow> (\<exists>kvs rules. v = JObj kvs \<and> get_item kvs ''rules'' = JArr rules \<and> rules \<noteq> [] \<and> (\<forall>r \<in> set rules. P r))"

lemma guarded_rbind: "(if stop then Inl e else rbind m f) = Inr y \<Longrightarrow> \<not> stop \<and> (\<exists>x. m = Inr x)"
  by (auto simp: rbind_Inr_iff split: if_splits)

lemma rules_allI:
  assumes "v = JObj kvs" and "get_item kvs ''rules'' = JArr rules" and "rules \<noteq> []"
    and "\<exists>out. mapM_index f rules = Inr out" and "\<And>i r y. f i r = Inr y \<Longrightarrow> P r"
  shows "rules_all P v"
  unfolding rules_all_def using assms(1-4) mapM_index_all assms(5) by metis

lemma policy_family_rules:
  assumes "policy_family index v = Inr kind"
  shows "rules_all (\<lambda>r. rule_governed r \<and> writes_command r) v"
proof -
  define l where "l = ''OpenRazer native command family '' @ str_nat index"
  obtain kvs known where family: "object_or v (l @ '': expected an object'') = Inr kvs"
    and run: "(case get_item kvs ''device_kind'' of
        JStr device_kind \<Rightarrow>
          if \<not> known then Inl (ModelError (l @ '': unsupported device kind''))
          else (case get_item kvs ''rules'' of
            JArr rules \<Rightarrow>
              if rules = [] \<or> length rules > 128 then Inl (ModelError (l @ '': rules must be bounded''))
              else rbind (mapM_index (policy_rule l device_kind) rules) (\<lambda>ids.
                   rbind (require_unique ids (l @ '' rule id'')) (\<lambda>_.
                   if ids \<noteq> py_sorted ids then Inl (ModelError (l @ '': rules must be sorted''))
                   else Inr device_kind))
          | _ \<Rightarrow> Inl (ModelError (l @ '': rules must be bounded'')))
      | _ \<Rightarrow> Inl (ModelError (l @ '': unsupported device kind''))) = Inr kind"
    using assms unfolding policy_family_def Let_def l_def [symmetric] by (elim rbindE)
  obtain device_kind where dk: "get_item kvs ''device_kind'' = JStr device_kind"
    using run by (cases "get_item kvs ''device_kind''") simp_all
  obtain rules where rules: "get_item kvs ''rules'' = JArr rules"
    using run unfolding dk json.case by (cases "get_item kvs ''rules''") (simp_all split: if_splits)
  have checked: "\<not> (rules = [] \<or> length rules > 128) \<and> (\<exists>ids. mapM_index (policy_rule l device_kind) rules = Inr ids)"
    by (rule guarded_rbind) (use run in \<open>simp add: dk rules split: if_splits\<close>)
  show ?thesis
  proof (rule rules_allI [OF _ rules])
    show "v = JObj kvs" using family by (simp only: object_Inr)
    show "rules \<noteq> []" "\<exists>ids. mapM_index (policy_rule l device_kind) rules = Inr ids" using checked by simp_all
  qed (rule policy_rule_governed)
qed

lemma catalog_device_rules:
  assumes "catalog_device expected index v = Inr profile"
  shows "rules_all (\<lambda>r. rule_governed r \<and> directed_command r) v"
proof -
  define l where "l = ''OpenRazer native command catalog device '' @ str_nat index"
  obtain kvs where kvs: "v = JObj kvs"
    using assms unfolding catalog_device_def Let_def object_Inr rbind_Inr_iff by blast
  obtain rules where rules: "get_item kvs ''rules'' = JArr rules"
    using assms unfolding catalog_device_def Let_def object_or_def kvs json.case rbind_simps
    by (elim rbindE) (cases "get_item kvs ''rules''"; simp)
  have checked: "\<not> (rules = [] \<or> length rules > 256) \<and> (\<exists>checked. mapM_index (catalog_rule l) rules = Inr checked)"
    using assms unfolding catalog_device_def Let_def object_or_def kvs json.case rbind_simps l_def [symmetric] rules
    by (elim rbindE) (rule guarded_rbind)
  show ?thesis
  proof (rule rules_allI [OF kvs rules])
    show "rules \<noteq> []" "\<exists>out. mapM_index (catalog_rule l) rules = Inr out" using checked by simp_all
  qed (rule catalog_rule_governed)
qed

lemma policy_families_rules:
  assumes "policy_families v = Inr ()"
  shows "\<exists>families. v = JArr families \<and> (\<forall>f \<in> set families. rules_all (\<lambda>r. rule_governed r \<and> writes_command r) f)"
proof -
  obtain families where v: "v = JArr families" using assms unfolding policy_families_def by (cases v) simp_all
  have "\<not> (families = [] \<or> length families > 8) \<and> (\<exists>kinds. mapM_index policy_family families = Inr kinds)"
    using assms unfolding policy_families_def v json.case by (rule guarded_rbind)
  then obtain kinds where "mapM_index policy_family families = Inr kinds" by blast
  from mapM_index_all [OF this] show ?thesis using v policy_family_rules by blast
qed

lemma load_policy_rules:
  assumes "load_native_command_policy w repo = Inr policy"
  shows "policy_families (get_item policy ''families'') = Inr ()"
  using assms unfolding load_native_command_policy_def
  by (elim rbindE) (simp only: if_distrib split: if_splits, simp_all add: rbind_Inr_iff)

lemma load_catalog_parts:
  assumes "load_native_command_catalog w repo = Inr catalog"
  shows "(\<exists>policy. load_native_command_policy w repo = Inr policy)
    \<and> catalog_devices w (get_item catalog ''devices'') = Inr ()"
  using assms unfolding load_native_command_catalog_def
  by (elim rbindE) (simp only: if_distrib split: if_splits, simp_all add: rbind_Inr_iff)

lemma catalog_devices_rules:
  assumes "catalog_devices w v = Inr ()"
  shows "\<exists>devices. py_iterate v = Inr devices \<and> (\<forall>d \<in> set devices. rules_all (\<lambda>r. rule_governed r \<and> directed_command r) d)"
proof -
  obtain devices probes profiles where devices: "py_iterate v = Inr devices" "mapM_index (catalog_device probes) devices = Inr profiles"
    using assms unfolding catalog_devices_def by (elim rbindE)
  then show ?thesis using mapM_index_all [OF devices(2)] catalog_device_rules by blast
qed

text \<open>
  C40. What may be sent to a device is bounded.  When the command catalog loads, each rule of it has a payload of 1 to
  80 bytes and one of three matchers.  Fields: every byte belongs to exactly one of them, and each allows
  bytes, ranges or pixels within their bounds.  A lighting frame: 71 bytes, at most 32 rows of 25 columns.
  Resolution stages: 38 bytes, at most five stages of an ordered range of positive 16-bit resolutions.  The top
  bit of the command number says whether the rule reads; and the rules of the policy the catalog was
  compiled from, all writes, have the same form.
\<close>

theorem native_rules_are_governed:
  assumes "load_native_command_catalog w repo = Inr catalog"
  shows "(\<exists>devices. py_iterate (get_item catalog ''devices'') = Inr devices \<and>
      (\<forall>d \<in> set devices. rules_all (\<lambda>r. rule_governed r \<and> directed_command r) d))
    \<and> (\<exists>policy families. load_native_command_policy w repo = Inr policy \<and> get_item policy ''families'' = JArr families \<and>
      (\<forall>f \<in> set families. rules_all (\<lambda>r. rule_governed r \<and> writes_command r) f))"
proof -
  obtain policy where policy: "load_native_command_policy w repo = Inr policy"
    and devices: "catalog_devices w (get_item catalog ''devices'') = Inr ()"
    using load_catalog_parts [OF assms] by blast
  from policy_families_rules [OF load_policy_rules [OF policy]] catalog_devices_rules [OF devices] policy
  show ?thesis by blast
qed

text \<open>A policy with one rule for each family, and a catalog with one device that reads and writes.\<close>

definition ex_matcher :: json where
  "ex_matcher = JObj [(''kind'', JStr ''fields''), (''fields'', JArr [
     JObj [(''kind'', JStr ''exact''), (''offset'', JInt 0), (''bytes'', JArr [JInt 1])],
     JObj [(''kind'', JStr ''rgb''), (''offset'', JInt 1), (''pixels'', JInt 1)]])]"

definition ex_policy_rule :: "string \<Rightarrow> json" where
  "ex_policy_rule driver = JObj [(''id'', JStr ''logo''), (''methods'', JArr [JStr ''set_logo'']), (''command_class'', JInt 3),
     (''command_id'', JInt 1), (''data_size'', JInt 4), (''matcher'', ex_matcher), (''sources'', JArr [
       JObj [(''path'', JStr ''driver/razerchromacommon.c''), (''functions'', JArr [JStr ''razer_set_logo''])],
       JObj [(''path'', JStr driver), (''functions'', JArr [JStr ''razer_attr_logo''])]])]"

definition ex_policy :: json where
  "ex_policy = JObj [(''$schema'', JStr ''../../schemas/openrazer-native-command-policy.schema.json''),
     (''schema'', JStr ''hyperflux-openrazer-native-command-policy-v1''), (''upstream_id'', JStr ''openrazer''),
     (''source_commit'', JStr ''c0''), (''report_size'', JInt 90), (''families'', JArr [
       JObj [(''device_kind'', JStr ''mouse''), (''rules'', JArr [ex_policy_rule ''driver/razermouse_driver.c''])],
       JObj [(''device_kind'', JStr ''keyboard''), (''rules'', JArr [ex_policy_rule ''driver/razerkbd_driver.c''])]])]"

definition ex_catalog_rule :: "string \<Rightarrow> string \<Rightarrow> int \<Rightarrow> json" where
  "ex_catalog_rule name direction command = JObj [(''id'', JStr name), (''methods'', JArr [JStr ''get_logo'']),
     (''direction'', JStr direction), (''command_class'', JInt 3), (''command_id'', JInt command), (''data_size'', JInt 4),
     (''matcher'', ex_matcher), (''sources'', JArr [JObj [(''path'', JStr ''driver/razerchromacommon.c''),
        (''function'', JStr ''razer_set_logo''), (''line'', JInt 7), (''sha256'', JStr (replicate 64 CHR ''0''))]])]"

definition ex_upstream :: "(string \<times> json) list" where
  "ex_upstream = [(''id'', JStr ''openrazer''), (''repository'', JStr ''r''), (''version'', JStr ''1''),
     (''commit'', JStr ''c0''), (''license_expression'', JStr ''l'')]"

definition ex_native_catalog :: json where
  "ex_native_catalog = JObj [(''$schema'', JStr ''../../schemas/openrazer-native-command-catalog.schema.json''),
     (''schema'', JStr ''hyperflux-openrazer-native-command-catalog-v1''), (''upstream'', JObj ex_upstream),
     (''policy_sha256'', JStr ''d''), (''inventory_sha256'', JStr ''d''), (''probe_catalog_sha256'', JStr ''d''),
     (''report_size'', JInt 90), (''devices'', JArr [JObj [(''profile_id'', JStr ''mouse-a''), (''rules'', JArr [
        ex_catalog_rule ''read-logo'' ''read'' 129, ex_catalog_rule ''write-logo'' ''write'' 1])]])]"

definition ex_native_world :: native_world where
  "ex_native_world = \<lparr>nw_files = (\<lambda>path. if path = native_path ''/repo'' ''native-command-policy.json'' then Some ex_policy
       else if path = native_path ''/repo'' ''native-command-catalog.json'' then Some ex_native_catalog else None),
     nw_upstreams = Inr [(''openrazer'', ex_upstream)], nw_inventory = Inr [''mouse-a''],
     nw_probes = Inr [(''mouse-a'', [''get_logo''])], nw_sha256 = (\<lambda>_. Inr ''d'')\<rparr>"

lemma ex_native_catalog_loads:
  "case load_native_command_catalog ex_native_world ''/repo'' of Inl e \<Rightarrow> False | Inr c \<Rightarrow> True"
  by code_simp

theorem native_rules_are_governed_witness:
  "\<exists>catalog devices. load_native_command_catalog ex_native_world ''/repo'' = Inr catalog
     \<and> py_iterate (get_item catalog ''devices'') = Inr devices
     \<and> (\<forall>d \<in> set devices. rules_all (\<lambda>r. rule_governed r \<and> directed_command r) d)"
proof -
  obtain catalog where loaded: "load_native_command_catalog ex_native_world ''/repo'' = Inr catalog"
    using ex_native_catalog_loads by (cases "load_native_command_catalog ex_native_world ''/repo''") simp_all
  from native_rules_are_governed [OF loaded] loaded show ?thesis by blast
qed

end
